theory Spec2Isabelle
  imports Main "HOL-Library.Word"
begin

section \<open>The validator system smart contract (validatorSC)\<close>

text \<open>
  A shallow embedding of the validator contract: every handler is a function from the
  call input and the host state to a return code and the new host state. Go byte slices
  are \<open>string\<close>s (an Isabelle \<open>char\<close> is one byte), \<open>*big.Int\<close> is \<open>int\<close>, \<open>uint64\<close> and
  \<open>uint32\<close> are \<open>64 word\<close> and \<open>32 word\<close>.
\<close>

type_synonym bytes = string

subsection \<open>Arbitrary-precision integers and byte strings\<close>

text \<open>\<open>big.Int.SetBytes\<close>: the bytes read as a big-endian unsigned integer.\<close>

definition SetBytes :: "bytes \<Rightarrow> int" where
  "SetBytes bs = foldl (\<lambda>a c. a * 256 + of_char c) 0 bs"

text \<open>\<open>big.Int.Bytes\<close>: the big-endian bytes of the absolute value, without leading zeros.\<close>

function natBytes :: "nat \<Rightarrow> bytes" where
  "natBytes n = (if n = 0 then [] else natBytes (n div 256) @ [char_of (n mod 256)])"
  by pat_completeness auto
termination
  by (relation "measure (\<lambda>n. n)") auto

declare natBytes.simps [simp del]

definition Bytes :: "int \<Rightarrow> bytes" where
  "Bytes x = natBytes (nat \<bar>x\<bar>)"

text \<open>\<open>big.Int.Uint64\<close>: the low 64 bits of the absolute value.\<close>

definition Uint64 :: "int \<Rightarrow> 64 word" where
  "Uint64 x = word_of_int \<bar>x\<bar>"

subsection \<open>Data model\<close>

text \<open>
  The return codes a handler produces, and \<open>OtherCode\<close> for the remaining codes of
  \<open>vmcommon.ReturnCode\<close> that only a sub-call into the Staking Registry can return.
\<close>

datatype ReturnCode = Ok | UserError | OutOfGas | OutOfFunds | OtherCode nat

text \<open>The per-key result codes written to the finish stream (\<open>iota\<close> constants 0..3).\<close>

definition ok :: bytes where "ok = [CHR 0x00]"
definition invalidKey :: bytes where "invalidKey = [CHR 0x01]"
definition failed :: bytes where "failed = [CHR 0x02]"
definition waiting :: bytes where "waiting = [CHR 0x03]"

definition unJailedFunds :: bytes where "unJailedFunds = ''unJailFunds''"
definition unStakeUnBondPauseKey :: bytes where "unStakeUnBondPauseKey = ''unStakeUnBondPause''"

text \<open>Modelled from the spec: the storage key \<open>owner\<close> (the constant \<open>ownerKey\<close> is declared
  outside the source file).\<close>

definition ownerKey :: bytes where "ownerKey = ''owner''"

record UnstakedValue =
  UnstakedNonce :: "64 word"
  UnstakedValue :: int

record ValidatorDataV2 =
  RegisterNonce :: "64 word"
  Epoch :: "32 word"
  RewardAddress :: bytes
  TotalStakeValue :: int
  LockedStake :: int
  MaxStakePerNode :: int
  BlsPubKeys :: "bytes list"
  NumRegistered :: "32 word"
  UnstakedInfo :: "UnstakedValue list"
  TotalUnstaked :: int

record ValidatorConfig =
  MinStakeValue :: int
  TotalSupply :: int
  MinStep :: int
  NodePrice :: int
  UnJailPrice :: int

text \<open>The gas-cost entries the contract reads (\<open>gasCost.MetaChainSystemSCsCost\<close>).\<close>

record MetaChainSystemSCsCost =
  Stake :: "64 word"
  UnStake :: "64 word"
  UnBond :: "64 word"
  Claim :: "64 word"
  Get :: "64 word"
  ChangeRewardAddress :: "64 word"
  UnJail :: "64 word"
  UnStakeTokens :: "64 word"
  UnBondTokens :: "64 word"

record VMOutput =
  ReturnCode :: ReturnCode
  ReturnData :: "bytes list"

record ContractCallInput =
  CallerAddr :: bytes
  RecipientAddr :: bytes
  CallValue :: int
  Arguments :: "bytes list"
  Function :: string

text \<open>
  The commands sent to the Staking Registry. The source builds each as the byte string
  \<open>name@hex(arg1)@hex(arg2)...\<close>; the constructor is the name and its arguments are the
  byte strings before hex encoding.
\<close>

datatype command =
    SC_register bytes bytes bytes
  | SC_stake bytes bytes bytes
  | SC_unStake bytes bytes
  | SC_unBond bytes
  | SC_unJail bytes
  | SC_setOwner bytes bytes
  | SC_changeRewardAddress bytes "bytes list"
  | SC_get bytes
  | SC_getBLSKeyStatus bytes

text \<open>
  A value in contract storage: raw bytes, or a marshalled registration record. The
  marshaller is an external collaborator; it is taken to be injective and total, so a
  stored record is kept as the record itself.
\<close>

datatype storage_val = RawBytes bytes | Marshalled ValidatorDataV2

text \<open>
  The mutable state of the host environment (\<open>vm.SystemEI\<close>) during and between calls:
  contract storage, remaining gas, the finish stream, the return messages, the transfers
  made, and the commands issued to the Staking Registry so far.
\<close>

record SystemEI =
  storage :: "bytes \<Rightarrow> storage_val option"
  gasRemaining :: "64 word"
  finishData :: "bytes list"
  returnMessage :: "string list"
  transfers :: "(bytes \<times> bytes \<times> int) list"
  calls :: "command list"

text \<open>The record of the Staking Registry for one key, as far as the contract reads it.\<close>

record StakedDataV2_0 =
  Staked :: bool
  Waiting :: bool
  UnStakedNonce :: "64 word"

text \<open>
  The contract object. Besides the fields of the Go struct it carries what the contract
  reaches through its interfaces and does not change during a call: the block's nonce and
  epoch (\<open>eei.BlockChainHook()\<close>), the signature verifier, the test for smart-contract
  addresses, the answers of the Staking Registry (a function of the commands issued before
  and the command at hand), the decoder of its staked data and the bytes the marshaller
  produces for a registration record. \<open>getConfig\<close> is outside the source file; its result for
  the current epoch is the field \<open>epochConfig\<close>. The body of the handler \<open>setConfig\<close>, which
  \<open>Execute\<close> dispatches, is outside the source file as well; the handler is the field
  \<open>setConfig\<close>, a function of the call and the host's state like every other handler.
\<close>

record validatorSC =
  unBondPeriod :: "64 word"
  epochConfig :: ValidatorConfig
  stakingV2Epoch :: "32 word"
  stakingSCAddress :: bytes
  validatorSCAddress :: bytes
  walletAddressLen :: nat
  enableStakingEpoch :: "32 word"
  enableDoubleKeyEpoch :: "32 word"
  gasCost :: MetaChainSystemSCsCost
  flagEnableStaking :: bool
  flagEnableTopUp :: bool
  flagDoubleKey :: bool
  minUnstakeTokensValue :: int
  endOfEpochAddress :: bytes
  CurrentNonce :: "64 word"
  CurrentEpoch :: "32 word"
  sigVerifier :: "bytes \<Rightarrow> bytes \<Rightarrow> bytes \<Rightarrow> bool"
  IsSmartContractAddress :: "bytes \<Rightarrow> bool"
  stakingSC :: "command list \<Rightarrow> command \<Rightarrow> string + VMOutput"
  unmarshalStakedData :: "bytes \<Rightarrow> StakedDataV2_0 option"
  marshalizer :: "ValidatorDataV2 \<Rightarrow> bytes"
  setConfig :: "ContractCallInput \<Rightarrow> SystemEI \<Rightarrow> ReturnCode \<times> SystemEI"

subsection \<open>The host interface\<close>

definition AddReturnMessage :: "string \<Rightarrow> SystemEI \<Rightarrow> SystemEI" where
  "AddReturnMessage m st = st\<lparr>returnMessage := returnMessage st @ [m]\<rparr>"

definition Finish :: "bytes \<Rightarrow> SystemEI \<Rightarrow> SystemEI" where
  "Finish b st = st\<lparr>finishData := finishData st @ [b]\<rparr>"

text \<open>Modelled from the spec: the host charges gas and fails when not enough is left
  (\<open>None\<close>); the implementation of \<open>UseGas\<close> is outside the source file.\<close>

definition UseGas :: "64 word \<Rightarrow> SystemEI \<Rightarrow> SystemEI option" where
  "UseGas gasToConsume st =
     (if gasRemaining st < gasToConsume then None
      else Some (st\<lparr>gasRemaining := gasRemaining st - gasToConsume\<rparr>))"

text \<open>Modelled from the spec: the host retrieves and puts bytes under a key; a key never
  written, or set to \<open>nil\<close>, reads as \<open>nil\<close> (\<open>None\<close>).\<close>

definition GetStorage :: "bytes \<Rightarrow> SystemEI \<Rightarrow> storage_val option" where
  "GetStorage key st = storage st key"

definition SetStorage :: "bytes \<Rightarrow> storage_val option \<Rightarrow> SystemEI \<Rightarrow> SystemEI" where
  "SetStorage key val st = st\<lparr>storage := (storage st)(key := val)\<rparr>"

text \<open>The bytes of a stored value, where the source reads them as bytes.\<close>

fun storageBytes :: "validatorSC \<Rightarrow> storage_val option \<Rightarrow> bytes" where
  "storageBytes v None = []"
| "storageBytes v (Some (RawBytes b)) = b"
| "storageBytes v (Some (Marshalled r)) = marshalizer v r"

text \<open>Modelled from the spec: the host transfers value between addresses; the transfer
  \<open>(destination, sender, value)\<close> is recorded and no error is returned.\<close>

definition Transfer :: "bytes \<Rightarrow> bytes \<Rightarrow> int \<Rightarrow> SystemEI \<Rightarrow> string option \<times> SystemEI" where
  "Transfer destination sender val st =
     (None, st\<lparr>transfers := transfers st @ [(destination, sender, val)]\<rparr>)"

text \<open>A synchronous sub-call into the Staking Registry: the command is recorded and the
  registry's answer (an error, or a \<open>VMOutput\<close>) returned.\<close>

definition executeOnStakingSC ::
  "validatorSC \<Rightarrow> command \<Rightarrow> SystemEI \<Rightarrow> (string + VMOutput) \<times> SystemEI" where
  "executeOnStakingSC v cmd st = (stakingSC v (calls st) cmd, st\<lparr>calls := calls st @ [cmd]\<rparr>)"

text \<open>Modelled from the spec: the configuration is process-wide and derived per epoch;
  \<open>getConfig\<close> (outside the source file) yields the configuration of the epoch.\<close>

definition getConfig :: "validatorSC \<Rightarrow> 32 word \<Rightarrow> ValidatorConfig" where
  "getConfig v epoch = epochConfig v"

subsection \<open>The registration store\<close>

definition emptyRegistrationData :: ValidatorDataV2 where
  "emptyRegistrationData =
     \<lparr>RegisterNonce = 0, Epoch = 0, RewardAddress = [], TotalStakeValue = 0, LockedStake = 0,
      MaxStakePerNode = 0, BlsPubKeys = [], NumRegistered = 0, UnstakedInfo = [],
      TotalUnstaked = 0\<rparr>"

text \<open>Modelled from the spec: \<open>getOrCreateRegistrationData\<close> (outside the source file) loads
  the record stored under the owner's key through the marshaller, and creates a zeroed
  record when nothing is stored; stored bytes that are no record are an error.\<close>

definition getOrCreateRegistrationData ::
  "validatorSC \<Rightarrow> bytes \<Rightarrow> SystemEI \<Rightarrow> string + ValidatorDataV2" where
  "getOrCreateRegistrationData v key st =
     (case GetStorage key st of
        None \<Rightarrow> Inr emptyRegistrationData
      | Some (RawBytes b) \<Rightarrow>
          if length b = 0 then Inr emptyRegistrationData else Inl ''unmarshal error''
      | Some (Marshalled r) \<Rightarrow> Inr r)"

text \<open>Modelled from the spec: \<open>saveRegistrationData\<close> (outside the source file) marshals the
  record and puts it under the owner's key; the marshaller does not fail.\<close>

definition saveRegistrationData ::
  "validatorSC \<Rightarrow> bytes \<Rightarrow> ValidatorDataV2 \<Rightarrow> SystemEI \<Rightarrow> string option \<times> SystemEI" where
  "saveRegistrationData v key validator st = (None, SetStorage key (Some (Marshalled validator)) st)"

text \<open>Modelled from the spec: \<open>verifyBLSPublicKeys\<close> (outside the source file) accepts the
  arguments when every key is among the owner's registered keys.\<close>

definition verifyBLSPublicKeys :: "ValidatorDataV2 \<Rightarrow> bytes list \<Rightarrow> string option" where
  "verifyBLSPublicKeys registrationData arguments =
     (if list_all (\<lambda>argKey. argKey \<in> set (BlsPubKeys registrationData)) arguments then None
      else Some ''bls public key mismatch'')"

text \<open>Modelled from the spec: the message constants of package \<open>vm\<close>, whose text is outside
  the source file.\<close>

definition TransactionValueMustBeZero :: string where
  "TransactionValueMustBeZero = ''transaction value must be zero''"
definition InsufficientGasLimit :: string where
  "InsufficientGasLimit = ''insufficient gas limit''"
definition CannotGetOrCreateRegistrationData :: string where
  "CannotGetOrCreateRegistrationData = ''cannot get or create registration data: error ''"
definition CannotGetAllBlsKeysFromRegistrationData :: string where
  "CannotGetAllBlsKeysFromRegistrationData = ''could not get all blsKeys from registration data: error ''"
definition StakeNotEnabled :: string where
  "StakeNotEnabled = ''stake is not enabled''"
definition UnStakeNotEnabled :: string where
  "UnStakeNotEnabled = ''unStake is not enabled''"
definition UnBondNotEnabled :: string where
  "UnBondNotEnabled = ''unBond is not enabled''"

definition pausedMessage :: string where
  "pausedMessage = ''unStake/unBond is paused as not enough total staked in protocol''"

subsection \<open>Pause and unpause\<close>

definition pauseUnStakeUnBond :: "validatorSC \<Rightarrow> ContractCallInput \<Rightarrow> SystemEI \<Rightarrow> ReturnCode \<times> SystemEI" where
  "pauseUnStakeUnBond v args st =
     (if \<not> flagEnableTopUp v then (UserError, AddReturnMessage ''invalid method to call'' st)
      else if CallerAddr args \<noteq> endOfEpochAddress v
        then (UserError, AddReturnMessage ''only end of epoch address can call'' st)
      else (Ok, SetStorage unStakeUnBondPauseKey (Some (RawBytes [CHR 0x01])) st))"

definition unPauseStakeUnBond :: "validatorSC \<Rightarrow> ContractCallInput \<Rightarrow> SystemEI \<Rightarrow> ReturnCode \<times> SystemEI" where
  "unPauseStakeUnBond v args st =
     (if \<not> flagEnableTopUp v then (UserError, AddReturnMessage ''invalid method to call'' st)
      else if CallerAddr args \<noteq> endOfEpochAddress v
        then (UserError, AddReturnMessage ''only end of epoch address can call'' st)
      else (Ok, SetStorage unStakeUnBondPauseKey (Some (RawBytes [CHR 0x00])) st))"

definition isUnStakeUnBondPaused :: "validatorSC \<Rightarrow> SystemEI \<Rightarrow> bool" where
  "isUnStakeUnBondPaused v st =
     (let storageData = storageBytes v (GetStorage unStakeUnBondPauseKey st)
      in if length storageData = 0 then False else storageData ! 0 = CHR 0x01)"

subsection \<open>Text of numbers and keys in messages and views\<close>

text \<open>\<open>hex.EncodeToString\<close>: two lower-case hexadecimal digits per byte.\<close>

definition hexDigit :: "nat \<Rightarrow> char" where
  "hexDigit n = ''0123456789abcdef'' ! n"

definition EncodeToString :: "bytes \<Rightarrow> string" where
  "EncodeToString bs =
     concat (map (\<lambda>c. [hexDigit (of_char c div 16), hexDigit (of_char c mod 16)]) bs)"

text \<open>\<open>big.Int.String\<close>: the decimal text of an integer.\<close>

function natString :: "nat \<Rightarrow> string" where
  "natString n =
     (if n < 10 then [''0123456789'' ! n] else natString (n div 10) @ [''0123456789'' ! (n mod 10)])"
  by pat_completeness auto
termination
  by (relation "measure (\<lambda>n. n)") auto

declare natString.simps [simp del]

definition String :: "int \<Rightarrow> string" where
  "String x = (if x < 0 then CHR ''-'' # natString (nat (- x)) else natString (nat x))"

text \<open>Modelled from the spec: \<open>ReturnCode.String\<close> (declared outside the source file), used
  in return messages only.\<close>

fun ReturnCodeString :: "ReturnCode \<Rightarrow> string" where
  "ReturnCodeString Ok = ''ok''"
| "ReturnCodeString UserError = ''user error''"
| "ReturnCodeString OutOfGas = ''out of gas''"
| "ReturnCodeString OutOfFunds = ''out of funds''"
| "ReturnCodeString (OtherCode n) = ''unknown''"

subsection \<open>unStake of nodes and tokens\<close>

definition basicChecksForUnStakeNodes ::
  "validatorSC \<Rightarrow> ContractCallInput \<Rightarrow> SystemEI \<Rightarrow> (ReturnCode + ValidatorDataV2) \<times> SystemEI" where
  "basicChecksForUnStakeNodes v args st =
     (if CallValue args \<noteq> 0 then (Inl UserError, AddReturnMessage TransactionValueMustBeZero st)
      else if length (Arguments args) = 0
        then (Inl UserError, AddReturnMessage ''invalid number of arguments: expected min 1, got 0'' st)
      else if \<not> flagEnableStaking v then (Inl UserError, AddReturnMessage UnStakeNotEnabled st)
      else case getOrCreateRegistrationData v (CallerAddr args) st of
        Inl err \<Rightarrow> (Inl UserError, AddReturnMessage (CannotGetOrCreateRegistrationData @ err) st)
      | Inr registrationData \<Rightarrow>
          (case UseGas (UnStake (gasCost v) * of_nat (length (Arguments args))) st of
             None \<Rightarrow> (Inl OutOfGas, AddReturnMessage InsufficientGasLimit st)
           | Some st1 \<Rightarrow>
               (case verifyBLSPublicKeys registrationData (Arguments args) of
                  Some err \<Rightarrow>
                    (Inl UserError, AddReturnMessage (CannotGetAllBlsKeysFromRegistrationData @ err) st1)
                | None \<Rightarrow> (Inr registrationData, st1))))"

fun unStakeNodesFromStakingSC_loop ::
  "validatorSC \<Rightarrow> ValidatorDataV2 \<Rightarrow> bytes list \<Rightarrow> 64 word \<Rightarrow> SystemEI \<Rightarrow> 64 word \<times> SystemEI" where
  "unStakeNodesFromStakingSC_loop v registrationData [] numSuccess st = (numSuccess, st)"
| "unStakeNodesFromStakingSC_loop v registrationData (blsKey # blsKeys) numSuccess st =
     (case executeOnStakingSC v (SC_unStake blsKey (RewardAddress registrationData)) st of
        (Inl errExec, st1) \<Rightarrow>
          unStakeNodesFromStakingSC_loop v registrationData blsKeys numSuccess
            (Finish failed (Finish blsKey (AddReturnMessage
               (''cannot do unStake for key '' @ EncodeToString blsKey @ '': '' @ errExec) st1)))
      | (Inr vmOutput, st1) \<Rightarrow>
          if ReturnCode vmOutput \<noteq> Ok then
            unStakeNodesFromStakingSC_loop v registrationData blsKeys numSuccess
              (Finish failed (Finish blsKey (AddReturnMessage
                 (''cannot do unStake for key '' @ EncodeToString blsKey @ '': ''
                    @ ReturnCodeString (ReturnCode vmOutput)) st1)))
          else unStakeNodesFromStakingSC_loop v registrationData blsKeys (numSuccess + 1) st1)"

definition unStakeNodesFromStakingSC ::
  "validatorSC \<Rightarrow> bytes list \<Rightarrow> ValidatorDataV2 \<Rightarrow> SystemEI \<Rightarrow> 64 word \<times> SystemEI" where
  "unStakeNodesFromStakingSC v blsKeys registrationData st =
     unStakeNodesFromStakingSC_loop v registrationData blsKeys 0 st"

text \<open>The record is passed by pointer in the source: the function returns the record as it
  leaves it, next to the return code.\<close>

definition processUnStakeValue ::
  "validatorSC \<Rightarrow> ValidatorDataV2 \<Rightarrow> int \<Rightarrow> SystemEI \<Rightarrow> ReturnCode \<times> ValidatorDataV2 \<times> SystemEI" where
  "processUnStakeValue v registrationData unStakeValue st =
     (let unstakeValueIsOk =
            (unStakeValue \<ge> minUnstakeTokensValue v \<or> unStakeValue = TotalStakeValue registrationData)
      in if \<not> unstakeValueIsOk then
           (UserError, registrationData, AddReturnMessage
              (''can not unstake the provided value either because is under the minimum threshold or ''
                 @ ''is not the value left to be unStaked'') st)
         else if unStakeValue > TotalStakeValue registrationData then
           (UserError, registrationData, AddReturnMessage
              (''can not unstake a bigger value than the possible allowed value which is ''
                 @ String (TotalStakeValue registrationData)) st)
         else
           (Ok,
            registrationData\<lparr>
              TotalStakeValue := TotalStakeValue registrationData - unStakeValue,
              TotalUnstaked := TotalUnstaked registrationData + unStakeValue,
              UnstakedInfo := UnstakedInfo registrationData
                 @ [\<lparr>UnstakedNonce = CurrentNonce v, UnstakedValue = unStakeValue\<rparr>]\<rparr>,
            st))"

definition unStake :: "validatorSC \<Rightarrow> ContractCallInput \<Rightarrow> SystemEI \<Rightarrow> ReturnCode \<times> SystemEI" where
  "unStake v args st =
     (if isUnStakeUnBondPaused v st then (UserError, AddReturnMessage pausedMessage st)
      else case basicChecksForUnStakeNodes v args st of
        (Inl returnCode, st1) \<Rightarrow> (returnCode, st1)
      | (Inr registrationData, st1) \<Rightarrow>
          (case unStakeNodesFromStakingSC v (Arguments args) registrationData st1 of
             (numSuccess, st2) \<Rightarrow>
               if \<not> flagEnableTopUp v then (Ok, st2)
               else
                 let validatorConfig = getConfig v (CurrentEpoch v);
                     unStakeFromNodes = NodePrice validatorConfig * uint numSuccess;
                     unStakeFromNodes =
                       (if unStakeFromNodes > TotalStakeValue registrationData
                        then TotalStakeValue registrationData else unStakeFromNodes)
                 in case processUnStakeValue v registrationData unStakeFromNodes st2 of
                      (returnCode, registrationData', st3) \<Rightarrow>
                        if returnCode \<noteq> Ok then (returnCode, st3)
                        else (case saveRegistrationData v (CallerAddr args) registrationData' st3 of
                                (Some err, st4) \<Rightarrow>
                                  (UserError, AddReturnMessage (''cannot save registration data: error '' @ err) st4)
                              | (None, st4) \<Rightarrow> (Ok, st4))))"

definition unStakeNodes :: "validatorSC \<Rightarrow> ContractCallInput \<Rightarrow> SystemEI \<Rightarrow> ReturnCode \<times> SystemEI" where
  "unStakeNodes v args st =
     (if \<not> flagEnableTopUp v then (UserError, AddReturnMessage ''invalid method to call'' st)
      else if isUnStakeUnBondPaused v st then (UserError, AddReturnMessage pausedMessage st)
      else case basicChecksForUnStakeNodes v args st of
        (Inl returnCode, st1) \<Rightarrow> (returnCode, st1)
      | (Inr registrationData, st1) \<Rightarrow>
          (case unStakeNodesFromStakingSC v (Arguments args) registrationData st1 of
             (numSuccess, st2) \<Rightarrow> (Ok, st2)))"

text \<open>In the source a \<open>nil\<close> \<open>TotalUnstaked\<close> of the loaded record is replaced by zero; an
  \<open>int\<close> is never \<open>nil\<close>, so that assignment has no counterpart here.\<close>

definition basicCheckForUnStakeUnBond ::
  "validatorSC \<Rightarrow> ContractCallInput \<Rightarrow> SystemEI \<Rightarrow> (ReturnCode + ValidatorDataV2) \<times> SystemEI" where
  "basicCheckForUnStakeUnBond v args st =
     (if \<not> flagEnableTopUp v then (Inl UserError, AddReturnMessage ''invalid method to call'' st)
      else if CallValue args \<noteq> 0 then (Inl UserError, AddReturnMessage TransactionValueMustBeZero st)
      else case getOrCreateRegistrationData v (CallerAddr args) st of
        Inl err \<Rightarrow> (Inl UserError, AddReturnMessage (''cannot get registration data: error '' @ err) st)
      | Inr registrationData \<Rightarrow>
          if length (RewardAddress registrationData) = 0 then
            (Inl UserError,
             AddReturnMessage ''key is not registered, validator operation is not possible'' st)
          else (Inr registrationData, st))"

definition unStakeTokens :: "validatorSC \<Rightarrow> ContractCallInput \<Rightarrow> SystemEI \<Rightarrow> ReturnCode \<times> SystemEI" where
  "unStakeTokens v args st =
     (case basicCheckForUnStakeUnBond v args st of
        (Inl returnCode, st1) \<Rightarrow> (returnCode, st1)
      | (Inr registrationData, st1) \<Rightarrow>
          if isUnStakeUnBondPaused v st1 then (UserError, AddReturnMessage pausedMessage st1)
          else (case UseGas (UnStakeTokens (gasCost v)) st1 of
             None \<Rightarrow> (OutOfGas, AddReturnMessage InsufficientGasLimit st1)
           | Some st2 \<Rightarrow>
               if length (Arguments args) \<noteq> 1 then
                 (UserError,
                  AddReturnMessage ''should have specified one argument containing the unstake value'' st2)
               else
                 let unStakeValue = SetBytes (Arguments args ! 0)
                 in case processUnStakeValue v registrationData unStakeValue st2 of
                      (returnCode, registrationData', st3) \<Rightarrow>
                        if returnCode \<noteq> Ok then (returnCode, st3)
                        else (case saveRegistrationData v (CallerAddr args) registrationData' st3 of
                                (Some err, st4) \<Rightarrow>
                                  (UserError, AddReturnMessage (''cannot save registration data: error '' @ err) st4)
                              | (None, st4) \<Rightarrow> (Ok, st4))))"

subsection \<open>unBond of nodes and tokens\<close>

definition checkUnBondArguments ::
  "validatorSC \<Rightarrow> ContractCallInput \<Rightarrow> SystemEI \<Rightarrow> (ReturnCode + ValidatorDataV2) \<times> SystemEI" where
  "checkUnBondArguments v args st =
     (if CallValue args \<noteq> 0 then (Inl UserError, AddReturnMessage TransactionValueMustBeZero st)
      else if length (Arguments args) = 0
        then (Inl UserError, AddReturnMessage ''invalid number of arguments: expected min 1, got 0'' st)
      else if \<not> flagEnableStaking v then (Inl UserError, AddReturnMessage UnBondNotEnabled st)
      else case getOrCreateRegistrationData v (CallerAddr args) st of
        Inl err \<Rightarrow> (Inl UserError, AddReturnMessage (CannotGetOrCreateRegistrationData @ err) st)
      | Inr registrationData \<Rightarrow>
          (case verifyBLSPublicKeys registrationData (Arguments args) of
             Some err \<Rightarrow>
               (Inl UserError, AddReturnMessage (CannotGetAllBlsKeysFromRegistrationData @ err) st)
           | None \<Rightarrow>
               (case UseGas (UnBond (gasCost v) * of_nat (length (Arguments args))) st of
                  None \<Rightarrow> (Inl OutOfGas, AddReturnMessage InsufficientGasLimit st)
                | Some st1 \<Rightarrow> (Inr registrationData, st1))))"

fun unBondNodesFromStakingSC_loop ::
  "validatorSC \<Rightarrow> bytes list \<Rightarrow> bytes list \<Rightarrow> SystemEI \<Rightarrow> bytes list \<times> SystemEI" where
  "unBondNodesFromStakingSC_loop v [] unBondedKeys st = (unBondedKeys, st)"
| "unBondNodesFromStakingSC_loop v (blsKey # blsKeys) unBondedKeys st =
     (case executeOnStakingSC v (SC_unBond blsKey) st of
        (Inl errExec, st1) \<Rightarrow>
          unBondNodesFromStakingSC_loop v blsKeys unBondedKeys
            (Finish failed (Finish blsKey (AddReturnMessage
               (''cannot do unBond for key: '' @ EncodeToString blsKey) st1)))
      | (Inr vmOutput, st1) \<Rightarrow>
          if ReturnCode vmOutput \<noteq> Ok then
            unBondNodesFromStakingSC_loop v blsKeys unBondedKeys
              (Finish failed (Finish blsKey (AddReturnMessage
                 (''cannot do unBond for key: '' @ EncodeToString blsKey) st1)))
          else unBondNodesFromStakingSC_loop v blsKeys (unBondedKeys @ [blsKey]) st1)"

definition unBondNodesFromStakingSC ::
  "validatorSC \<Rightarrow> bytes list \<Rightarrow> SystemEI \<Rightarrow> bytes list \<times> SystemEI" where
  "unBondNodesFromStakingSC v blsKeys st = unBondNodesFromStakingSC_loop v blsKeys [] st"

text \<open>The inner loop of \<open>deleteUnBondedKeys\<close>: the first registered key equal to the unbonded
  one is overwritten with the last key and the list loses its last element.\<close>

fun firstIndexOf :: "bytes \<Rightarrow> bytes list \<Rightarrow> nat \<Rightarrow> nat option" where
  "firstIndexOf unBonded [] i = None"
| "firstIndexOf unBonded (registeredKey # rest) i =
     (if unBonded = registeredKey then Some i else firstIndexOf unBonded rest (i + 1))"

definition deleteUnBondedKey :: "bytes \<Rightarrow> bytes list \<Rightarrow> bytes list" where
  "deleteUnBondedKey unBonded keys =
     (case firstIndexOf unBonded keys 0 of
        None \<Rightarrow> keys
      | Some i \<Rightarrow>
          let lastIndex = length keys - 1
          in take lastIndex (keys[i := keys ! lastIndex]))"

fun deleteUnBondedKeys :: "ValidatorDataV2 \<Rightarrow> bytes list \<Rightarrow> ValidatorDataV2" where
  "deleteUnBondedKeys registrationData [] = registrationData"
| "deleteUnBondedKeys registrationData (unBonded # unBondedKeys) =
     deleteUnBondedKeys
       (registrationData\<lparr>BlsPubKeys := deleteUnBondedKey unBonded (BlsPubKeys registrationData)\<rparr>)
       unBondedKeys"

definition unBondV1 :: "validatorSC \<Rightarrow> ContractCallInput \<Rightarrow> SystemEI \<Rightarrow> ReturnCode \<times> SystemEI" where
  "unBondV1 v args st =
     (case checkUnBondArguments v args st of
        (Inl returnCode, st1) \<Rightarrow> (returnCode, st1)
      | (Inr registrationData, st1) \<Rightarrow>
          (case unBondNodesFromStakingSC v (Arguments args) st1 of
             (unBondedKeys, st2) \<Rightarrow>
               let validatorConfig = getConfig v (CurrentEpoch v);
                   totalUnBond = NodePrice validatorConfig * int (length unBondedKeys)
               in if LockedStake registrationData < totalUnBond then
                    (UserError,
                     AddReturnMessage ''contract error on unBond function, lockedStake < totalUnBond'' st2)
                  else if NumRegistered registrationData < of_nat (length unBondedKeys) then
                    (UserError, AddReturnMessage ''contract error on unBond function, missing nodes'' st2)
                  else
                    let registrationData = registrationData\<lparr>
                          NumRegistered := NumRegistered registrationData - of_nat (length unBondedKeys),
                          LockedStake := LockedStake registrationData - totalUnBond,
                          TotalStakeValue := TotalStakeValue registrationData - totalUnBond\<rparr>
                    in if TotalStakeValue registrationData < 0 then
                         (UserError,
                          AddReturnMessage ''contract error on unBond function, total stake < 0'' st2)
                       else
                         (case (if LockedStake registrationData = 0 \<and> TotalStakeValue registrationData = 0
                                then (None, SetStorage (CallerAddr args) None st2)
                                else saveRegistrationData v (CallerAddr args)
                                       (deleteUnBondedKeys registrationData unBondedKeys) st2) of
                            (Some errSave, st3) \<Rightarrow>
                              (UserError,
                               AddReturnMessage (''cannot save registration data: error '' @ errSave) st3)
                          | (None, st3) \<Rightarrow>
                              (case Transfer (CallerAddr args) (RecipientAddr args) totalUnBond st3 of
                                 (Some err, st4) \<Rightarrow>
                                   (UserError, AddReturnMessage ''transfer error on unBond function'' st4)
                               | (None, st4) \<Rightarrow> (Ok, st4)))))"

text \<open>
  The loop of \<open>unBondTokensFromRegistrationData\<close> over \<open>UnstakedInfo\<close>: it returns
  \<open>totalUnBond\<close>, \<open>index\<close> and \<open>splitUnStakedInfo\<close> as they are when the loop is left. The
  subtraction of the nonces is the subtraction of \<open>uint64\<close>.
\<close>

fun unBondTokens_loop ::
  "validatorSC \<Rightarrow> bool \<Rightarrow> int \<Rightarrow> UnstakedValue list \<Rightarrow> int \<Rightarrow> nat \<Rightarrow> UnstakedValue
     \<Rightarrow> int \<times> nat \<times> UnstakedValue" where
  "unBondTokens_loop v stopAtUnBondValue valueToUnBond [] totalUnBond index splitUnStakedInfo =
     (totalUnBond, index, splitUnStakedInfo)"
| "unBondTokens_loop v stopAtUnBondValue valueToUnBond (unstakedValue # rest) totalUnBond index
       splitUnStakedInfo =
     (let canUnbond = (CurrentNonce v - UnstakedNonce unstakedValue \<ge> unBondPeriod v)
      in if \<not> canUnbond then (totalUnBond, index, splitUnStakedInfo)
         else
           let totalUnBond = totalUnBond + UnstakedValue unstakedValue;
               index = index + 1
           in if stopAtUnBondValue \<and> totalUnBond \<ge> valueToUnBond then
                (valueToUnBond, index,
                 \<lparr>UnstakedNonce = UnstakedNonce unstakedValue,
                  UnstakedValue = totalUnBond - valueToUnBond\<rparr>)
              else unBondTokens_loop v stopAtUnBondValue valueToUnBond rest totalUnBond index
                     splitUnStakedInfo)"

text \<open>The function returns \<open>Inl UserError\<close> for \<open>(nil, UserError)\<close> and \<open>Inr totalUnBond\<close> for
  \<open>(totalUnBond, Ok)\<close>, next to the record as the function leaves it. A positive split value
  is only set after \<open>index\<close> was incremented, so \<open>index - 1\<close> is never below zero.\<close>

definition unBondTokensFromRegistrationData ::
  "validatorSC \<Rightarrow> ValidatorDataV2 \<Rightarrow> int \<Rightarrow> SystemEI
     \<Rightarrow> (ReturnCode + int) \<times> ValidatorDataV2 \<times> SystemEI" where
  "unBondTokensFromRegistrationData v registrationData valueToUnBond st =
     (let stopAtUnBondValue = (valueToUnBond > 0)
      in case unBondTokens_loop v stopAtUnBondValue valueToUnBond (UnstakedInfo registrationData)
                0 0 \<lparr>UnstakedNonce = 0, UnstakedValue = 0\<rparr> of
           (totalUnBond, index, splitUnStakedInfo) \<Rightarrow>
             let (index, info) =
                   (if UnstakedValue splitUnStakedInfo > 0
                    then (index - 1, (UnstakedInfo registrationData)[index - 1 := splitUnStakedInfo])
                    else (index, UnstakedInfo registrationData));
                 registrationData = registrationData\<lparr>
                   UnstakedInfo := drop index info,
                   TotalUnstaked := TotalUnstaked registrationData - totalUnBond\<rparr>
             in if TotalUnstaked registrationData < 0 then
                  (Inl UserError, registrationData, AddReturnMessage ''too much requested to unBond'' st)
                else (Inr totalUnBond, registrationData, st))"

definition updateRegistrationDataAfterUnBond ::
  "validatorSC \<Rightarrow> ValidatorDataV2 \<Rightarrow> bytes list \<Rightarrow> bytes \<Rightarrow> SystemEI \<Rightarrow> ReturnCode \<times> SystemEI" where
  "updateRegistrationDataAfterUnBond v registrationData unBondedKeys callerAddr st =
     (if NumRegistered registrationData < of_nat (length unBondedKeys) then
        (UserError, AddReturnMessage ''contract error on unBond function, missing nodes'' st)
      else
        let validatorConfig = getConfig v (CurrentEpoch v);
            numRegistered = NumRegistered registrationData - of_nat (length unBondedKeys);
            registrationData = registrationData\<lparr>
              NumRegistered := numRegistered,
              LockedStake := NodePrice validatorConfig * uint numRegistered\<rparr>
        in if TotalStakeValue registrationData = 0 then (Ok, SetStorage callerAddr None st)
           else (case saveRegistrationData v callerAddr
                        (deleteUnBondedKeys registrationData unBondedKeys) st of
                   (Some errSave, st1) \<Rightarrow>
                     (UserError, AddReturnMessage (''cannot save registration data: error '' @ errSave) st1)
                 | (None, st1) \<Rightarrow> (Ok, st1)))"

definition unBond :: "validatorSC \<Rightarrow> ContractCallInput \<Rightarrow> SystemEI \<Rightarrow> ReturnCode \<times> SystemEI" where
  "unBond v args st =
     (if \<not> flagEnableTopUp v then unBondV1 v args st
      else if isUnStakeUnBondPaused v st then (UserError, AddReturnMessage pausedMessage st)
      else case checkUnBondArguments v args st of
        (Inl returnCode, st1) \<Rightarrow> (returnCode, st1)
      | (Inr registrationData, st1) \<Rightarrow>
          (case unBondNodesFromStakingSC v (Arguments args) st1 of
             (unBondedKeys, st2) \<Rightarrow>
               let validatorConfig = getConfig v (CurrentEpoch v);
                   totalUnBond = NodePrice validatorConfig * int (length unBondedKeys)
               in (case unBondTokensFromRegistrationData v registrationData totalUnBond st2 of
                    (Inl returnCode, registrationData', st3) \<Rightarrow> (returnCode, st3)
                  | (Inr totalUnBond, registrationData', st3) \<Rightarrow>
                      (case updateRegistrationDataAfterUnBond v registrationData' unBondedKeys
                              (CallerAddr args) st3 of
                         (returnCode, st4) \<Rightarrow>
                           if returnCode \<noteq> Ok then (returnCode, st4)
                           else (case Transfer (CallerAddr args) (RecipientAddr args) totalUnBond st4 of
                                   (Some err, st5) \<Rightarrow>
                                     (UserError, AddReturnMessage ''transfer error on unBond function'' st5)
                                 | (None, st5) \<Rightarrow> (Ok, st5))))))"

definition unBondNodes :: "validatorSC \<Rightarrow> ContractCallInput \<Rightarrow> SystemEI \<Rightarrow> ReturnCode \<times> SystemEI" where
  "unBondNodes v args st =
     (if \<not> flagEnableTopUp v then (UserError, AddReturnMessage ''invalid method to call'' st)
      else if isUnStakeUnBondPaused v st then (UserError, AddReturnMessage pausedMessage st)
      else case checkUnBondArguments v args st of
        (Inl returnCode, st1) \<Rightarrow> (returnCode, st1)
      | (Inr registrationData, st1) \<Rightarrow>
          (case unBondNodesFromStakingSC v (Arguments args) st1 of
             (unBondedKeys, st2) \<Rightarrow>
               (case updateRegistrationDataAfterUnBond v registrationData unBondedKeys
                       (CallerAddr args) st2 of
                  (returnCode, st3) \<Rightarrow>
                    if returnCode \<noteq> Ok then (returnCode, st3) else (Ok, st3))))"

definition unBondTokens :: "validatorSC \<Rightarrow> ContractCallInput \<Rightarrow> SystemEI \<Rightarrow> ReturnCode \<times> SystemEI" where
  "unBondTokens v args st =
     (case basicCheckForUnStakeUnBond v args st of
        (Inl returnCode, st1) \<Rightarrow> (returnCode, st1)
      | (Inr registrationData, st1) \<Rightarrow>
          if isUnStakeUnBondPaused v st1 then (UserError, AddReturnMessage pausedMessage st1)
          else (case UseGas (UnBondTokens (gasCost v)) st1 of
             None \<Rightarrow> (OutOfGas, AddReturnMessage InsufficientGasLimit st1)
           | Some st2 \<Rightarrow>
               if length (Arguments args) > 1 then (UserError, AddReturnMessage ''too many arguments'' st2)
               else if length (Arguments args) = 1 \<and> SetBytes (Arguments args ! 0) \<le> 0 then
                 (UserError, AddReturnMessage ''cannot unBond negative value or zero value'' st2)
               else
                 let valueToUnBond =
                       (if length (Arguments args) = 1 then SetBytes (Arguments args ! 0) else 0)
                 in (case unBondTokensFromRegistrationData v registrationData valueToUnBond st2 of
                      (Inl returnCode, registrationData', st3) \<Rightarrow> (returnCode, st3)
                    | (Inr totalUnBond, registrationData', st3) \<Rightarrow>
                        if totalUnBond = 0 then
                          (Ok, AddReturnMessage ''no tokens that can be unbond at this time'' st3)
                        else
                          (case Transfer (CallerAddr args) (RecipientAddr args) totalUnBond st3 of
                             (Some err, st4) \<Rightarrow>
                               (UserError, AddReturnMessage ''transfer error on unBond function'' st4)
                           | (None, st4) \<Rightarrow>
                               (case saveRegistrationData v (CallerAddr args) registrationData' st4 of
                                  (Some err, st5) \<Rightarrow>
                                    (UserError,
                                     AddReturnMessage (''cannot save registration data: error '' @ err) st5)
                                | (None, st5) \<Rightarrow> (Ok, st5))))))"

subsection \<open>claim\<close>

definition claim :: "validatorSC \<Rightarrow> ContractCallInput \<Rightarrow> SystemEI \<Rightarrow> ReturnCode \<times> SystemEI" where
  "claim v args st =
     (if flagEnableTopUp v then (UserError, AddReturnMessage ''claim function is disabled'' st)
      else if CallValue args \<noteq> 0 then (UserError, AddReturnMessage TransactionValueMustBeZero st)
      else case getOrCreateRegistrationData v (CallerAddr args) st of
        Inl err \<Rightarrow> (UserError, AddReturnMessage (''cannot get registration data: error '' @ err) st)
      | Inr registrationData \<Rightarrow>
          if length (RewardAddress registrationData) = 0 then
            (UserError, AddReturnMessage ''key is not registered, claim is not possible'' st)
          else (case UseGas (Claim (gasCost v)) st of
             None \<Rightarrow> (OutOfGas, AddReturnMessage InsufficientGasLimit st)
           | Some st1 \<Rightarrow>
               let claimable = TotalStakeValue registrationData - LockedStake registrationData
               in if claimable \<le> 0 then (Ok, st1)
                  else
                    let registrationData =
                          registrationData\<lparr>TotalStakeValue := LockedStake registrationData\<rparr>
                    in (case saveRegistrationData v (CallerAddr args) registrationData st1 of
                         (Some err, st2) \<Rightarrow>
                           (UserError, AddReturnMessage (''cannot save registration data: error '' @ err) st2)
                       | (None, st2) \<Rightarrow>
                           (case Transfer (CallerAddr args) (RecipientAddr args) claimable st2 of
                              (Some err, st3) \<Rightarrow>
                                (UserError,
                                 AddReturnMessage
                                   (''transfer error on finalizeUnStake function: error '' @ err) st3)
                            | (None, st3) \<Rightarrow> (Ok, st3)))))"

subsection \<open>unJail\<close>

definition addToUnJailFunds :: "validatorSC \<Rightarrow> int \<Rightarrow> SystemEI \<Rightarrow> SystemEI" where
  "addToUnJailFunds v val st =
     (let storageData = storageBytes v (GetStorage unJailedFunds st);
          currentValue = (if length storageData > 0 then SetBytes storageData else 0);
          currentValue = currentValue + val
      in SetStorage unJailedFunds (Some (RawBytes (Bytes currentValue))) st)"

fun unJailV1_loop :: "validatorSC \<Rightarrow> bytes list \<Rightarrow> SystemEI \<Rightarrow> SystemEI" where
  "unJailV1_loop v [] st = st"
| "unJailV1_loop v (blsKey # blsKeys) st =
     (case executeOnStakingSC v (SC_unJail blsKey) st of
        (Inl errExec, st1) \<Rightarrow>
          unJailV1_loop v blsKeys (Finish failed (Finish blsKey (AddReturnMessage errExec st1)))
      | (Inr vmOutput, st1) \<Rightarrow>
          if ReturnCode vmOutput \<noteq> Ok
          then unJailV1_loop v blsKeys (Finish failed (Finish blsKey st1))
          else unJailV1_loop v blsKeys st1)"

definition unJailV1 :: "validatorSC \<Rightarrow> ContractCallInput \<Rightarrow> SystemEI \<Rightarrow> ReturnCode \<times> SystemEI" where
  "unJailV1 v args st =
     (if length (Arguments args) = 0 then
        (UserError, AddReturnMessage ''invalid number of arguments: expected min 1, got 0'' st)
      else
        let validatorConfig = getConfig v (CurrentEpoch v);
            totalUnJailPrice = UnJailPrice validatorConfig * int (length (Arguments args))
        in if totalUnJailPrice \<noteq> CallValue args then
             (UserError, AddReturnMessage ''insufficient funds sent for unJail'' st)
           else (case UseGas (UnJail (gasCost v) * of_nat (length (Arguments args))) st of
              None \<Rightarrow> (OutOfGas, AddReturnMessage ''insufficient gas limit'' st)
            | Some st1 \<Rightarrow>
                (case getOrCreateRegistrationData v (CallerAddr args) st1 of
                   Inl err \<Rightarrow>
                     (UserError,
                      AddReturnMessage (''cannot get or create registration data: error '' @ err) st1)
                 | Inr registrationData \<Rightarrow>
                     (case verifyBLSPublicKeys registrationData (Arguments args) of
                        Some err \<Rightarrow>
                          (UserError,
                           AddReturnMessage
                             (''could not get all blsKeys from registration data: error ''
                                @ ''bls public key mismatch'') st1)
                      | None \<Rightarrow> (Ok, unJailV1_loop v (Arguments args) st1)))))"

fun unJail_loop :: "validatorSC \<Rightarrow> ValidatorConfig \<Rightarrow> bytes list \<Rightarrow> int \<Rightarrow> SystemEI \<Rightarrow> int \<times> SystemEI" where
  "unJail_loop v validatorConfig [] transferBack st = (transferBack, st)"
| "unJail_loop v validatorConfig (blsKey # blsKeys) transferBack st =
     (case executeOnStakingSC v (SC_unJail blsKey) st of
        (Inl errExec, st1) \<Rightarrow>
          unJail_loop v validatorConfig blsKeys (transferBack + UnJailPrice validatorConfig)
            (Finish failed (Finish blsKey st1))
      | (Inr vmOutput, st1) \<Rightarrow>
          if ReturnCode vmOutput \<noteq> Ok then
            unJail_loop v validatorConfig blsKeys (transferBack + UnJailPrice validatorConfig)
              (Finish failed (Finish blsKey st1))
          else unJail_loop v validatorConfig blsKeys transferBack st1)"

definition unJail :: "validatorSC \<Rightarrow> ContractCallInput \<Rightarrow> SystemEI \<Rightarrow> ReturnCode \<times> SystemEI" where
  "unJail v args st =
     (if \<not> flagEnableStaking v then unJailV1 v args st
      else if length (Arguments args) = 0 then
        (UserError, AddReturnMessage ''invalid number of arguments: expected at least 1'' st)
      else
        let numBLSKeys = length (Arguments args);
            validatorConfig = getConfig v (CurrentEpoch v);
            totalUnJailPrice = UnJailPrice validatorConfig * int numBLSKeys
        in if totalUnJailPrice \<noteq> CallValue args then
             (UserError, AddReturnMessage ''wanted exact unjail price * numNodes'' st)
           else (case UseGas (UnJail (gasCost v) * of_nat numBLSKeys) st of
              None \<Rightarrow> (OutOfGas, AddReturnMessage InsufficientGasLimit st)
            | Some st1 \<Rightarrow>
                (case getOrCreateRegistrationData v (CallerAddr args) st1 of
                   Inl err \<Rightarrow>
                     (UserError, AddReturnMessage (CannotGetOrCreateRegistrationData @ err) st1)
                 | Inr registrationData \<Rightarrow>
                     (case verifyBLSPublicKeys registrationData (Arguments args) of
                        Some err \<Rightarrow>
                          (UserError,
                           AddReturnMessage (CannotGetAllBlsKeysFromRegistrationData @ err) st1)
                      | None \<Rightarrow>
                          (case unJail_loop v validatorConfig (Arguments args) 0 st1 of
                             (transferBack, st2) \<Rightarrow>
                               (case (if transferBack > 0
                                      then Transfer (CallerAddr args) (RecipientAddr args) transferBack st2
                                      else (None, st2)) of
                                  (Some err, st3) \<Rightarrow>
                                    (UserError, AddReturnMessage ''transfer error on unJail function'' st3)
                                | (None, st3) \<Rightarrow>
                                    let finalUnJailFunds = CallValue args - transferBack
                                    in (Ok, addToUnJailFunds v finalUnJailFunds st3)))))))"

subsection \<open>Administration and views\<close>

definition changeRewardAddress ::
  "validatorSC \<Rightarrow> ContractCallInput \<Rightarrow> SystemEI \<Rightarrow> ReturnCode \<times> SystemEI" where
  "changeRewardAddress v args st =
     (if CallValue args \<noteq> 0 then (UserError, AddReturnMessage TransactionValueMustBeZero st)
      else if length (Arguments args) < 1 then
        (UserError, AddReturnMessage ''invalid number of arguments: expected min 1, got 0'' st)
      else if length (Arguments args ! 0) \<noteq> walletAddressLen v then
        (UserError, AddReturnMessage ''wrong reward address'' st)
      else case getOrCreateRegistrationData v (CallerAddr args) st of
        Inl err \<Rightarrow> (UserError, AddReturnMessage (CannotGetOrCreateRegistrationData @ err) st)
      | Inr registrationData \<Rightarrow>
          if length (RewardAddress registrationData) = 0 then
            (UserError, AddReturnMessage ''cannot change reward address, key is not registered'' st)
          else if RewardAddress registrationData = Arguments args ! 0 then
            (UserError,
             AddReturnMessage ''new reward address is equal with the old reward address'' st)
          else (case UseGas (ChangeRewardAddress (gasCost v)
                               * of_nat (length (BlsPubKeys registrationData))) st of
             None \<Rightarrow> (OutOfGas, AddReturnMessage InsufficientGasLimit st)
           | Some st1 \<Rightarrow>
               let registrationData = registrationData\<lparr>RewardAddress := Arguments args ! 0\<rparr>
               in (case saveRegistrationData v (CallerAddr args) registrationData st1 of
                     (Some err, st2) \<Rightarrow>
                       (UserError, AddReturnMessage (''cannot save registration data: error '' @ err) st2)
                   | (None, st2) \<Rightarrow>
                       (case executeOnStakingSC v
                               (SC_changeRewardAddress (RewardAddress registrationData)
                                  (BlsPubKeys registrationData)) st2 of
                          (Inl err, st3) \<Rightarrow>
                            (UserError,
                             AddReturnMessage (''cannot change reward address: error '' @ err) st3)
                        | (Inr vmOutput, st3) \<Rightarrow>
                            if ReturnCode vmOutput \<noteq> Ok then (ReturnCode vmOutput, st3)
                            else (Ok, st3)))))"

definition get :: "validatorSC \<Rightarrow> ContractCallInput \<Rightarrow> SystemEI \<Rightarrow> ReturnCode \<times> SystemEI" where
  "get v args st =
     (if CallValue args \<noteq> 0 then (UserError, AddReturnMessage TransactionValueMustBeZero st)
      else if length (Arguments args) \<noteq> 1 then
        (UserError, AddReturnMessage ''invalid number of arguments: expected exactly 1, got 0'' st)
      else (case UseGas (Get (gasCost v)) st of
         None \<Rightarrow> (OutOfGas, AddReturnMessage InsufficientGasLimit st)
       | Some st1 \<Rightarrow>
           let val = storageBytes v (GetStorage (Arguments args ! 0) st1)
           in (Ok, Finish val st1)))"

definition init :: "validatorSC \<Rightarrow> ContractCallInput \<Rightarrow> SystemEI \<Rightarrow> ReturnCode \<times> SystemEI" where
  "init v args st =
     (let ownerAddress = GetStorage ownerKey st
      in if ownerAddress \<noteq> None then
           (UserError, AddReturnMessage ''smart contract was already initialized'' st)
         else (Ok, SetStorage ownerKey (Some (RawBytes (CallerAddr args))) st))"

definition getTotalStaked :: "validatorSC \<Rightarrow> ContractCallInput \<Rightarrow> SystemEI \<Rightarrow> ReturnCode \<times> SystemEI" where
  "getTotalStaked v args st =
     (if CallValue args \<noteq> 0 then (UserError, AddReturnMessage TransactionValueMustBeZero st)
      else (case UseGas (Get (gasCost v)) st of
         None \<Rightarrow> (OutOfGas, AddReturnMessage InsufficientGasLimit st)
       | Some st1 \<Rightarrow>
           (case getOrCreateRegistrationData v (CallerAddr args) st1 of
              Inl err \<Rightarrow> (UserError, AddReturnMessage (CannotGetOrCreateRegistrationData @ err) st1)
            | Inr registrationData \<Rightarrow>
                if length (RewardAddress registrationData) = 0 then
                  (UserError, AddReturnMessage ''caller not registered in staking/validator sc'' st1)
                else (Ok, Finish (String (TotalStakeValue registrationData)) st1))))"

definition getTotalStakedTopUpBlsKeys ::
  "validatorSC \<Rightarrow> ContractCallInput \<Rightarrow> SystemEI \<Rightarrow> ReturnCode \<times> SystemEI" where
  "getTotalStakedTopUpBlsKeys v args st =
     (if \<not> flagEnableTopUp v then (UserError, AddReturnMessage ''invalid method to call'' st)
      else if CallValue args \<noteq> 0 then (UserError, AddReturnMessage TransactionValueMustBeZero st)
      else (case UseGas (Get (gasCost v)) st of
         None \<Rightarrow> (OutOfGas, AddReturnMessage InsufficientGasLimit st)
       | Some st1 \<Rightarrow>
           (case getOrCreateRegistrationData v (CallerAddr args) st1 of
              Inl err \<Rightarrow> (UserError, AddReturnMessage (CannotGetOrCreateRegistrationData @ err) st1)
            | Inr registrationData \<Rightarrow>
                if length (RewardAddress registrationData) = 0 then
                  (UserError, AddReturnMessage ''caller not registered in staking/validator sc'' st1)
                else
                  let validatorConfig = getConfig v (CurrentEpoch v);
                      stakeForNodes = NodePrice validatorConfig * uint (NumRegistered registrationData);
                      topUp = TotalStakeValue registrationData - stakeForNodes
                  in if TotalStakeValue registrationData < 0 then
                       (UserError,
                        AddReturnMessage
                          ''contract error on getTopUp function, total stake < locked stake value'' st1)
                     else
                       (Ok,
                        foldl (\<lambda>s blsKey. Finish blsKey s)
                          (Finish (String (TotalStakeValue registrationData))
                             (Finish (String topUp) st1))
                          (BlsPubKeys registrationData)))))"

fun getBlsKeysStatus_loop :: "validatorSC \<Rightarrow> bytes list \<Rightarrow> SystemEI \<Rightarrow> SystemEI" where
  "getBlsKeysStatus_loop v [] st = st"
| "getBlsKeysStatus_loop v (blsKey # blsKeys) st =
     (case executeOnStakingSC v (SC_getBLSKeyStatus blsKey) st of
        (Inl errExec, st1) \<Rightarrow>
          getBlsKeysStatus_loop v blsKeys
            (AddReturnMessage (''cannot get bls key status: bls key - '' @ EncodeToString blsKey
                                 @ '' error - '' @ errExec) st1)
      | (Inr vmOutput, st1) \<Rightarrow>
          if ReturnCode vmOutput \<noteq> Ok then
            getBlsKeysStatus_loop v blsKeys
              (AddReturnMessage
                 (''error in getting bls key status: bls key - '' @ EncodeToString blsKey) st1)
          else if length (ReturnData vmOutput) \<noteq> 1 then
            getBlsKeysStatus_loop v blsKeys
              (AddReturnMessage
                 (''cannot get bls key status for key '' @ EncodeToString blsKey) st1)
          else getBlsKeysStatus_loop v blsKeys
                 (Finish (ReturnData vmOutput ! 0) (Finish blsKey st1)))"

definition getBlsKeysStatus :: "validatorSC \<Rightarrow> ContractCallInput \<Rightarrow> SystemEI \<Rightarrow> ReturnCode \<times> SystemEI" where
  "getBlsKeysStatus v args st =
     (if CallerAddr args \<noteq> validatorSCAddress v then
        (UserError, AddReturnMessage ''this is only a view function'' st)
      else if length (Arguments args) \<noteq> 1 then
        (UserError, AddReturnMessage ''number of arguments must be equal to 1'' st)
      else case getOrCreateRegistrationData v (Arguments args ! 0) st of
        Inl err \<Rightarrow>
          (UserError, AddReturnMessage (''cannot get or create registration data: error '' @ err) st)
      | Inr registrationData \<Rightarrow>
          if length (BlsPubKeys registrationData) = 0 then (Ok, AddReturnMessage ''no bls keys'' st)
          else (Ok, getBlsKeysStatus_loop v (BlsPubKeys registrationData) st))"

definition setOwnerOfBlsKey :: "validatorSC \<Rightarrow> bytes \<Rightarrow> bytes \<Rightarrow> SystemEI \<Rightarrow> bool \<times> SystemEI" where
  "setOwnerOfBlsKey v blsKey ownerAddress st =
     (case executeOnStakingSC v (SC_setOwner blsKey ownerAddress) st of
        (Inl err, st1) \<Rightarrow>
          (False,
           Finish failed (Finish blsKey (AddReturnMessage
             (''cannot set owner for key '' @ EncodeToString blsKey @ '', error '' @ err) st1)))
      | (Inr vmOutput, st1) \<Rightarrow>
          if ReturnCode vmOutput \<noteq> Ok then
            (False,
             Finish failed (Finish blsKey (AddReturnMessage
               (''cannot set owner for key '' @ EncodeToString blsKey @ '', error ''
                  @ ReturnCodeString (ReturnCode vmOutput)) st1)))
          else (True, st1))"

fun updateStakingV2_loop :: "validatorSC \<Rightarrow> bytes \<Rightarrow> bytes list \<Rightarrow> SystemEI \<Rightarrow> ReturnCode \<times> SystemEI" where
  "updateStakingV2_loop v ownerAddress [] st = (Ok, st)"
| "updateStakingV2_loop v ownerAddress (blsKey # blsKeys) st =
     (case setOwnerOfBlsKey v blsKey ownerAddress st of
        (okSet, st1) \<Rightarrow>
          if \<not> okSet then (UserError, st1) else updateStakingV2_loop v ownerAddress blsKeys st1)"

definition updateStakingV2 :: "validatorSC \<Rightarrow> ContractCallInput \<Rightarrow> SystemEI \<Rightarrow> ReturnCode \<times> SystemEI" where
  "updateStakingV2 v args st =
     (if \<not> flagEnableTopUp v then (UserError, AddReturnMessage ''invalid method to call'' st)
      else if CallerAddr args \<noteq> validatorSCAddress v then
        (UserError, AddReturnMessage ''this is a function that has to be called internally'' st)
      else if length (Arguments args) \<noteq> 1 then
        (UserError,
         AddReturnMessage ''should have provided only one argument: the owner address'' st)
      else if length (Arguments args ! 0) \<noteq> walletAddressLen v then
        (UserError, AddReturnMessage ''wrong owner address'' st)
      else if CallValue args \<noteq> 0 then (UserError, AddReturnMessage TransactionValueMustBeZero st)
      else case getOrCreateRegistrationData v (Arguments args ! 0) st of
        Inl err \<Rightarrow> (UserError, AddReturnMessage (''cannot get registration data: error '' @ err) st)
      | Inr registrationData \<Rightarrow>
          if length (RewardAddress registrationData) = 0 then
            (UserError,
             AddReturnMessage ''key is not registered, updateStakingV2 is not possible'' st)
          else updateStakingV2_loop v (Arguments args ! 0) (BlsPubKeys registrationData) st)"

text \<open>The loop of \<open>cleanRegisteredData\<close>: \<open>mapExistingKeys\<close> is the set of keys seen so far.\<close>

fun cleanRegisteredData_loop ::
  "bytes list \<Rightarrow> bytes set \<Rightarrow> bytes list \<Rightarrow> bool \<Rightarrow> bytes list \<times> bool" where
  "cleanRegisteredData_loop [] mapExistingKeys newList changesMade = (newList, changesMade)"
| "cleanRegisteredData_loop (blsKey # blsKeys) mapExistingKeys newList changesMade =
     (if blsKey \<in> mapExistingKeys
      then cleanRegisteredData_loop blsKeys mapExistingKeys newList True
      else cleanRegisteredData_loop blsKeys (insert blsKey mapExistingKeys) (newList @ [blsKey])
             changesMade)"

definition cleanRegisteredData ::
  "validatorSC \<Rightarrow> ContractCallInput \<Rightarrow> SystemEI \<Rightarrow> ReturnCode \<times> SystemEI" where
  "cleanRegisteredData v args st =
     (if \<not> flagDoubleKey v then (UserError, AddReturnMessage ''invalid method to call'' st)
      else (case UseGas (Stake (gasCost v)) st of
         None \<Rightarrow> (OutOfGas, AddReturnMessage InsufficientGasLimit st)
       | Some st1 \<Rightarrow>
           if CallValue args \<noteq> 0 then (UserError, AddReturnMessage ''must be called with 0 value'' st1)
           else if length (Arguments args) \<noteq> 0 then
             (UserError, AddReturnMessage ''must be called with 0 arguments'' st1)
           else (case getOrCreateRegistrationData v (CallerAddr args) st1 of
              Inl err \<Rightarrow> (UserError, AddReturnMessage (CannotGetOrCreateRegistrationData @ err) st1)
            | Inr registrationData \<Rightarrow>
                if length (BlsPubKeys registrationData) \<le> 1 then (Ok, st1)
                else (case cleanRegisteredData_loop (BlsPubKeys registrationData) {} [] False of
                   (newList, changesMade) \<Rightarrow>
                     if \<not> changesMade then (Ok, st1)
                     else
                       let registrationData = registrationData\<lparr>BlsPubKeys := newList\<rparr>
                       in (case saveRegistrationData v (CallerAddr args) registrationData st1 of
                             (Some err, st2) \<Rightarrow>
                               (UserError,
                                AddReturnMessage (''cannot save registration data: error '' @ err) st2)
                           | (None, st2) \<Rightarrow> (Ok, st2))))))"

text \<open>\<open>EpochConfirmed\<close> sets the three feature flags from the confirmed epoch.\<close>

definition EpochConfirmed :: "validatorSC \<Rightarrow> 32 word \<Rightarrow> validatorSC" where
  "EpochConfirmed v epoch =
     v\<lparr>flagEnableStaking := (epoch \<ge> enableStakingEpoch v),
       flagEnableTopUp := (epoch \<ge> stakingV2Epoch v),
       flagDoubleKey := (epoch \<ge> enableDoubleKeyEpoch v)\<rparr>"

subsection \<open>stake\<close>

text \<open>Modelled from the spec: \<open>isNumArgsCorrectToStake\<close> (outside the source file) requires at
  least \<open>1 + 2 * maxNodesToRun\<close> arguments.\<close>

definition isNumArgsCorrectToStake :: "bytes list \<Rightarrow> bool" where
  "isNumArgsCorrectToStake args =
     (let maxNodesToRun = Uint64 (SetBytes (args ! 0))
      in length args \<ge> 1 + 2 * unat maxNodesToRun)"

text \<open>\<open>big.Int.Div\<close> is Euclidean division; division by zero panics and is guarded where the
  function is used.\<close>

definition Div :: "int \<Rightarrow> int \<Rightarrow> int" where
  "Div x y = (if y < 0 then - (x div (- y)) else x div y)"

definition ErrKeyAlreadyRegistered :: string where
  "ErrKeyAlreadyRegistered = ''bls key already registered''"
definition ErrNotEnoughArgumentsToStake :: string where
  "ErrNotEnoughArgumentsToStake = ''not enough arguments to stake''"

definition getBLSRegisteredData ::
  "validatorSC \<Rightarrow> bytes \<Rightarrow> SystemEI \<Rightarrow> (string + VMOutput) \<times> SystemEI" where
  "getBLSRegisteredData v blsKey st = executeOnStakingSC v (SC_get blsKey) st"

text \<open>Modelled from the spec: \<open>getStakedData\<close> (outside the source file) fetches the status of
  a key from the Staking Registry with \<open>get@bls\<close> and decodes the first return datum; a key
  the registry has no data for is neither staked nor waiting.\<close>

definition getStakedData ::
  "validatorSC \<Rightarrow> bytes \<Rightarrow> SystemEI \<Rightarrow> (string + StakedDataV2_0) \<times> SystemEI" where
  "getStakedData v key st =
     (case getBLSRegisteredData v key st of
        (Inl err, st1) \<Rightarrow> (Inl err, st1)
      | (Inr vmOutput, st1) \<Rightarrow>
          if length (ReturnData vmOutput) > 0 \<and> length (ReturnData vmOutput ! 0) > 0 then
            (case unmarshalStakedData v (ReturnData vmOutput ! 0) of
               None \<Rightarrow> (Inl ''unmarshal error'', st1)
             | Some stakedData \<Rightarrow> (Inr stakedData, st1))
          else (Inr \<lparr>Staked = False, Waiting = False, UnStakedNonce = 0\<rparr>, st1))"

fun getNewValidKeys_loop :: "validatorSC \<Rightarrow> bytes list \<Rightarrow> SystemEI \<Rightarrow> string option \<times> SystemEI" where
  "getNewValidKeys_loop v [] st = (None, st)"
| "getNewValidKeys_loop v (newKey # newKeys) st =
     (case getBLSRegisteredData v newKey st of
        (Inl err, st1) \<Rightarrow> (Some ErrKeyAlreadyRegistered, st1)
      | (Inr vmOutput, st1) \<Rightarrow>
          if length (ReturnData vmOutput) > 0 \<and> length (ReturnData vmOutput ! 0) > 0
          then (Some ErrKeyAlreadyRegistered, st1)
          else getNewValidKeys_loop v newKeys st1)"

text \<open>The first two loops of \<open>getNewValidKeys\<close> keep, in order, the argument keys that are not
  in the map built from the registered keys.\<close>

definition getNewValidKeys ::
  "validatorSC \<Rightarrow> bytes list \<Rightarrow> bytes list \<Rightarrow> SystemEI \<Rightarrow> (string + bytes list) \<times> SystemEI" where
  "getNewValidKeys v registeredKeys keysFromArgument st =
     (let registeredKeysMap = set registeredKeys;
          newKeys = filter (\<lambda>blsKey. blsKey \<notin> registeredKeysMap) keysFromArgument
      in case getNewValidKeys_loop v newKeys st of
           (Some err, st1) \<Rightarrow> (Inl err, st1)
         | (None, st1) \<Rightarrow> (Inr newKeys, st1))"

text \<open>\<open>strings.Join\<close> with a separator.\<close>

fun Join :: "string list \<Rightarrow> string \<Rightarrow> string" where
  "Join [] sep = []"
| "Join [x] sep = x"
| "Join (x # y # xs) sep = x @ sep @ Join (y # xs) sep"

text \<open>
  The loop of \<open>getVerifiedBLSKeysFromArgs\<close>, with \<open>i\<close> running from 1 in steps of 2 below
  \<open>bound = maxNodesToRun * 2 + 1\<close> (computed in \<open>uint64\<close>). Reading \<open>args[i + 1]\<close> beyond the
  arguments panics in Go: the result is \<open>None\<close>.
\<close>

function getVerifiedBLSKeysFromArgs_loop ::
  "validatorSC \<Rightarrow> bytes \<Rightarrow> bytes list \<Rightarrow> nat \<Rightarrow> nat \<Rightarrow> bytes list \<Rightarrow> string list \<Rightarrow> SystemEI
     \<Rightarrow> (bytes list \<times> string list \<times> SystemEI) option" where
  "getVerifiedBLSKeysFromArgs_loop v txPubKey args bound i blsKeys invalidBlsKeys st =
     (if i < bound then
        (if i + 1 < length args then
           let blsKey = args ! i;
               signedMessage = args ! (i + 1)
           in if \<not> sigVerifier v txPubKey signedMessage blsKey then
                getVerifiedBLSKeysFromArgs_loop v txPubKey args bound (i + 2) blsKeys
                  (invalidBlsKeys @ [EncodeToString blsKey])
                  (Finish invalidKey (Finish blsKey st))
              else getVerifiedBLSKeysFromArgs_loop v txPubKey args bound (i + 2)
                     (blsKeys @ [blsKey]) invalidBlsKeys st
         else None)
      else Some (blsKeys, invalidBlsKeys, st))"
  by pat_completeness auto
termination
  by (relation "measure (\<lambda>(v, txPubKey, args, bound, i, blsKeys, invalidBlsKeys, st). bound - i)") auto

declare getVerifiedBLSKeysFromArgs_loop.simps [simp del]

definition getVerifiedBLSKeysFromArgs ::
  "validatorSC \<Rightarrow> bytes \<Rightarrow> bytes list \<Rightarrow> SystemEI \<Rightarrow> (bytes list \<times> SystemEI) option" where
  "getVerifiedBLSKeysFromArgs v txPubKey args st =
     (let maxNodesToRun = Uint64 (SetBytes (args ! 0))
      in case getVerifiedBLSKeysFromArgs_loop v txPubKey args (unat (maxNodesToRun * 2 + 1)) 1 [] [] st of
           None \<Rightarrow> None
         | Some (blsKeys, invalidBlsKeys, st1) \<Rightarrow>
             if length invalidBlsKeys \<noteq> 0
             then Some (blsKeys, AddReturnMessage (''invalid BLS keys: '' @ Join invalidBlsKeys '', '') st1)
             else Some (blsKeys, st1))"

text \<open>
  How the registration loop of \<open>registerBLSKeys\<close> is left: it runs to its end, or returns
  \<open>(nil, err)\<close> with the outer \<open>err\<close>, which is \<open>nil\<close> there, when the sub-call itself errs, or
  returns \<open>(nil, ErrKeyAlreadyRegistered)\<close> when the registry answers with another code
  than \<open>Ok\<close>.
\<close>

datatype registerExit = Completed | ReturnedNilNil | ReturnedErr string

fun registerBLSKeys_loop ::
  "validatorSC \<Rightarrow> bytes \<Rightarrow> bytes list \<Rightarrow> ValidatorDataV2 \<Rightarrow> SystemEI
     \<Rightarrow> registerExit \<times> ValidatorDataV2 \<times> SystemEI" where
  "registerBLSKeys_loop v ownerAddress [] registrationData st = (Completed, registrationData, st)"
| "registerBLSKeys_loop v ownerAddress (blsKey # newKeys) registrationData st =
     (case executeOnStakingSC v
             (SC_register blsKey (RewardAddress registrationData) ownerAddress) st of
        (Inl errExec, st1) \<Rightarrow>
          (ReturnedNilNil, registrationData,
           Finish failed (Finish blsKey (AddReturnMessage (''cannot do register: '' @ errExec) st1)))
      | (Inr vmOutput, st1) \<Rightarrow>
          if ReturnCode vmOutput \<noteq> Ok then
            (ReturnedErr ErrKeyAlreadyRegistered, registrationData,
             Finish failed (Finish blsKey (AddReturnMessage
               (''cannot do register: '' @ ReturnCodeString (ReturnCode vmOutput)) st1)))
          else registerBLSKeys_loop v ownerAddress newKeys
                 (registrationData\<lparr>BlsPubKeys := BlsPubKeys registrationData @ [blsKey]\<rparr>) st1)"

text \<open>The result is \<open>None\<close> when the function panics, \<open>Inl err\<close> for \<open>(nil, err)\<close> and
  \<open>Inr blsKeys\<close> for \<open>(blsKeys, nil)\<close>; \<open>(nil, nil)\<close> is \<open>Inr []\<close>.\<close>

definition registerBLSKeys ::
  "validatorSC \<Rightarrow> ValidatorDataV2 \<Rightarrow> bytes \<Rightarrow> bytes \<Rightarrow> bytes list \<Rightarrow> SystemEI
     \<Rightarrow> ((string + bytes list) \<times> ValidatorDataV2 \<times> SystemEI) option" where
  "registerBLSKeys v registrationData pubKey ownerAddress args st =
     (let maxNodesToRun = Uint64 (SetBytes (args ! 0))
      in if of_nat (length args) < maxNodesToRun + 1 then
           Some (Inl ErrNotEnoughArgumentsToStake, registrationData,
                 AddReturnMessage
                   (''not enough arguments to process stake function: expected min ''
                      @ natString (unat (maxNodesToRun + 1)) @ '', got ''
                      @ natString (length args)) st)
         else (case getVerifiedBLSKeysFromArgs v pubKey args st of
            None \<Rightarrow> None
          | Some (blsKeys, st1) \<Rightarrow>
              (case getNewValidKeys v (BlsPubKeys registrationData) blsKeys st1 of
                 (Inl err, st2) \<Rightarrow> Some (Inl err, registrationData, st2)
               | (Inr newKeys, st2) \<Rightarrow>
                   (case registerBLSKeys_loop v ownerAddress newKeys registrationData st2 of
                      (ReturnedNilNil, registrationData', st3) \<Rightarrow> Some (Inr [], registrationData', st3)
                    | (ReturnedErr err, registrationData', st3) \<Rightarrow>
                        Some (Inl err, registrationData', st3)
                    | (Completed, registrationData', st3) \<Rightarrow>
                        Some (Inr blsKeys, registrationData', st3)))))"

definition updateStakeValue ::
  "validatorSC \<Rightarrow> ValidatorDataV2 \<Rightarrow> bytes \<Rightarrow> SystemEI \<Rightarrow> ReturnCode \<times> SystemEI" where
  "updateStakeValue v registrationData caller st =
     (if length (BlsPubKeys registrationData) = 0 \<and> \<not> IsSmartContractAddress v caller then
        (UserError, AddReturnMessage ''no bls keys has been provided'' st)
      else
        let registrationData =
              (if length (RewardAddress registrationData) = 0
               then registrationData\<lparr>RewardAddress := caller\<rparr> else registrationData)
        in (case saveRegistrationData v caller registrationData st of
              (Some err, st1) \<Rightarrow>
                (UserError, AddReturnMessage (''cannot save registration data error '' @ err) st1)
            | (None, st1) \<Rightarrow> (Ok, st1)))"

fun checkDoubleBLSKeys_loop :: "bytes list \<Rightarrow> bytes set \<Rightarrow> bool" where
  "checkDoubleBLSKeys_loop [] mapKeys = False"
| "checkDoubleBLSKeys_loop (blsKey # blsKeys) mapKeys =
     (if blsKey \<in> mapKeys then True else checkDoubleBLSKeys_loop blsKeys (insert blsKey mapKeys))"

definition checkDoubleBLSKeys :: "bytes list \<Rightarrow> bool" where
  "checkDoubleBLSKeys blsKeys = checkDoubleBLSKeys_loop blsKeys {}"

fun activateStakingFor_loop ::
  "validatorSC \<Rightarrow> 64 word \<Rightarrow> bytes \<Rightarrow> bytes \<Rightarrow> bytes list \<Rightarrow> 64 word \<Rightarrow> SystemEI
     \<Rightarrow> 64 word \<times> SystemEI" where
  "activateStakingFor_loop v numQualified rewardAddress ownerAddress [] numRegistered st =
     (numRegistered, st)"
| "activateStakingFor_loop v numQualified rewardAddress ownerAddress (currentBLSKey # blsKeys)
       numRegistered st =
     (if \<not> numRegistered < numQualified then (numRegistered, st)
      else case getStakedData v currentBLSKey st of
        (Inl err, st1) \<Rightarrow>
          activateStakingFor_loop v numQualified rewardAddress ownerAddress blsKeys numRegistered st1
      | (Inr stakedData, st1) \<Rightarrow>
          if Staked stakedData \<or> Waiting stakedData then
            activateStakingFor_loop v numQualified rewardAddress ownerAddress blsKeys numRegistered st1
          else
            (case executeOnStakingSC v (SC_stake currentBLSKey rewardAddress ownerAddress) st1 of
               (Inl err, st2) \<Rightarrow>
                 activateStakingFor_loop v numQualified rewardAddress ownerAddress blsKeys numRegistered
                   (Finish failed (Finish currentBLSKey (AddReturnMessage
                      (''cannot do stake for key '' @ EncodeToString currentBLSKey @ '', error '' @ err)
                      st2)))
             | (Inr vmOutput, st2) \<Rightarrow>
                 if ReturnCode vmOutput \<noteq> Ok then
                   activateStakingFor_loop v numQualified rewardAddress ownerAddress blsKeys numRegistered
                     (Finish failed (Finish currentBLSKey (AddReturnMessage
                        (''cannot do stake for key '' @ EncodeToString currentBLSKey @ '', error ''
                           @ ReturnCodeString (ReturnCode vmOutput)) st2)))
                 else
                   let st3 = (if length (ReturnData vmOutput) > 0 \<and> ReturnData vmOutput ! 0 = waiting
                              then Finish waiting (Finish currentBLSKey st2) else st2);
                       numRegistered = (if UnStakedNonce stakedData = 0 then numRegistered + 1
                                        else numRegistered)
                   in activateStakingFor_loop v numQualified rewardAddress ownerAddress blsKeys
                        numRegistered st3))"

definition activateStakingFor ::
  "validatorSC \<Rightarrow> bytes list \<Rightarrow> 64 word \<Rightarrow> ValidatorDataV2 \<Rightarrow> int \<Rightarrow> bytes \<Rightarrow> bytes \<Rightarrow> SystemEI
     \<Rightarrow> ValidatorDataV2 \<times> SystemEI" where
  "activateStakingFor v blsKeys numQualified registrationData fixedStakeValue rewardAddress
       ownerAddress st =
     (case activateStakingFor_loop v numQualified rewardAddress ownerAddress blsKeys
             (ucast (NumRegistered registrationData)) st of
        (numRegistered, st1) \<Rightarrow>
          (registrationData\<lparr>
             NumRegistered := ucast numRegistered,
             LockedStake := fixedStakeValue * uint numRegistered\<rparr>, st1))"

text \<open>The optional arguments of \<open>stake\<close> after the keys and signatures: a reward address (of
  wallet-address length) or \<open>maxStakePerNode\<close>.\<close>

fun stakeOptionals ::
  "validatorSC \<Rightarrow> bool \<Rightarrow> bytes list \<Rightarrow> ValidatorDataV2 \<Rightarrow> SystemEI \<Rightarrow> ValidatorDataV2 \<times> SystemEI" where
  "stakeOptionals v isAlreadyRegistered [] registrationData st = (registrationData, st)"
| "stakeOptionals v isAlreadyRegistered (arg # rest) registrationData st =
     (if length arg = walletAddressLen v then
        (if \<not> isAlreadyRegistered
         then stakeOptionals v isAlreadyRegistered rest (registrationData\<lparr>RewardAddress := arg\<rparr>) st
         else stakeOptionals v isAlreadyRegistered rest registrationData
                (AddReturnMessage
                   ''reward address after being registered can be changed only through changeRewardAddress''
                   st))
      else stakeOptionals v isAlreadyRegistered rest
             (registrationData\<lparr>MaxStakePerNode := SetBytes arg\<rparr>) st)"

text \<open>\<open>stake\<close> returns \<open>None\<close> where the Go code panics (a read beyond the arguments, a
  division by a zero node price).\<close>

definition stake :: "validatorSC \<Rightarrow> ContractCallInput \<Rightarrow> SystemEI \<Rightarrow> (ReturnCode \<times> SystemEI) option" where
  "stake v args st =
     (case UseGas (Stake (gasCost v)) st of
        None \<Rightarrow> Some (OutOfGas, AddReturnMessage InsufficientGasLimit st)
      | Some st1 \<Rightarrow>
          let isGenesis = (CurrentNonce v = 0);
              stakeEnabled = (isGenesis \<or> flagEnableStaking v)
          in if \<not> stakeEnabled then Some (UserError, AddReturnMessage StakeNotEnabled st1)
             else
               let validatorConfig = getConfig v (CurrentEpoch v)
               in (case getOrCreateRegistrationData v (CallerAddr args) st1 of
                  Inl err \<Rightarrow>
                    Some (UserError, AddReturnMessage (CannotGetOrCreateRegistrationData @ err) st1)
                | Inr registrationData \<Rightarrow>
                    let registrationData = registrationData\<lparr>
                          TotalStakeValue := TotalStakeValue registrationData + CallValue args\<rparr>
                    in if TotalStakeValue registrationData < NodePrice validatorConfig
                          \<and> \<not> IsSmartContractAddress v (CallerAddr args) then
                         Some (UserError,
                               AddReturnMessage
                                 (''insufficient stake value: expected ''
                                    @ String (NodePrice validatorConfig) @ '', got ''
                                    @ String (TotalStakeValue registrationData)) st1)
                       else
                         let lenArgs = length (Arguments args)
                         in if lenArgs = 0 then
                              Some (updateStakeValue v registrationData (CallerAddr args) st1)
                            else if \<not> isNumArgsCorrectToStake (Arguments args) then
                              Some (UserError,
                                    AddReturnMessage ''invalid number of arguments to call stake'' st1)
                            else
                              let maxNodesToRun = Uint64 (SetBytes (Arguments args ! 0))
                              in if maxNodesToRun = 0 then
                                   Some (UserError,
                                         AddReturnMessage
                                           ''number of nodes argument must be greater than zero'' st1)
                                 else (case UseGas ((maxNodesToRun - 1) * Stake (gasCost v)) st1 of
                                    None \<Rightarrow> Some (OutOfGas, AddReturnMessage InsufficientGasLimit st1)
                                  | Some st2 \<Rightarrow>
                                      let isAlreadyRegistered = (length (RewardAddress registrationData) > 0);
                                          registrationData =
                                            (if \<not> isAlreadyRegistered
                                             then registrationData\<lparr>RewardAddress := CallerAddr args\<rparr>
                                             else registrationData);
                                          registrationData = registrationData\<lparr>
                                            MaxStakePerNode := TotalStakeValue registrationData,
                                            Epoch := CurrentEpoch v\<rparr>
                                      in (case registerBLSKeys v registrationData (CallerAddr args)
                                                 (CallerAddr args) (Arguments args) st2 of
                                         None \<Rightarrow> None
                                       | Some (Inl err, registrationData, st3) \<Rightarrow>
                                           Some (UserError,
                                                 AddReturnMessage (''cannot register bls key: error '' @ err) st3)
                                       | Some (Inr blsKeys, registrationData, st3) \<Rightarrow>
                                           if flagDoubleKey v \<and> checkDoubleBLSKeys blsKeys then
                                             Some (UserError,
                                                   AddReturnMessage
                                                     ''invalid arguments, found same bls key twice'' st3)
                                           else if NodePrice validatorConfig = 0 then None
                                           else
                                             let numQualified =
                                                   Div (TotalStakeValue registrationData)
                                                       (NodePrice validatorConfig)
                                             in if of_nat (length (BlsPubKeys registrationData))
                                                     > Uint64 numQualified then
                                                  Some (OutOfFunds, AddReturnMessage ''insufficient funds'' st3)
                                                else
                                                  (case (if of_nat lenArgs > maxNodesToRun * 2 + 1
                                                         then stakeOptionals v isAlreadyRegistered
                                                                (drop (unat (maxNodesToRun * 2 + 1)) (Arguments args))
                                                                registrationData st3
                                                         else (registrationData, st3)) of
                                                     (registrationData, st4) \<Rightarrow>
                                                       (case activateStakingFor v blsKeys (Uint64 numQualified)
                                                               registrationData (NodePrice validatorConfig)
                                                               (RewardAddress registrationData)
                                                               (CallerAddr args) st4 of
                                                          (registrationData, st5) \<Rightarrow>
                                                            (case saveRegistrationData v (CallerAddr args)
                                                                    registrationData st5 of
                                                               (Some err, st6) \<Rightarrow>
                                                                 Some (UserError,
                                                                       AddReturnMessage
                                                                         (''cannot save registration data: error '' @ err) st6)
                                                             | (None, st6) \<Rightarrow> Some (Ok, st6))))))))"

subsection \<open>The dispatcher\<close>

text \<open>Modelled from the spec: the init function is matched by a host-defined constant
  (\<open>core.SCDeployInitFunctionName\<close>, declared outside the source file).\<close>

definition SCDeployInitFunctionName :: string where
  "SCDeployInitFunctionName = ''_init''"

text \<open>
  \<open>Execute\<close> rejects a \<open>nil\<close> call (\<open>None\<close>) and switches on the function name. The handler
  \<open>setConfig\<close>, whose body is not part of the source file, is the contract's field of that
  name. A call that panics has no outcome (\<open>None\<close>).
\<close>

definition Execute ::
  "validatorSC \<Rightarrow> ContractCallInput option \<Rightarrow> SystemEI \<Rightarrow> (ReturnCode \<times> SystemEI) option" where
  "Execute v input st =
     (case input of
        None \<Rightarrow> Some (UserError, AddReturnMessage ''nil arguments: nil contract call input'' st)
      | Some args \<Rightarrow>
          if Function args = SCDeployInitFunctionName then Some (init v args st)
          else if Function args = ''stake'' then stake v args st
          else if Function args = ''unStake'' then Some (unStake v args st)
          else if Function args = ''unStakeNodes'' then Some (unStakeNodes v args st)
          else if Function args = ''unStakeTokens'' then Some (unStakeTokens v args st)
          else if Function args = ''unBond'' then Some (unBond v args st)
          else if Function args = ''unBondNodes'' then Some (unBondNodes v args st)
          else if Function args = ''unBondTokens'' then Some (unBondTokens v args st)
          else if Function args = ''claim'' then Some (claim v args st)
          else if Function args = ''get'' then Some (get v args st)
          else if Function args = ''setConfig'' then Some (setConfig v args st)
          else if Function args = ''changeRewardAddress'' then Some (changeRewardAddress v args st)
          else if Function args = ''unJail'' then Some (unJail v args st)
          else if Function args = ''getTotalStaked'' then Some (getTotalStaked v args st)
          else if Function args = ''getTotalStakedTopUpBlsKeys''
            then Some (getTotalStakedTopUpBlsKeys v args st)
          else if Function args = ''getBlsKeysStatus'' then Some (getBlsKeysStatus v args st)
          else if Function args = ''updateStakingV2'' then Some (updateStakingV2 v args st)
          else if Function args = ''cleanRegisteredData'' then Some (cleanRegisteredData v args st)
          else if Function args = ''pauseUnStakeUnBond'' then Some (pauseUnStakeUnBond v args st)
          else if Function args = ''unPauseUnStakeUnBond'' then Some (unPauseStakeUnBond v args st)
          else Some (UserError, AddReturnMessage ''invalid method to call'' st))"

section \<open>Properties\<close>

subsection \<open>Predicates and functions used to state the properties\<close>

text \<open>Invariant 2 of the data model: \<open>TotalUnstaked\<close> is the sum of the pending entries.\<close>

definition unstakedSumOK :: "ValidatorDataV2 \<Rightarrow> bool" where
  "unstakedSumOK r = (TotalUnstaked r = sum_list (map UnstakedValue (UnstakedInfo r)))"

text \<open>The invariant for what is stored under one key: a stored record satisfies it; no
  record (nothing, or raw bytes) satisfies it trivially.\<close>

definition storedUnstakedSumOK :: "SystemEI \<Rightarrow> bytes \<Rightarrow> bool" where
  "storedUnstakedSumOK st key =
     (case storage st key of Some (Marshalled r) \<Rightarrow> unstakedSumOK r | _ \<Rightarrow> True)"

text \<open>A record as invariant 7 wants it deleted: nothing staked, locked or pending.\<close>

definition drained :: "ValidatorDataV2 \<Rightarrow> bool" where
  "drained r = (TotalStakeValue r = 0 \<and> LockedStake r = 0 \<and> TotalUnstaked r = 0)"

definition storedDrained :: "SystemEI \<Rightarrow> bytes \<Rightarrow> bool" where
  "storedDrained st key = (case storage st key of Some (Marshalled r) \<Rightarrow> drained r | _ \<Rightarrow> False)"

text \<open>The commands that change the Staking Registry; \<open>get\<close> and \<open>getBLSKeyStatus\<close> only read.\<close>

fun mutatingCommand :: "command \<Rightarrow> bool" where
  "mutatingCommand (SC_get blsKey) = False"
| "mutatingCommand (SC_getBLSKeyStatus blsKey) = False"
| "mutatingCommand cmd = True"

fun probeOrRegister :: "command \<Rightarrow> bool" where
  "probeOrRegister (SC_get blsKey) = True"
| "probeOrRegister (SC_register blsKey rewardAddress ownerAddress) = True"
| "probeOrRegister cmd = False"

text \<open>A sub-call fails for \<open>unJail\<close> when it errs or returns another code than \<open>Ok\<close>.\<close>

fun subCallFailed :: "string + VMOutput \<Rightarrow> bool" where
  "subCallFailed (Inl errExec) = True"
| "subCallFailed (Inr vmOutput) = (ReturnCode vmOutput \<noteq> Ok)"

text \<open>The keys of an \<open>unJail\<close> call whose sub-call fails, in order; \<open>history\<close> is the list of
  commands issued before.\<close>

fun failedUnJails :: "validatorSC \<Rightarrow> command list \<Rightarrow> bytes list \<Rightarrow> bytes list" where
  "failedUnJails v history [] = []"
| "failedUnJails v history (blsKey # blsKeys) =
     (if subCallFailed (stakingSC v history (SC_unJail blsKey)) then [blsKey] else [])
       @ failedUnJails v (history @ [SC_unJail blsKey]) blsKeys"

text \<open>The finish-stream report \<open>(key, failed)\<close> for each of the given keys.\<close>

definition reportedFailed :: "bytes list \<Rightarrow> bytes list" where
  "reportedFailed blsKeys = concat (map (\<lambda>blsKey. [blsKey, failed]) blsKeys)"

text \<open>The accumulator \<open>unJailFunds\<close> as a number.\<close>

definition unJailFunds :: "validatorSC \<Rightarrow> SystemEI \<Rightarrow> int" where
  "unJailFunds v st = SetBytes (storageBytes v (GetStorage unJailedFunds st))"

text \<open>The keys of a list with every later duplicate removed (the first occurrence stays).\<close>

function firstOccurrences :: "bytes list \<Rightarrow> bytes list" where
  "firstOccurrences [] = []"
| "firstOccurrences (blsKey # blsKeys) = blsKey # firstOccurrences (removeAll blsKey blsKeys)"
  by pat_completeness auto
termination
  by (relation "measure length") (auto simp: less_Suc_eq_le length_removeAll_less_eq)

text \<open>
  The maturity algorithm in the words of the specification. An entry is matured when
  \<open>currentNonce - entry.nonce \<ge> unBondPeriod\<close>; the matured entries are accumulated in
  order; with a positive ceiling, the accumulation stops at the first entry with which the
  accumulator reaches the ceiling, that entry is replaced by the remainder (with the same
  nonce) when the remainder is positive, and the result is the ceiling. The consumed
  entries are removed from the front of the list.
\<close>

definition matured :: "validatorSC \<Rightarrow> UnstakedValue \<Rightarrow> bool" where
  "matured v entry = (CurrentNonce v - UnstakedNonce entry \<ge> unBondPeriod v)"

definition spec_maturity :: "validatorSC \<Rightarrow> UnstakedValue list \<Rightarrow> int \<Rightarrow> int \<times> UnstakedValue list" where
  "spec_maturity v info ceiling =
     (let maturedEntries = filter (matured v) info;
          reaching = filter (\<lambda>k. ceiling \<le> sum_list (map UnstakedValue (take k maturedEntries)))
                       [1 ..< Suc (length maturedEntries)]
      in if 0 < ceiling \<and> reaching \<noteq> [] then
           let k = hd reaching;
               accumulated = sum_list (map UnstakedValue (take k maturedEntries));
               lastConsumed = maturedEntries ! (k - 1)
           in (ceiling,
               (if 0 < accumulated - ceiling
                then [\<lparr>UnstakedNonce = UnstakedNonce lastConsumed,
                       UnstakedValue = accumulated - ceiling\<rparr>]
                else []) @ drop k info)
         else (sum_list (map UnstakedValue maturedEntries), drop (length maturedEntries) info))"

definition spec_unBondTokensFromRegistrationData ::
  "validatorSC \<Rightarrow> ValidatorDataV2 \<Rightarrow> int \<Rightarrow> (ReturnCode + int) \<times> ValidatorDataV2" where
  "spec_unBondTokensFromRegistrationData v registrationData ceiling =
     (case spec_maturity v (UnstakedInfo registrationData) ceiling of
        (totalUnBond, remaining) \<Rightarrow>
          let registrationData' = registrationData\<lparr>
                UnstakedInfo := remaining,
                TotalUnstaked := TotalUnstaked registrationData - totalUnBond\<rparr>
          in (if TotalUnstaked registrationData' < 0 then Inl UserError else Inr totalUnBond,
              registrationData'))"

text \<open>The nonces of the entries are non-decreasing, and none lies after the current nonce.\<close>

definition noncesNonDecreasing :: "UnstakedValue list \<Rightarrow> bool" where
  "noncesNonDecreasing info = sorted (map UnstakedNonce info)"

definition noncesNotAfter :: "64 word \<Rightarrow> UnstakedValue list \<Rightarrow> bool" where
  "noncesNotAfter currentNonce info = list_all (\<lambda>entry. UnstakedNonce entry \<le> currentNonce) info"

subsection \<open>Scenario data\<close>

text \<open>The end-to-end scenarios of the specification: node price 2500, unjail price 10,
  unbond period 50, minimum unstake 1; a Staking Registry that accepts every command.\<close>

definition scenarioConfig :: ValidatorConfig where
  "scenarioConfig =
     \<lparr>MinStakeValue = 1, TotalSupply = 1000000, MinStep = 1, NodePrice = 2500, UnJailPrice = 10\<rparr>"

definition scenarioGasCost :: MetaChainSystemSCsCost where
  "scenarioGasCost =
     \<lparr>Stake = 1, UnStake = 1, UnBond = 1, Claim = 1, Get = 1, ChangeRewardAddress = 1,
      UnJail = 1, UnStakeTokens = 1, UnBondTokens = 1\<rparr>"

definition registryOk :: "command list \<Rightarrow> command \<Rightarrow> string + VMOutput" where
  "registryOk history cmd = Inr \<lparr>ReturnCode = Ok, ReturnData = []\<rparr>"

text \<open>A \<open>setConfig\<close> handler for the scenarios: it puts the bytes of a configuration under the
  key of an epoch.\<close>

definition scenarioSetConfig :: "ContractCallInput \<Rightarrow> SystemEI \<Rightarrow> ReturnCode \<times> SystemEI" where
  "scenarioSetConfig args st =
     (case Arguments args of
        [epochBytes, configData] \<Rightarrow> (Ok, SetStorage epochBytes (Some (RawBytes configData)) st)
      | _ \<Rightarrow> (UserError, AddReturnMessage ''setConfig function called with wrong number of arguments'' st))"

definition scenarioSC :: validatorSC where
  "scenarioSC =
     \<lparr>unBondPeriod = 50, epochConfig = scenarioConfig, stakingV2Epoch = 0,
      stakingSCAddress = ''staking'', validatorSCAddress = ''validator'', walletAddressLen = 9,
      enableStakingEpoch = 0, enableDoubleKeyEpoch = 0, gasCost = scenarioGasCost,
      flagEnableStaking = True, flagEnableTopUp = True, flagDoubleKey = True,
      minUnstakeTokensValue = 1, endOfEpochAddress = ''endOfEpoch'', CurrentNonce = 100,
      CurrentEpoch = 1, sigVerifier = (\<lambda>pubKey message sig. True),
      IsSmartContractAddress = (\<lambda>address. False), stakingSC = registryOk,
      unmarshalStakedData = (\<lambda>b. None), marshalizer = (\<lambda>r. ''record''),
      setConfig = scenarioSetConfig\<rparr>"

definition emptyHost :: SystemEI where
  "emptyHost =
     \<lparr>storage = (\<lambda>key. None), gasRemaining = 1000, finishData = [], returnMessage = [],
      transfers = [], calls = []\<rparr>"

definition aliceRecord :: ValidatorDataV2 where
  "aliceRecord =
     \<lparr>RegisterNonce = 0, Epoch = 1, RewardAddress = ''alice'', TotalStakeValue = 6000,
      LockedStake = 5000, MaxStakePerNode = 5000, BlsPubKeys = [''bls1'', ''bls2''],
      NumRegistered = 2, UnstakedInfo = [], TotalUnstaked = 0\<rparr>"

definition hostWith :: "ValidatorDataV2 \<Rightarrow> SystemEI" where
  "hostWith r = emptyHost\<lparr>storage := (\<lambda>key. None)(''alice'' := Some (Marshalled r))\<rparr>"

definition aliceCall :: "string \<Rightarrow> int \<Rightarrow> bytes list \<Rightarrow> ContractCallInput" where
  "aliceCall f val arguments =
     \<lparr>CallerAddr = ''alice'', RecipientAddr = ''validator'', CallValue = val,
      Arguments = arguments, Function = f\<rparr>"

definition registryFailingUnJail :: "bytes \<Rightarrow> command list \<Rightarrow> command \<Rightarrow> string + VMOutput" where
  "registryFailingUnJail blsKey history cmd =
     (if cmd = SC_unJail blsKey then Inl ''unJail failed'' else Inr \<lparr>ReturnCode = Ok, ReturnData = []\<rparr>)"

definition endOfEpochCall :: "string \<Rightarrow> ContractCallInput" where
  "endOfEpochCall f =
     \<lparr>CallerAddr = ''endOfEpoch'', RecipientAddr = ''validator'', CallValue = 0, Arguments = [],
      Function = f\<rparr>"

definition bobCall :: "string \<Rightarrow> int \<Rightarrow> bytes list \<Rightarrow> ContractCallInput" where
  "bobCall f val arguments =
     \<lparr>CallerAddr = ''bob'', RecipientAddr = ''validator'', CallValue = val,
      Arguments = arguments, Function = f\<rparr>"

definition pausedHost :: SystemEI where
  "pausedHost = snd (pauseUnStakeUnBond scenarioSC (endOfEpochCall ''pauseUnStakeUnBond'') emptyHost)"

definition duplicateKeysRecord :: ValidatorDataV2 where
  "duplicateKeysRecord = aliceRecord\<lparr>BlsPubKeys := [''bls1'', ''bls2'', ''bls1'']\<rparr>"

text \<open>Under the key there is no record at all, or a record with the given property.\<close>

definition absentOr :: "(ValidatorDataV2 \<Rightarrow> bool) \<Rightarrow> SystemEI \<Rightarrow> bytes \<Rightarrow> bool" where
  "absentOr P st key =
     (case storage st key of None \<Rightarrow> True | Some (Marshalled r) \<Rightarrow> P r | Some (RawBytes b) \<Rightarrow> False)"

text \<open>A caller with nothing staked or locked and one matured pending entry, and a caller
  whose last node is unbonded together with a matured pending entry.\<close>

definition maturedPendingRecord :: ValidatorDataV2 where
  "maturedPendingRecord =
     \<lparr>RegisterNonce = 0, Epoch = 1, RewardAddress = ''alice'', TotalStakeValue = 0,
      LockedStake = 0, MaxStakePerNode = 5000, BlsPubKeys = [], NumRegistered = 0,
      UnstakedInfo = [\<lparr>UnstakedNonce = 40, UnstakedValue = 3000\<rparr>], TotalUnstaked = 3000\<rparr>"

definition lastNodeRecord :: ValidatorDataV2 where
  "lastNodeRecord =
     \<lparr>RegisterNonce = 0, Epoch = 1, RewardAddress = ''alice'', TotalStakeValue = 0,
      LockedStake = 2500, MaxStakePerNode = 2500, BlsPubKeys = [''bls1''], NumRegistered = 1,
      UnstakedInfo = [\<lparr>UnstakedNonce = 40, UnstakedValue = 2500\<rparr>], TotalUnstaked = 2500\<rparr>"

text \<open>Between two host states only commands with the given property were issued to the
  Staking Registry.\<close>

definition issuedOnly :: "(command \<Rightarrow> bool) \<Rightarrow> SystemEI \<Rightarrow> SystemEI \<Rightarrow> bool" where
  "issuedOnly P st st' =
     (take (length (calls st)) (calls st') = calls st
      \<and> list_all P (drop (length (calls st)) (calls st')))"

text \<open>Scenario 2 (value 4000 for two keys at node price 2500), and a call that names the
  same key twice.\<close>

definition underFundedCall :: ContractCallInput where
  "underFundedCall = aliceCall ''stake'' 4000 [[CHR 0x02], ''bls1'', ''sig1'', ''bls2'', ''sig2'']"

definition sameKeyTwiceCall :: ContractCallInput where
  "sameKeyTwiceCall = aliceCall ''stake'' 2500 [[CHR 0x02], ''bls1'', ''sig1'', ''bls1'', ''sig2'']"

text \<open>The numbers \<open>k\<close> of leading entries with which an accumulator starting at \<open>acc\<close> reaches
  the ceiling.\<close>

definition reachingFrom :: "int \<Rightarrow> int \<Rightarrow> UnstakedValue list \<Rightarrow> nat list" where
  "reachingFrom ceiling acc entries =
     filter (\<lambda>k. ceiling \<le> acc + sum_list (map UnstakedValue (take k entries)))
       [1 ..< Suc (length entries)]"

text \<open>Records for the maturity algorithm: an unmatured entry followed by one stamped after
  the current nonce, a single entry stamped after the current nonce, and the record after
  two \<open>unStakeTokens\<close> calls of 2000 at nonces 100 and 200.\<close>

definition pastAndFutureRecord :: ValidatorDataV2 where
  "pastAndFutureRecord = aliceRecord\<lparr>
     UnstakedInfo := [\<lparr>UnstakedNonce = 60, UnstakedValue = 1\<rparr>, \<lparr>UnstakedNonce = 200, UnstakedValue = 1\<rparr>],
     TotalUnstaked := 2\<rparr>"

definition futureRecord :: ValidatorDataV2 where
  "futureRecord = aliceRecord\<lparr>
     UnstakedInfo := [\<lparr>UnstakedNonce = 200, UnstakedValue = 1\<rparr>], TotalUnstaked := 1\<rparr>"

definition twoUnstakesRecord :: ValidatorDataV2 where
  "twoUnstakesRecord = aliceRecord\<lparr>
     TotalStakeValue := 2000,
     UnstakedInfo := [\<lparr>UnstakedNonce = 100, UnstakedValue = 2000\<rparr>,
                      \<lparr>UnstakedNonce = 200, UnstakedValue = 2000\<rparr>],
     TotalUnstaked := 4000\<rparr>"

text \<open>What one call may do to contract storage, seen from the caller \<open>caller\<close>: leave it as it
  is, delete the caller's record, put raw bytes under some key, or save under the caller's
  key a record \<open>r'\<close> that satisfies the sum invariant if the record \<open>r\<close> loaded at the start of
  the call did.\<close>

definition writesRecordOK :: "validatorSC \<Rightarrow> bytes \<Rightarrow> SystemEI \<Rightarrow> SystemEI \<Rightarrow> bool" where
  "writesRecordOK v caller st st' =
     (storage st' = storage st
      \<or> storage st' = (storage st)(caller := None)
      \<or> (\<exists>key b. storage st' = (storage st)(key := Some (RawBytes b)))
      \<or> (\<exists>r r'. getOrCreateRegistrationData v caller st = Inr r
            \<and> (unstakedSumOK r \<longrightarrow> unstakedSumOK r')
            \<and> storage st' = (storage st)(caller := Some (Marshalled r'))))"

text \<open>What is assumed of a handler whose body is outside the source file: it stores no
  registration record of its own, that is, every record found in contract storage after it
  was there before it.\<close>

definition storesNoRecord :: "(ContractCallInput \<Rightarrow> SystemEI \<Rightarrow> ReturnCode \<times> SystemEI) \<Rightarrow> bool" where
  "storesNoRecord handler =
     (\<forall>args st key r. storage (snd (handler args st)) key = Some (Marshalled r)
        \<longrightarrow> storage st key = Some (Marshalled r))"

text \<open>The states of the contract's host that are reachable from an empty contract storage by
  calls that return \<open>Ok\<close> (the host rolls back the others), to contracts whose \<open>setConfig\<close>
  stores no registration record, and by steps of the host that leave the contract storage
  alone.\<close>

inductive reachable :: "SystemEI \<Rightarrow> bool" where
  start: "storage st = (\<lambda>key. None) \<Longrightarrow> reachable st"
| call: "reachable st \<Longrightarrow> storesNoRecord (setConfig v) \<Longrightarrow> Execute v input st = Some (Ok, st')
           \<Longrightarrow> reachable st'"
| host: "reachable st \<Longrightarrow> storage st' = storage st \<Longrightarrow> reachable st'"

subsection \<open>Effects of the host operations\<close>

lemmas scenario_defs = scenarioConfig_def scenarioGasCost_def registryOk_def scenarioSC_def
  emptyHost_def aliceRecord_def hostWith_def aliceCall_def

lemmas host_defs = AddReturnMessage_def Finish_def UseGas_def GetStorage_def SetStorage_def
  Transfer_def executeOnStakingSC_def getConfig_def getOrCreateRegistrationData_def
  saveRegistrationData_def verifyBLSPublicKeys_def

lemma storage_AddReturnMessage [simp]: "storage (AddReturnMessage m st) = storage st"
  by (simp add: AddReturnMessage_def)

lemma storage_Finish [simp]: "storage (Finish b st) = storage st"
  by (simp add: Finish_def)

lemma storage_UseGas: "UseGas g st = Some st' \<Longrightarrow> storage st' = storage st"
  by (auto simp: UseGas_def split: if_splits)

lemma storage_executeOnStakingSC:
  "executeOnStakingSC v c st = (res, st') \<Longrightarrow> storage st' = storage st"
  by (auto simp: executeOnStakingSC_def)

lemma calls_AddReturnMessage [simp]: "calls (AddReturnMessage m st) = calls st"
  by (simp add: AddReturnMessage_def)

lemma calls_Finish [simp]: "calls (Finish b st) = calls st"
  by (simp add: Finish_def)

lemma calls_UseGas: "UseGas g st = Some st' \<Longrightarrow> calls st' = calls st"
  by (auto simp: UseGas_def split: if_splits)

lemma calls_executeOnStakingSC:
  "executeOnStakingSC v c st = (res, st') \<Longrightarrow> calls st' = calls st @ [c]"
  by (auto simp: executeOnStakingSC_def)

lemma UseGas_enough:
  "g \<le> gasRemaining st \<Longrightarrow> UseGas g st = Some (st\<lparr>gasRemaining := gasRemaining st - g\<rparr>)"
  by (simp add: UseGas_def not_less [symmetric])

subsection \<open>unStake before the top-up era leaves storage alone\<close>

lemma unStakeNodes_loop_frame:
  "unStakeNodesFromStakingSC_loop v r ks n st = (n', st') \<Longrightarrow>
     storage st' = storage st
     \<and> calls st' = calls st @ map (\<lambda>k. SC_unStake k (RewardAddress r)) ks"
proof (induction ks arbitrary: n st)
  case Nil
  then show ?case by simp
next
  case (Cons k ks)
  then show ?case
    by (fastforce split: prod.splits sum.splits if_splits
          dest: storage_executeOnStakingSC calls_executeOnStakingSC)
qed

text \<open>
  C10. When the top-up flag is not set, an \<open>unStake\<close> call that returns \<open>Ok\<close> leaves the whole
  contract storage, and so the caller's stored registration record, unchanged, and the
  commands it issued to the Staking Registry are exactly one \<open>unStake\<close> command per key
  argument, in order, with the reward address of the caller's record.
\<close>

theorem unStake_before_topUp_frame:
  assumes "\<not> flagEnableTopUp v" and "fst (unStake v args st) = Ok"
  shows "storage (snd (unStake v args st)) = storage st \<and>
         (\<exists>registrationData.
            getOrCreateRegistrationData v (CallerAddr args) st = Inr registrationData \<and>
            calls (snd (unStake v args st)) =
              calls st @ map (\<lambda>blsKey. SC_unStake blsKey (RewardAddress registrationData))
                           (Arguments args))"
  using assms
  by (auto simp: unStake_def basicChecksForUnStakeNodes_def unStakeNodesFromStakingSC_def
       split: if_splits prod.splits sum.splits option.splits
       dest!: unStakeNodes_loop_frame dest: storage_UseGas calls_UseGas)

theorem unStake_before_topUp_frame_witness:
  "\<not> flagEnableTopUp (scenarioSC\<lparr>flagEnableTopUp := False\<rparr>) \<and>
   fst (unStake (scenarioSC\<lparr>flagEnableTopUp := False\<rparr>) (aliceCall ''unStake'' 0 [''bls1''])
          (hostWith aliceRecord)) = Ok \<and>
   storage (snd (unStake (scenarioSC\<lparr>flagEnableTopUp := False\<rparr>) (aliceCall ''unStake'' 0 [''bls1''])
          (hostWith aliceRecord))) ''alice'' = Some (Marshalled aliceRecord) \<and>
   calls (snd (unStake (scenarioSC\<lparr>flagEnableTopUp := False\<rparr>) (aliceCall ''unStake'' 0 [''bls1''])
          (hostWith aliceRecord))) = [SC_unStake ''bls1'' ''alice'']"
proof -
  have ok: "fst (unStake (scenarioSC\<lparr>flagEnableTopUp := False\<rparr>) (aliceCall ''unStake'' 0 [''bls1''])
                   (hostWith aliceRecord)) = Ok"
    by (simp add: unStake_def isUnStakeUnBondPaused_def basicChecksForUnStakeNodes_def
          unStakeNodesFromStakingSC_def host_defs scenario_defs unStakeUnBondPauseKey_def)
  have load: "getOrCreateRegistrationData (scenarioSC\<lparr>flagEnableTopUp := False\<rparr>) ''alice''
                (hostWith aliceRecord) = Inr aliceRecord"
    by (simp add: host_defs scenario_defs)
  show ?thesis
    using unStake_before_topUp_frame [of "scenarioSC\<lparr>flagEnableTopUp := False\<rparr>"
        "aliceCall ''unStake'' 0 [''bls1'']" "hostWith aliceRecord"] ok load
    by (simp add: scenario_defs)
qed

subsection \<open>claim\<close>

text \<open>
  C7. With the top-up flag set, \<open>claim\<close> returns \<open>UserError\<close>. Otherwise, for a registered
  caller, zero call value and enough gas: when \<open>TotalStakeValue - LockedStake\<close> is not
  positive the call returns \<open>Ok\<close> and neither storage nor the transfers change; when it is
  positive the call returns \<open>Ok\<close>, the record is saved with \<open>TotalStakeValue\<close> set to
  \<open>LockedStake\<close>, and exactly that difference is transferred to the caller.
\<close>

theorem claim_behaviour:
  "(flagEnableTopUp v \<longrightarrow> fst (claim v args st) = UserError) \<and>
   (\<not> flagEnableTopUp v \<and> CallValue args = 0
      \<and> getOrCreateRegistrationData v (CallerAddr args) st = Inr r \<and> RewardAddress r \<noteq> []
      \<and> Claim (gasCost v) \<le> gasRemaining st \<longrightarrow>
    (if TotalStakeValue r - LockedStake r \<le> 0
     then fst (claim v args st) = Ok \<and> storage (snd (claim v args st)) = storage st
          \<and> transfers (snd (claim v args st)) = transfers st
     else fst (claim v args st) = Ok
          \<and> storage (snd (claim v args st)) =
              (storage st)(CallerAddr args := Some (Marshalled (r\<lparr>TotalStakeValue := LockedStake r\<rparr>)))
          \<and> transfers (snd (claim v args st)) =
              transfers st @ [(CallerAddr args, RecipientAddr args, TotalStakeValue r - LockedStake r)]))"
  by (auto simp: claim_def UseGas_enough saveRegistrationData_def SetStorage_def Transfer_def Let_def)

theorem claim_behaviour_witness:
  "\<not> flagEnableTopUp (scenarioSC\<lparr>flagEnableTopUp := False\<rparr>)
   \<and> CallValue (aliceCall ''claim'' 0 []) = 0
   \<and> getOrCreateRegistrationData (scenarioSC\<lparr>flagEnableTopUp := False\<rparr>) ''alice'' (hostWith aliceRecord)
        = Inr aliceRecord
   \<and> RewardAddress aliceRecord \<noteq> []
   \<and> Claim (gasCost (scenarioSC\<lparr>flagEnableTopUp := False\<rparr>)) \<le> gasRemaining (hostWith aliceRecord)
   \<and> fst (claim (scenarioSC\<lparr>flagEnableTopUp := False\<rparr>) (aliceCall ''claim'' 0 [])
            (hostWith aliceRecord)) = Ok
   \<and> storage (snd (claim (scenarioSC\<lparr>flagEnableTopUp := False\<rparr>) (aliceCall ''claim'' 0 [])
         (hostWith aliceRecord))) ''alice''
        = Some (Marshalled (aliceRecord\<lparr>TotalStakeValue := 5000\<rparr>))
   \<and> transfers (snd (claim (scenarioSC\<lparr>flagEnableTopUp := False\<rparr>) (aliceCall ''claim'' 0 [])
         (hostWith aliceRecord))) = [(''alice'', ''validator'', 1000)]"
proof -
  have load: "getOrCreateRegistrationData (scenarioSC\<lparr>flagEnableTopUp := False\<rparr>) ''alice''
                (hostWith aliceRecord) = Inr aliceRecord"
    by (simp add: host_defs scenario_defs)
  show ?thesis
    using claim_behaviour [of "scenarioSC\<lparr>flagEnableTopUp := False\<rparr>" "aliceCall ''claim'' 0 []"
        "hostWith aliceRecord" aliceRecord] load
    by (simp add: scenario_defs)
qed

subsection \<open>unStakeTokens\<close>

text \<open>
  C5, as stated, fails: the call also needs zero call value and enough gas. With a non-zero
  call value a call with an acceptable amount (1000, at least the minimum and at most the
  6000 staked) returns \<open>UserError\<close>, and without gas it returns \<open>OutOfGas\<close>.
\<close>

theorem unStakeTokens_counterexample:
  "flagEnableTopUp scenarioSC
   \<and> getOrCreateRegistrationData scenarioSC ''alice'' (hostWith aliceRecord) = Inr aliceRecord
   \<and> RewardAddress aliceRecord \<noteq> []
   \<and> \<not> isUnStakeUnBondPaused scenarioSC (hostWith aliceRecord)
   \<and> SetBytes [CHR 0x03, CHR 0xE8] = 1000
   \<and> 1000 \<ge> minUnstakeTokensValue scenarioSC \<and> 1000 \<le> TotalStakeValue aliceRecord
   \<and> fst (unStakeTokens scenarioSC (aliceCall ''unStakeTokens'' 7 [[CHR 0x03, CHR 0xE8]])
            (hostWith aliceRecord)) = UserError
   \<and> fst (unStakeTokens scenarioSC (aliceCall ''unStakeTokens'' 0 [[CHR 0x03, CHR 0xE8]])
            ((hostWith aliceRecord)\<lparr>gasRemaining := 0\<rparr>)) = OutOfGas"
  by (simp add: unStakeTokens_def basicCheckForUnStakeUnBond_def isUnStakeUnBondPaused_def
        unStakeUnBondPauseKey_def SetBytes_def host_defs scenario_defs)

text \<open>
  C5, amended. For an \<open>unStakeTokens\<close> call in the top-up era with zero call value and enough
  gas, by a registered, unpaused caller with exactly one argument \<open>amount\<close>: the call returns
  \<open>Ok\<close> iff (\<open>amount \<ge> minUnstakeTokensValue\<close> or \<open>amount = TotalStakeValue\<close>) and
  \<open>amount \<le> TotalStakeValue\<close>; then the record is saved with \<open>amount\<close> moved from
  \<open>TotalStakeValue\<close> to \<open>TotalUnstaked\<close> and the entry (current nonce, \<open>amount\<close>) appended to
  \<open>UnstakedInfo\<close>; otherwise the call returns \<open>UserError\<close> and storage is unchanged.
\<close>

theorem unStakeTokens_amended:
  assumes "flagEnableTopUp v" and "CallValue args = 0"
    and "getOrCreateRegistrationData v (CallerAddr args) st = Inr r" and "RewardAddress r \<noteq> []"
    and "\<not> isUnStakeUnBondPaused v st" and "UnStakeTokens (gasCost v) \<le> gasRemaining st"
    and "Arguments args = [amountBytes]"
  shows "(fst (unStakeTokens v args st) = Ok \<longleftrightarrow>
            (SetBytes amountBytes \<ge> minUnstakeTokensValue v \<or> SetBytes amountBytes = TotalStakeValue r)
            \<and> SetBytes amountBytes \<le> TotalStakeValue r)
       \<and> (fst (unStakeTokens v args st) = Ok \<longrightarrow>
            storage (snd (unStakeTokens v args st)) =
              (storage st)(CallerAddr args := Some (Marshalled (r\<lparr>
                 TotalStakeValue := TotalStakeValue r - SetBytes amountBytes,
                 TotalUnstaked := TotalUnstaked r + SetBytes amountBytes,
                 UnstakedInfo := UnstakedInfo r
                   @ [\<lparr>UnstakedNonce = CurrentNonce v, UnstakedValue = SetBytes amountBytes\<rparr>]\<rparr>))))
       \<and> (fst (unStakeTokens v args st) \<noteq> Ok \<longrightarrow>
            fst (unStakeTokens v args st) = UserError
            \<and> storage (snd (unStakeTokens v args st)) = storage st)"
  using assms
  by (auto simp: unStakeTokens_def basicCheckForUnStakeUnBond_def UseGas_enough processUnStakeValue_def
        isUnStakeUnBondPaused_def GetStorage_def saveRegistrationData_def SetStorage_def Let_def)

theorem unStakeTokens_amended_witness:
  "flagEnableTopUp scenarioSC \<and> CallValue (aliceCall ''unStakeTokens'' 0 [[CHR 0x03, CHR 0xE8]]) = 0
   \<and> getOrCreateRegistrationData scenarioSC ''alice'' (hostWith aliceRecord) = Inr aliceRecord
   \<and> RewardAddress aliceRecord \<noteq> []
   \<and> \<not> isUnStakeUnBondPaused scenarioSC (hostWith aliceRecord)
   \<and> UnStakeTokens (gasCost scenarioSC) \<le> gasRemaining (hostWith aliceRecord)
   \<and> fst (unStakeTokens scenarioSC (aliceCall ''unStakeTokens'' 0 [[CHR 0x03, CHR 0xE8]])
            (hostWith aliceRecord)) = Ok
   \<and> storage (snd (unStakeTokens scenarioSC (aliceCall ''unStakeTokens'' 0 [[CHR 0x03, CHR 0xE8]])
            (hostWith aliceRecord))) ''alice''
       = Some (Marshalled (aliceRecord\<lparr>TotalStakeValue := 5000, TotalUnstaked := 1000,
            UnstakedInfo := [\<lparr>UnstakedNonce = 100, UnstakedValue = 1000\<rparr>]\<rparr>))"
proof -
  have load: "getOrCreateRegistrationData scenarioSC ''alice'' (hostWith aliceRecord) = Inr aliceRecord"
    by (simp add: host_defs scenario_defs)
  have unpaused: "\<not> isUnStakeUnBondPaused scenarioSC (hostWith aliceRecord)"
    by (simp add: isUnStakeUnBondPaused_def unStakeUnBondPauseKey_def host_defs scenario_defs)
  have gas: "UnStakeTokens (gasCost scenarioSC) \<le> gasRemaining (hostWith aliceRecord)"
    by (simp add: scenario_defs)
  have amount: "SetBytes [CHR 0x03, CHR 0xE8] = 1000"
    by (simp add: SetBytes_def)
  show ?thesis
    using unStakeTokens_amended [of scenarioSC "aliceCall ''unStakeTokens'' 0 [[CHR 0x03, CHR 0xE8]]"
        "hostWith aliceRecord" aliceRecord "[CHR 0x03, CHR 0xE8]"] load unpaused gas amount
    by (simp add: scenario_defs)
qed

subsection \<open>unJail\<close>

lemma finishData_AddReturnMessage [simp]: "finishData (AddReturnMessage m st) = finishData st"
  by (simp add: AddReturnMessage_def)
lemma finishData_Finish [simp]: "finishData (Finish b st) = finishData st @ [b]"
  by (simp add: Finish_def)
lemma transfers_AddReturnMessage [simp]: "transfers (AddReturnMessage m st) = transfers st"
  by (simp add: AddReturnMessage_def)
lemma transfers_Finish [simp]: "transfers (Finish b st) = transfers st"
  by (simp add: Finish_def)

lemma SetBytes_snoc: "SetBytes (bs @ [c]) = SetBytes bs * 256 + of_char c"
  by (simp add: SetBytes_def)

lemma SetBytes_nonneg: "0 \<le> SetBytes bs"
proof (induction bs rule: rev_induct)
  case Nil then show ?case by (simp add: SetBytes_def)
next
  case (snoc c bs)
  have "(0::int) \<le> of_nat (of_char c)" by simp
  then have "(0::int) \<le> of_char c" by (simp only: of_nat_of_char)
  with snoc show ?case by (simp add: SetBytes_snoc)
qed

lemma SetBytes_natBytes: "SetBytes (natBytes n) = int n"
proof (induction n rule: natBytes.induct)
  case (1 n)
  show ?case
  proof (cases "n = 0")
    case True
    then show ?thesis by (simp add: SetBytes_def natBytes.simps [of 0])
  next
    case False
    have c: "(of_char (char_of (n mod 256)) :: int) = int (n mod 256)"
    proof -
      have "(of_char (char_of (n mod 256)) :: int) = of_nat (of_char (char_of (n mod 256)))"
        by (simp only: of_nat_of_char)
      then show ?thesis by simp
    qed
    have "SetBytes (natBytes n) = SetBytes (natBytes (n div 256)) * 256 + of_char (char_of (n mod 256))"
      using False by (subst natBytes.simps) (simp add: SetBytes_snoc)
    also have "\<dots> = int (n div 256) * 256 + int (n mod 256)"
      using 1 False c by simp
    also have "\<dots> = int n"
      by (simp add: zdiv_int zmod_int flip: of_nat_mult of_nat_add)
    finally show ?thesis .
  qed
qed

lemma SetBytes_Bytes: "0 \<le> x \<Longrightarrow> SetBytes (Bytes x) = x"
  by (simp add: Bytes_def SetBytes_natBytes)

lemma unJail_loop_spec:
  "unJail_loop v cfg ks tb st = (tb', st') \<Longrightarrow>
     tb' = tb + UnJailPrice cfg * int (length (failedUnJails v (calls st) ks))
     \<and> finishData st' = finishData st @ reportedFailed (failedUnJails v (calls st) ks)
     \<and> storage st' = storage st \<and> transfers st' = transfers st
     \<and> calls st' = calls st @ map SC_unJail ks"
proof (induction ks arbitrary: tb st)
  case Nil
  then show ?case by (simp add: reportedFailed_def)
next
  case (Cons k ks)
  obtain res st1 where ex: "executeOnStakingSC v (SC_unJail k) st = (res, st1)"
    by (cases "executeOnStakingSC v (SC_unJail k) st")
  then have res: "res = stakingSC v (calls st) (SC_unJail k)"
    and st1: "st1 = st\<lparr>calls := calls st @ [SC_unJail k]\<rparr>"
    by (auto simp: executeOnStakingSC_def)
  show ?case
  proof (cases "subCallFailed res")
    case True
    then have step: "unJail_loop v cfg ks (tb + UnJailPrice cfg) (Finish failed (Finish k st1)) = (tb', st')"
      using Cons.prems ex by (cases res) (auto split: if_splits)
    from Cons.IH [OF step] True res st1 show ?thesis
      by (simp add: reportedFailed_def Finish_def algebra_simps)
  next
    case False
    then have step: "unJail_loop v cfg ks tb st1 = (tb', st')"
      using Cons.prems ex by (cases res) (auto split: if_splits)
    from Cons.IH [OF step] False res st1 show ?thesis
      by (simp add: reportedFailed_def)
  qed
qed

lemma failedUnJails_length: "length (failedUnJails v h ks) \<le> length ks"
  by (induction ks arbitrary: h) (auto simp: le_SucI)

lemma unJailFunds_storage: "storage st' = storage st \<Longrightarrow> unJailFunds v st' = unJailFunds v st"
  by (simp add: unJailFunds_def GetStorage_def)

text \<open>
  C3, as stated, fails: an \<open>unJail\<close> call in the staking-enabled era with two keys of the
  caller and call value exactly \<open>UnJailPrice * 2\<close> returns \<open>OutOfGas\<close>, not \<open>Ok\<close>, when the gas
  left does not cover \<open>UnJail * 2\<close>; nothing is then added to \<open>unJailFunds\<close>.
\<close>

theorem unJail_counterexample:
  "flagEnableStaking scenarioSC
   \<and> getOrCreateRegistrationData scenarioSC ''alice'' (hostWith aliceRecord) = Inr aliceRecord
   \<and> set [''bls1'', ''bls2''] \<subseteq> set (BlsPubKeys aliceRecord)
   \<and> CallValue (aliceCall ''unJail'' 20 [''bls1'', ''bls2''])
        = UnJailPrice (epochConfig scenarioSC) * 2
   \<and> fst (unJail scenarioSC (aliceCall ''unJail'' 20 [''bls1'', ''bls2''])
            ((hostWith aliceRecord)\<lparr>gasRemaining := 0\<rparr>)) = OutOfGas
   \<and> storage (snd (unJail scenarioSC (aliceCall ''unJail'' 20 [''bls1'', ''bls2''])
            ((hostWith aliceRecord)\<lparr>gasRemaining := 0\<rparr>))) unJailedFunds = None"
  by (simp add: unJail_def unJailedFunds_def host_defs scenario_defs)

text \<open>
  C3, amended. For every \<open>unJail\<close> call in the staking-enabled era with at least one BLS-key
  argument, all keys belonging to the caller, call value exactly \<open>UnJailPrice * n\<close> and
  enough gas for \<open>UnJail * n\<close>: the call returns \<open>Ok\<close>; the finish stream receives
  \<open>(key, failed)\<close> for exactly the keys whose sub-call errs or returns another code than \<open>Ok\<close>,
  in order; \<open>transferBack\<close> is \<open>UnJailPrice\<close> times the number of those keys and, when positive,
  is transferred back to the caller; and the storage value \<open>unJailFunds\<close> is set to the bytes
  of its former value plus \<open>callValue - transferBack\<close>, so that with a non-negative price the
  accumulator grows by exactly that amount.
\<close>

theorem unJail_amended:
  assumes "flagEnableStaking v" and "Arguments args \<noteq> []"
    and "CallValue args = UnJailPrice (epochConfig v) * int (length (Arguments args))"
    and "UnJail (gasCost v) * of_nat (length (Arguments args)) \<le> gasRemaining st"
    and "getOrCreateRegistrationData v (CallerAddr args) st = Inr r"
    and "set (Arguments args) \<subseteq> set (BlsPubKeys r)"
  shows "(let failedKeys = failedUnJails v (calls st) (Arguments args);
              transferBack = UnJailPrice (epochConfig v) * int (length failedKeys);
              st' = snd (unJail v args st)
          in fst (unJail v args st) = Ok
             \<and> finishData st' = finishData st @ reportedFailed failedKeys
             \<and> transfers st' = transfers st
                  @ (if transferBack > 0 then [(CallerAddr args, RecipientAddr args, transferBack)] else [])
             \<and> storage st' = (storage st)(unJailedFunds :=
                  Some (RawBytes (Bytes (unJailFunds v st + (CallValue args - transferBack)))))
             \<and> (0 \<le> UnJailPrice (epochConfig v) \<longrightarrow>
                  unJailFunds v st' = unJailFunds v st + (CallValue args - transferBack)))"
proof -
  let ?cfg = "epochConfig v"
  let ?st1 = "st\<lparr>gasRemaining := gasRemaining st - UnJail (gasCost v) * of_nat (length (Arguments args))\<rparr>"
  let ?failedKeys = "failedUnJails v (calls st) (Arguments args)"
  let ?tb = "UnJailPrice ?cfg * int (length ?failedKeys)"
  obtain tb st2 where loop: "unJail_loop v ?cfg (Arguments args) 0 ?st1 = (tb, st2)"
    by (cases "unJail_loop v ?cfg (Arguments args) 0 ?st1")
  from unJail_loop_spec [OF loop]
  have tb: "tb = ?tb" and fin: "finishData st2 = finishData st @ reportedFailed ?failedKeys"
    and sto: "storage st2 = storage st" and tr: "transfers st2 = transfers st"
    by simp_all
  have load1: "getOrCreateRegistrationData v (CallerAddr args) ?st1 = Inr r"
    using assms(5) by (simp add: getOrCreateRegistrationData_def GetStorage_def)
  have verify: "verifyBLSPublicKeys r (Arguments args) = None"
    using assms(6) by (auto simp: verifyBLSPublicKeys_def list_all_iff)
  let ?st3 = "if tb > 0 then st2\<lparr>transfers := transfers st2 @ [(CallerAddr args, RecipientAddr args, tb)]\<rparr>
              else st2"
  have res: "unJail v args st = (Ok, addToUnJailFunds v (CallValue args - tb) ?st3)"
    using assms(1-4) load1 verify loop
    by (simp add: unJail_def UseGas_enough getConfig_def Let_def Transfer_def)
  have funds3: "unJailFunds v ?st3 = unJailFunds v st"
    using sto by (simp add: unJailFunds_def GetStorage_def)
  have sto': "storage (addToUnJailFunds v (CallValue args - tb) ?st3) =
      (storage st)(unJailedFunds := Some (RawBytes (Bytes (unJailFunds v st + (CallValue args - tb)))))"
    using sto funds3
    by (simp add: addToUnJailFunds_def SetStorage_def unJailFunds_def GetStorage_def SetBytes_def Let_def)
  have le: "int (length ?failedKeys) \<le> int (length (Arguments args))"
    by (simp add: failedUnJails_length)
  have nonneg: "0 \<le> UnJailPrice ?cfg \<Longrightarrow> 0 \<le> unJailFunds v st + (CallValue args - ?tb)"
  proof -
    assume p: "0 \<le> UnJailPrice ?cfg"
    have "CallValue args - ?tb = UnJailPrice ?cfg * (int (length (Arguments args)) - int (length ?failedKeys))"
      using assms(3) by (simp add: algebra_simps)
    moreover have "0 \<le> UnJailPrice ?cfg * (int (length (Arguments args)) - int (length ?failedKeys))"
      using p le by simp
    moreover have "0 \<le> unJailFunds v st" by (simp add: unJailFunds_def SetBytes_nonneg)
    ultimately show ?thesis by linarith
  qed
  have funds': "0 \<le> UnJailPrice ?cfg \<Longrightarrow>
      unJailFunds v (addToUnJailFunds v (CallValue args - tb) ?st3) = unJailFunds v st + (CallValue args - ?tb)"
    using sto' nonneg tb by (simp add: unJailFunds_def GetStorage_def SetBytes_Bytes)
  have fin': "finishData (addToUnJailFunds v (CallValue args - tb) ?st3) = finishData st @ reportedFailed ?failedKeys"
    using fin by (simp add: addToUnJailFunds_def SetStorage_def Let_def)
  have tr': "transfers (addToUnJailFunds v (CallValue args - tb) ?st3) =
      transfers st @ (if ?tb > 0 then [(CallerAddr args, RecipientAddr args, ?tb)] else [])"
    using tr tb by (simp add: addToUnJailFunds_def SetStorage_def Let_def)
  show ?thesis
    using res fin' tr' sto' funds' tb by (simp add: Let_def)
qed

theorem unJail_amended_witness:
  "flagEnableStaking (scenarioSC\<lparr>stakingSC := registryFailingUnJail ''bls2''\<rparr>)
   \<and> Arguments (aliceCall ''unJail'' 20 [''bls1'', ''bls2'']) \<noteq> []
   \<and> CallValue (aliceCall ''unJail'' 20 [''bls1'', ''bls2''])
        = UnJailPrice (epochConfig (scenarioSC\<lparr>stakingSC := registryFailingUnJail ''bls2''\<rparr>))
            * int (length (Arguments (aliceCall ''unJail'' 20 [''bls1'', ''bls2''])))
   \<and> UnJail (gasCost (scenarioSC\<lparr>stakingSC := registryFailingUnJail ''bls2''\<rparr>))
          * of_nat (length (Arguments (aliceCall ''unJail'' 20 [''bls1'', ''bls2'']))) 
        \<le> gasRemaining (hostWith aliceRecord)
   \<and> getOrCreateRegistrationData (scenarioSC\<lparr>stakingSC := registryFailingUnJail ''bls2''\<rparr>) ''alice''
        (hostWith aliceRecord) = Inr aliceRecord
   \<and> set (Arguments (aliceCall ''unJail'' 20 [''bls1'', ''bls2''])) \<subseteq> set (BlsPubKeys aliceRecord)
   \<and> fst (unJail (scenarioSC\<lparr>stakingSC := registryFailingUnJail ''bls2''\<rparr>)
            (aliceCall ''unJail'' 20 [''bls1'', ''bls2'']) (hostWith aliceRecord)) = Ok
   \<and> finishData (snd (unJail (scenarioSC\<lparr>stakingSC := registryFailingUnJail ''bls2''\<rparr>)
            (aliceCall ''unJail'' 20 [''bls1'', ''bls2'']) (hostWith aliceRecord))) = [''bls2'', failed]
   \<and> transfers (snd (unJail (scenarioSC\<lparr>stakingSC := registryFailingUnJail ''bls2''\<rparr>)
            (aliceCall ''unJail'' 20 [''bls1'', ''bls2'']) (hostWith aliceRecord)))
        = [(''alice'', ''validator'', 10)]
   \<and> unJailFunds (scenarioSC\<lparr>stakingSC := registryFailingUnJail ''bls2''\<rparr>) (hostWith aliceRecord) = 0
   \<and> unJailFunds (scenarioSC\<lparr>stakingSC := registryFailingUnJail ''bls2''\<rparr>)
        (snd (unJail (scenarioSC\<lparr>stakingSC := registryFailingUnJail ''bls2''\<rparr>)
            (aliceCall ''unJail'' 20 [''bls1'', ''bls2'']) (hostWith aliceRecord))) = 10"
proof -
  let ?v = "scenarioSC\<lparr>stakingSC := registryFailingUnJail ''bls2''\<rparr>"
  let ?call = "aliceCall ''unJail'' 20 [''bls1'', ''bls2'']"
  let ?st = "hostWith aliceRecord"
  have call: "CallerAddr ?call = ''alice''" "RecipientAddr ?call = ''validator''"
    "CallValue ?call = 20" "Arguments ?call = [''bls1'', ''bls2'']"
    by (simp_all add: aliceCall_def)
  have host: "finishData ?st = []" "transfers ?st = []" "calls ?st = []" "gasRemaining ?st = 1000"
    by (simp_all add: hostWith_def emptyHost_def)
  have v: "flagEnableStaking ?v" "UnJailPrice (epochConfig scenarioSC) = 10"
    "UnJail (gasCost scenarioSC) = 1" "stakingSC ?v = registryFailingUnJail ''bls2''"
    by (simp_all add: scenarioSC_def scenarioConfig_def scenarioGasCost_def)
  have load: "getOrCreateRegistrationData ?v ''alice'' ?st = Inr aliceRecord"
    by (simp add: getOrCreateRegistrationData_def GetStorage_def hostWith_def emptyHost_def)
  have keys: "BlsPubKeys aliceRecord = [''bls1'', ''bls2'']" "RewardAddress aliceRecord \<noteq> []"
    by (simp_all add: aliceRecord_def)
  have funds: "unJailFunds ?v ?st = 0"
    by (simp add: unJailFunds_def unJailedFunds_def SetBytes_def GetStorage_def hostWith_def
          emptyHost_def)
  have failedKeys: "failedUnJails ?v [] [''bls1'', ''bls2''] = [''bls2'']"
    by (simp add: v registryFailingUnJail_def)
  have h2: "Arguments ?call \<noteq> []" by (simp add: call)
  have h3: "CallValue ?call = UnJailPrice (epochConfig ?v) * int (length (Arguments ?call))"
    by (simp add: call v)
  have h4: "UnJail (gasCost ?v) * of_nat (length (Arguments ?call)) \<le> gasRemaining ?st"
    by (simp add: call v host)
  have h5: "getOrCreateRegistrationData ?v (CallerAddr ?call) ?st = Inr aliceRecord"
    by (simp add: call load)
  have h6: "set (Arguments ?call) \<subseteq> set (BlsPubKeys aliceRecord)"
    by (simp add: call keys)
  have res: "fst (unJail ?v ?call ?st) = Ok
      \<and> finishData (snd (unJail ?v ?call ?st)) = [''bls2'', failed]
      \<and> transfers (snd (unJail ?v ?call ?st)) = [(''alice'', ''validator'', 10)]
      \<and> unJailFunds ?v (snd (unJail ?v ?call ?st)) = 10"
    using unJail_amended [OF v(1) h2 h3 h4 h5 h6]
    by (simp add: Let_def call host v funds reportedFailed_def registryFailingUnJail_def)
  from v(1) h2 h3 h4 load h6 res funds show ?thesis by simp
qed

subsection \<open>cleanRegisteredData\<close>

lemma firstOccurrences_length: "length (firstOccurrences ks) \<le> length ks"
proof (induction ks rule: firstOccurrences.induct)
  case 1 then show ?case by simp
next
  case (2 k ks)
  have "length (firstOccurrences (removeAll k ks)) \<le> length ks"
    using 2 length_removeAll_less_eq by (rule le_trans)
  then show ?case by simp
qed

lemma getOrCreateRegistrationData_UseGas:
  "UseGas g st = Some st' \<Longrightarrow>
     getOrCreateRegistrationData v key st' = getOrCreateRegistrationData v key st"
  by (auto simp: UseGas_def getOrCreateRegistrationData_def GetStorage_def split: if_splits)

lemma removeAll_filter_insert:
  "removeAll k (filter (\<lambda>x. x \<notin> seen) ks) = filter (\<lambda>x. x \<notin> insert k seen) ks"
  by (induction ks) auto

lemma cleanRegisteredData_loop_spec:
  "cleanRegisteredData_loop ks seen acc ch =
     (acc @ firstOccurrences (filter (\<lambda>x. x \<notin> seen) ks),
      ch \<or> firstOccurrences (filter (\<lambda>x. x \<notin> seen) ks) \<noteq> ks)"
proof (induction ks arbitrary: seen acc ch)
  case Nil then show ?case by simp
next
  case (Cons k ks)
  show ?case
  proof (cases "k \<in> seen")
    case True
    have "length (firstOccurrences (filter (\<lambda>x. x \<notin> seen) ks)) \<le> length ks"
      using firstOccurrences_length [of "filter (\<lambda>x. x \<notin> seen) ks"] length_filter_le [of "\<lambda>x. x \<notin> seen" ks]
      by linarith
    then have "firstOccurrences (filter (\<lambda>x. x \<notin> seen) ks) \<noteq> k # ks" by auto
    with True Cons show ?thesis by simp
  next
    case False
    with Cons show ?thesis by (simp add: removeAll_filter_insert)
  qed
qed

lemma cleanRegisteredData_loop_start:
  "cleanRegisteredData_loop ks {} [] False = (firstOccurrences ks, firstOccurrences ks \<noteq> ks)"
  by (simp add: cleanRegisteredData_loop_spec)

lemma firstOccurrences_short: "length ks \<le> 1 \<Longrightarrow> firstOccurrences ks = ks"
  by (cases ks) auto

lemma firstOccurrences_removeAll:
  "firstOccurrences (removeAll k ks) = removeAll k (firstOccurrences ks)"
proof (induction ks rule: firstOccurrences.induct)
  case 1 then show ?case by simp
next
  case (2 x xs)
  show ?case
  proof (cases "x = k")
    case True
    with 2 show ?thesis by simp
  next
    case False
    have "removeAll x (removeAll k xs) = removeAll k (removeAll x xs)"
      by (simp add: removeAll_filter_not_eq conj_commute)
    with False 2 show ?thesis by simp
  qed
qed

lemma firstOccurrences_notin: "k \<notin> set (firstOccurrences (removeAll k ks))"
  by (simp add: firstOccurrences_removeAll)

lemma firstOccurrences_idem: "firstOccurrences (firstOccurrences ks) = firstOccurrences ks"
proof (induction ks rule: firstOccurrences.induct)
  case 1 then show ?case by simp
next
  case (2 k ks)
  have "removeAll k (firstOccurrences (removeAll k ks)) = firstOccurrences (removeAll k ks)"
    using firstOccurrences_notin [of k ks] by simp
  with 2 show ?case by simp
qed

lemma cleanRegisteredData_storage:
  assumes "getOrCreateRegistrationData v (CallerAddr args) st = Inr r"
  shows "storage (snd (cleanRegisteredData v args st)) = storage st
       \<or> (firstOccurrences (BlsPubKeys r) \<noteq> BlsPubKeys r
          \<and> storage (snd (cleanRegisteredData v args st)) =
              (storage st)(CallerAddr args :=
                 Some (Marshalled (r\<lparr>BlsPubKeys := firstOccurrences (BlsPubKeys r)\<rparr>))))"
  using assms
  by (auto simp: cleanRegisteredData_def cleanRegisteredData_loop_start saveRegistrationData_def
        SetStorage_def getOrCreateRegistrationData_def GetStorage_def Let_def
        split: option.splits if_splits storage_val.splits dest: storage_UseGas)

lemma cleanRegisteredData_storage_any:
  "storage (snd (cleanRegisteredData v args st)) = storage st
   \<or> (\<exists>r. getOrCreateRegistrationData v (CallerAddr args) st = Inr r
          \<and> firstOccurrences (BlsPubKeys r) \<noteq> BlsPubKeys r
          \<and> storage (snd (cleanRegisteredData v args st)) =
              (storage st)(CallerAddr args :=
                 Some (Marshalled (r\<lparr>BlsPubKeys := firstOccurrences (BlsPubKeys r)\<rparr>))))"
proof (cases "getOrCreateRegistrationData v (CallerAddr args) st")
  case (Inl e)
  then show ?thesis
    by (auto simp: cleanRegisteredData_def getOrCreateRegistrationData_UseGas
          split: option.splits if_splits dest: storage_UseGas)
next
  case (Inr r)
  then show ?thesis using cleanRegisteredData_storage [OF Inr] by auto
qed

text \<open>
  C9, as stated, fails: in the double-key era, with zero value and zero arguments, a call
  that cannot pay the gas returns \<open>OutOfGas\<close> and the duplicate stays in the stored
  \<open>BlsPubKeys\<close>.
\<close>

theorem cleanRegisteredData_counterexample:
  "flagDoubleKey scenarioSC
   \<and> CallValue (aliceCall ''cleanRegisteredData'' 0 []) = 0
   \<and> Arguments (aliceCall ''cleanRegisteredData'' 0 []) = []
   \<and> fst (cleanRegisteredData scenarioSC (aliceCall ''cleanRegisteredData'' 0 [])
            ((hostWith duplicateKeysRecord)\<lparr>gasRemaining := 0\<rparr>)) = OutOfGas
   \<and> storage (snd (cleanRegisteredData scenarioSC (aliceCall ''cleanRegisteredData'' 0 [])
            ((hostWith duplicateKeysRecord)\<lparr>gasRemaining := 0\<rparr>))) ''alice''
        = Some (Marshalled duplicateKeysRecord)
   \<and> BlsPubKeys duplicateKeysRecord = [''bls1'', ''bls2'', ''bls1'']"
  by (simp add: cleanRegisteredData_def duplicateKeysRecord_def host_defs scenario_defs)

text \<open>
  C9, amended. For every registration record, \<open>cleanRegisteredData\<close> in the double-key era,
  with zero value, zero arguments and enough gas, returns \<open>Ok\<close> and leaves the caller with
  the record whose \<open>BlsPubKeys\<close> keep the first occurrence of each key; storage is written
  only when that list differs from the old one; and a second application to the resulting
  state changes storage no further.
\<close>

theorem cleanRegisteredData_amended:
  assumes "flagDoubleKey v" and "Stake (gasCost v) \<le> gasRemaining st"
    and "CallValue args = 0" and "Arguments args = []"
    and "getOrCreateRegistrationData v (CallerAddr args) st = Inr r"
  shows "fst (cleanRegisteredData v args st) = Ok
       \<and> getOrCreateRegistrationData v (CallerAddr args) (snd (cleanRegisteredData v args st))
           = Inr (r\<lparr>BlsPubKeys := firstOccurrences (BlsPubKeys r)\<rparr>)
       \<and> (firstOccurrences (BlsPubKeys r) = BlsPubKeys r \<longrightarrow>
            storage (snd (cleanRegisteredData v args st)) = storage st)
       \<and> (firstOccurrences (BlsPubKeys r) \<noteq> BlsPubKeys r \<longrightarrow>
            storage (snd (cleanRegisteredData v args st)) =
              (storage st)(CallerAddr args :=
                 Some (Marshalled (r\<lparr>BlsPubKeys := firstOccurrences (BlsPubKeys r)\<rparr>))))
       \<and> storage (snd (cleanRegisteredData v args (snd (cleanRegisteredData v args st))))
           = storage (snd (cleanRegisteredData v args st))"
proof -
  let ?st' = "snd (cleanRegisteredData v args st)"
  have ok: "fst (cleanRegisteredData v args st) = Ok"
    using assms
    by (auto simp: cleanRegisteredData_def UseGas_enough cleanRegisteredData_loop_start
          saveRegistrationData_def Let_def getOrCreateRegistrationData_def GetStorage_def
          split: option.splits storage_val.splits if_splits)
  have same: "firstOccurrences (BlsPubKeys r) = BlsPubKeys r \<Longrightarrow> storage ?st' = storage st"
    using cleanRegisteredData_storage [OF assms(5)] by auto
  have changed: "firstOccurrences (BlsPubKeys r) \<noteq> BlsPubKeys r \<Longrightarrow>
      storage ?st' = (storage st)(CallerAddr args :=
                 Some (Marshalled (r\<lparr>BlsPubKeys := firstOccurrences (BlsPubKeys r)\<rparr>)))"
    using assms
    by (auto simp: cleanRegisteredData_def UseGas_enough cleanRegisteredData_loop_start
          saveRegistrationData_def SetStorage_def Let_def getOrCreateRegistrationData_def GetStorage_def
          firstOccurrences_short
          split: option.splits storage_val.splits if_splits)
  have load': "getOrCreateRegistrationData v (CallerAddr args) ?st'
                 = Inr (r\<lparr>BlsPubKeys := firstOccurrences (BlsPubKeys r)\<rparr>)"
  proof (cases "firstOccurrences (BlsPubKeys r) = BlsPubKeys r")
    case True
    with same assms(5) show ?thesis
      by (simp add: getOrCreateRegistrationData_def GetStorage_def)
  next
    case False
    with changed show ?thesis
      by (simp add: getOrCreateRegistrationData_def GetStorage_def)
  qed
  have idem: "storage (snd (cleanRegisteredData v args ?st')) = storage ?st'"
    using cleanRegisteredData_storage [OF load'] by (auto simp: firstOccurrences_idem)
  from ok load' same changed idem show ?thesis by blast
qed

theorem cleanRegisteredData_amended_witness:
  "flagDoubleKey scenarioSC \<and> Stake (gasCost scenarioSC) \<le> gasRemaining (hostWith duplicateKeysRecord)
   \<and> CallValue (aliceCall ''cleanRegisteredData'' 0 []) = 0
   \<and> Arguments (aliceCall ''cleanRegisteredData'' 0 []) = []
   \<and> getOrCreateRegistrationData scenarioSC ''alice'' (hostWith duplicateKeysRecord)
        = Inr duplicateKeysRecord
   \<and> fst (cleanRegisteredData scenarioSC (aliceCall ''cleanRegisteredData'' 0 [])
            (hostWith duplicateKeysRecord)) = Ok
   \<and> storage (snd (cleanRegisteredData scenarioSC (aliceCall ''cleanRegisteredData'' 0 [])
            (hostWith duplicateKeysRecord))) ''alice''
        = Some (Marshalled (aliceRecord\<lparr>BlsPubKeys := [''bls1'', ''bls2'']\<rparr>))"
proof -
  let ?call = "aliceCall ''cleanRegisteredData'' 0 []"
  let ?st = "hostWith duplicateKeysRecord"
  have call: "CallerAddr ?call = ''alice''" "CallValue ?call = 0" "Arguments ?call = []"
    by (simp_all add: aliceCall_def)
  have h1: "flagDoubleKey scenarioSC" by (simp add: scenarioSC_def)
  have h2: "Stake (gasCost scenarioSC) \<le> gasRemaining ?st"
    by (simp add: scenarioSC_def scenarioGasCost_def hostWith_def emptyHost_def)
  have load: "getOrCreateRegistrationData scenarioSC ''alice'' ?st = Inr duplicateKeysRecord"
    by (simp add: getOrCreateRegistrationData_def GetStorage_def hostWith_def emptyHost_def)
  have h5: "getOrCreateRegistrationData scenarioSC (CallerAddr ?call) ?st = Inr duplicateKeysRecord"
    by (simp add: call load)
  have keys: "firstOccurrences (BlsPubKeys duplicateKeysRecord) = [''bls1'', ''bls2'']"
    "BlsPubKeys duplicateKeysRecord = [''bls1'', ''bls2'', ''bls1'']"
    by (simp_all add: duplicateKeysRecord_def)
  have res: "fst (cleanRegisteredData scenarioSC ?call ?st) = Ok
      \<and> storage (snd (cleanRegisteredData scenarioSC ?call ?st)) ''alice''
          = Some (Marshalled (aliceRecord\<lparr>BlsPubKeys := [''bls1'', ''bls2'']\<rparr>))"
    using cleanRegisteredData_amended [OF h1 h2 call(2) call(3) h5]
    by (simp add: keys call duplicateKeysRecord_def)
  from h1 h2 call load res show ?thesis by simp
qed

subsection \<open>Pause and unpause\<close>

text \<open>
  C8, as stated, fails: after the end-of-epoch address has paused the contract, an
  \<open>unStakeTokens\<close> call of a caller without a registration returns \<open>UserError\<close> with the
  message of the registration check, not the paused message: \<open>unStakeTokens\<close> and
  \<open>unBondTokens\<close> run \<open>basicCheckForUnStakeUnBond\<close> before they look at the pause byte.
\<close>

theorem pause_counterexample:
  "flagEnableTopUp scenarioSC
   \<and> fst (pauseUnStakeUnBond scenarioSC (endOfEpochCall ''pauseUnStakeUnBond'') emptyHost) = Ok
   \<and> isUnStakeUnBondPaused scenarioSC pausedHost
   \<and> unStakeTokens scenarioSC (bobCall ''unStakeTokens'' 0 [[CHR 0x01]]) pausedHost
       = (UserError,
          AddReturnMessage ''key is not registered, validator operation is not possible'' pausedHost)
   \<and> ''key is not registered, validator operation is not possible'' \<noteq> pausedMessage"
  by (simp add: pausedHost_def pauseUnStakeUnBond_def endOfEpochCall_def bobCall_def
        isUnStakeUnBondPaused_def unStakeUnBondPauseKey_def unStakeTokens_def
        basicCheckForUnStakeUnBond_def pausedMessage_def emptyRegistrationData_def
        host_defs scenario_defs)

text \<open>
  C8, amended. In the top-up era, \<open>pauseUnStakeUnBond\<close> and \<open>unPauseStakeUnBond\<close> return \<open>Ok\<close>
  iff the caller is the end-of-epoch address, and \<open>UserError\<close> for any other caller; called
  by that address they set, respectively reset, the pause. While the contract is paused,
  \<open>unStake\<close>, \<open>unStakeNodes\<close>, \<open>unBond\<close> and \<open>unBondNodes\<close> return \<open>UserError\<close> with the paused
  message and change nothing else; \<open>unStakeTokens\<close> and \<open>unBondTokens\<close> return \<open>UserError\<close> and
  leave the contract paused, with the paused message when the call value is zero and the
  caller is registered.
\<close>

theorem pause_amended:
  assumes "flagEnableTopUp v"
  shows "(fst (pauseUnStakeUnBond v args st) = Ok \<longleftrightarrow> CallerAddr args = endOfEpochAddress v)
       \<and> (fst (unPauseStakeUnBond v args st) = Ok \<longleftrightarrow> CallerAddr args = endOfEpochAddress v)
       \<and> (CallerAddr args \<noteq> endOfEpochAddress v \<longrightarrow>
            fst (pauseUnStakeUnBond v args st) = UserError
            \<and> fst (unPauseStakeUnBond v args st) = UserError)
       \<and> (CallerAddr args = endOfEpochAddress v \<longrightarrow>
            isUnStakeUnBondPaused v (snd (pauseUnStakeUnBond v args st))
            \<and> \<not> isUnStakeUnBondPaused v (snd (unPauseStakeUnBond v args st)))
       \<and> (isUnStakeUnBondPaused v st \<longrightarrow>
            unStake v call st = (UserError, AddReturnMessage pausedMessage st)
            \<and> unStakeNodes v call st = (UserError, AddReturnMessage pausedMessage st)
            \<and> unBond v call st = (UserError, AddReturnMessage pausedMessage st)
            \<and> unBondNodes v call st = (UserError, AddReturnMessage pausedMessage st)
            \<and> fst (unStakeTokens v call st) = UserError
            \<and> fst (unBondTokens v call st) = UserError
            \<and> isUnStakeUnBondPaused v (snd (unStakeTokens v call st))
            \<and> isUnStakeUnBondPaused v (snd (unBondTokens v call st))
            \<and> isUnStakeUnBondPaused v (AddReturnMessage pausedMessage st)
            \<and> (CallValue call = 0
                 \<and> (\<exists>r. getOrCreateRegistrationData v (CallerAddr call) st = Inr r \<and> RewardAddress r \<noteq> [])
               \<longrightarrow> unStakeTokens v call st = (UserError, AddReturnMessage pausedMessage st)
                   \<and> unBondTokens v call st = (UserError, AddReturnMessage pausedMessage st)))"
proof -
  have p1: "fst (pauseUnStakeUnBond v args st) = Ok \<longleftrightarrow> CallerAddr args = endOfEpochAddress v"
    and p2: "fst (unPauseStakeUnBond v args st) = Ok \<longleftrightarrow> CallerAddr args = endOfEpochAddress v"
    and p3: "CallerAddr args \<noteq> endOfEpochAddress v \<longrightarrow>
            fst (pauseUnStakeUnBond v args st) = UserError
            \<and> fst (unPauseStakeUnBond v args st) = UserError"
    using assms by (auto simp: pauseUnStakeUnBond_def unPauseStakeUnBond_def)
  have p4: "CallerAddr args = endOfEpochAddress v \<longrightarrow>
            isUnStakeUnBondPaused v (snd (pauseUnStakeUnBond v args st))
            \<and> \<not> isUnStakeUnBondPaused v (snd (unPauseStakeUnBond v args st))"
    using assms
    by (auto simp: pauseUnStakeUnBond_def unPauseStakeUnBond_def isUnStakeUnBondPaused_def
          GetStorage_def SetStorage_def)
  have nodes: "isUnStakeUnBondPaused v st \<Longrightarrow>
            unStake v call st = (UserError, AddReturnMessage pausedMessage st)
            \<and> unStakeNodes v call st = (UserError, AddReturnMessage pausedMessage st)
            \<and> unBond v call st = (UserError, AddReturnMessage pausedMessage st)
            \<and> unBondNodes v call st = (UserError, AddReturnMessage pausedMessage st)"
    using assms by (simp add: unStake_def unStakeNodes_def unBond_def unBondNodes_def)
  have tokens: "isUnStakeUnBondPaused v st \<Longrightarrow>
            fst (unStakeTokens v call st) = UserError \<and> fst (unBondTokens v call st) = UserError
            \<and> storage (snd (unStakeTokens v call st)) = storage st
            \<and> storage (snd (unBondTokens v call st)) = storage st"
    using assms
    by (auto simp: unStakeTokens_def unBondTokens_def basicCheckForUnStakeUnBond_def
          split: sum.splits)
  have tokens': "isUnStakeUnBondPaused v st \<Longrightarrow> CallValue call = 0 \<Longrightarrow>
        getOrCreateRegistrationData v (CallerAddr call) st = Inr r \<Longrightarrow> RewardAddress r \<noteq> [] \<Longrightarrow>
        unStakeTokens v call st = (UserError, AddReturnMessage pausedMessage st)
        \<and> unBondTokens v call st = (UserError, AddReturnMessage pausedMessage st)" for r
    using assms
    by (simp add: unStakeTokens_def unBondTokens_def basicCheckForUnStakeUnBond_def)
  have persist: "isUnStakeUnBondPaused v st \<Longrightarrow>
            isUnStakeUnBondPaused v (snd (unStakeTokens v call st))
            \<and> isUnStakeUnBondPaused v (snd (unBondTokens v call st))
            \<and> isUnStakeUnBondPaused v (AddReturnMessage pausedMessage st)"
    using tokens by (simp add: isUnStakeUnBondPaused_def GetStorage_def)
  have paused: "isUnStakeUnBondPaused v st \<longrightarrow>
            unStake v call st = (UserError, AddReturnMessage pausedMessage st)
            \<and> unStakeNodes v call st = (UserError, AddReturnMessage pausedMessage st)
            \<and> unBond v call st = (UserError, AddReturnMessage pausedMessage st)
            \<and> unBondNodes v call st = (UserError, AddReturnMessage pausedMessage st)
            \<and> fst (unStakeTokens v call st) = UserError
            \<and> fst (unBondTokens v call st) = UserError
            \<and> isUnStakeUnBondPaused v (snd (unStakeTokens v call st))
            \<and> isUnStakeUnBondPaused v (snd (unBondTokens v call st))
            \<and> isUnStakeUnBondPaused v (AddReturnMessage pausedMessage st)
            \<and> (CallValue call = 0
                 \<and> (\<exists>r. getOrCreateRegistrationData v (CallerAddr call) st = Inr r \<and> RewardAddress r \<noteq> [])
               \<longrightarrow> unStakeTokens v call st = (UserError, AddReturnMessage pausedMessage st)
                   \<and> unBondTokens v call st = (UserError, AddReturnMessage pausedMessage st))"
  proof
    assume p: "isUnStakeUnBondPaused v st"
    have t: "CallValue call = 0
                 \<and> (\<exists>r. getOrCreateRegistrationData v (CallerAddr call) st = Inr r \<and> RewardAddress r \<noteq> [])
               \<longrightarrow> unStakeTokens v call st = (UserError, AddReturnMessage pausedMessage st)
                   \<and> unBondTokens v call st = (UserError, AddReturnMessage pausedMessage st)"
      using tokens' [OF p] by blast
    from nodes [OF p] tokens [OF p] persist [OF p] t
    show "unStake v call st = (UserError, AddReturnMessage pausedMessage st)
            \<and> unStakeNodes v call st = (UserError, AddReturnMessage pausedMessage st)
            \<and> unBond v call st = (UserError, AddReturnMessage pausedMessage st)
            \<and> unBondNodes v call st = (UserError, AddReturnMessage pausedMessage st)
            \<and> fst (unStakeTokens v call st) = UserError
            \<and> fst (unBondTokens v call st) = UserError
            \<and> isUnStakeUnBondPaused v (snd (unStakeTokens v call st))
            \<and> isUnStakeUnBondPaused v (snd (unBondTokens v call st))
            \<and> isUnStakeUnBondPaused v (AddReturnMessage pausedMessage st)
            \<and> (CallValue call = 0
                 \<and> (\<exists>r. getOrCreateRegistrationData v (CallerAddr call) st = Inr r \<and> RewardAddress r \<noteq> [])
               \<longrightarrow> unStakeTokens v call st = (UserError, AddReturnMessage pausedMessage st)
                   \<and> unBondTokens v call st = (UserError, AddReturnMessage pausedMessage st))"
      by (intro conjI) (simp_all only:)
  qed
  from p1 p2 p3 p4 paused show ?thesis by (intro conjI)
qed

theorem pause_amended_witness:
  "flagEnableTopUp scenarioSC
   \<and> CallerAddr (endOfEpochCall ''pauseUnStakeUnBond'') = endOfEpochAddress scenarioSC
   \<and> isUnStakeUnBondPaused scenarioSC pausedHost
   \<and> unStake scenarioSC (aliceCall ''unStake'' 0 [''bls1'']) pausedHost
        = (UserError, AddReturnMessage pausedMessage pausedHost)
   \<and> fst (unBondTokens scenarioSC (aliceCall ''unBondTokens'' 0 []) pausedHost) = UserError
   \<and> \<not> isUnStakeUnBondPaused scenarioSC
         (snd (unPauseStakeUnBond scenarioSC (endOfEpochCall ''unPauseUnStakeUnBond'') pausedHost))"
proof -
  have topUp: "flagEnableTopUp scenarioSC" by (simp add: scenario_defs)
  have caller: "CallerAddr (endOfEpochCall ''pauseUnStakeUnBond'') = endOfEpochAddress scenarioSC"
    "CallerAddr (endOfEpochCall ''unPauseUnStakeUnBond'') = endOfEpochAddress scenarioSC"
    by (simp_all add: endOfEpochCall_def scenario_defs)
  have paused: "isUnStakeUnBondPaused scenarioSC pausedHost"
    using pause_amended [OF topUp, of "endOfEpochCall ''pauseUnStakeUnBond''" emptyHost] caller
    by (simp add: pausedHost_def)
  show ?thesis
    using topUp caller paused
      pause_amended [OF topUp, of "endOfEpochCall ''unPauseUnStakeUnBond''" pausedHost
        "aliceCall ''unStake'' 0 [''bls1'']"]
      pause_amended [OF topUp, of "endOfEpochCall ''unPauseUnStakeUnBond''" pausedHost
        "aliceCall ''unBondTokens'' 0 []"]
    by simp
qed

subsection \<open>Deleting drained records\<close>

lemma deleteUnBondedKeys_fields [simp]:
  "TotalStakeValue (deleteUnBondedKeys r ks) = TotalStakeValue r"
  "LockedStake (deleteUnBondedKeys r ks) = LockedStake r"
  "TotalUnstaked (deleteUnBondedKeys r ks) = TotalUnstaked r"
  "UnstakedInfo (deleteUnBondedKeys r ks) = UnstakedInfo r"
  by (induction ks arbitrary: r) auto

lemma storage_Transfer: "Transfer d s x st = (e, st') \<Longrightarrow> storage st' = storage st \<and> e = None"
  by (auto simp: Transfer_def)

lemma checkUnBondArguments_Inl:
  "checkUnBondArguments v args st = (Inl rc, st') \<Longrightarrow> rc \<noteq> Ok \<and> storage st' = storage st"
  by (auto simp: checkUnBondArguments_def split: if_splits sum.splits option.splits)

lemma checkUnBondArguments_Inr:
  "checkUnBondArguments v args st = (Inr r, st') \<Longrightarrow>
     storage st' = storage st \<and> getOrCreateRegistrationData v (CallerAddr args) st = Inr r"
  by (auto simp: checkUnBondArguments_def split: if_splits sum.splits option.splits
        dest: storage_UseGas)

lemma unBondTokensFromRegistrationData_Inl:
  "unBondTokensFromRegistrationData v r ceiling st = (Inl rc, r', st') \<Longrightarrow>
     rc = UserError \<and> storage st' = storage st"
  by (auto simp: unBondTokensFromRegistrationData_def Let_def split: prod.splits if_splits)

lemma unBondTokensFromRegistrationData_Inr:
  "unBondTokensFromRegistrationData v r ceiling st = (Inr totalUnBond, r', st') \<Longrightarrow> st' = st"
  by (auto simp: unBondTokensFromRegistrationData_def Let_def split: prod.splits if_splits)

lemma unBondV1_Ok:
  "fst (unBondV1 v args st) = Ok \<Longrightarrow>
     absentOr (\<lambda>r. \<not> (LockedStake r = 0 \<and> TotalStakeValue r = 0)) (snd (unBondV1 v args st))
       (CallerAddr args)"
  by (auto simp: unBondV1_def absentOr_def Let_def saveRegistrationData_def SetStorage_def
        Transfer_def split: prod.splits sum.splits if_splits dest: checkUnBondArguments_Inl)

lemma updateRegistrationDataAfterUnBond_Ok:
  "updateRegistrationDataAfterUnBond v r ks caller st = (rc, st') \<Longrightarrow>
     rc = Ok \<longrightarrow> absentOr (\<lambda>r. TotalStakeValue r \<noteq> 0) st' caller"
  by (auto simp: updateRegistrationDataAfterUnBond_def absentOr_def Let_def saveRegistrationData_def
        SetStorage_def split: if_splits)

lemma absentOr_storage: "storage st' = storage st \<Longrightarrow> absentOr P st' key = absentOr P st key"
  by (simp add: absentOr_def)

lemma unBond_topUp_Ok:
  assumes "flagEnableTopUp v" and "fst (unBond v args st) = Ok"
  shows "absentOr (\<lambda>r. TotalStakeValue r \<noteq> 0) (snd (unBond v args st)) (CallerAddr args)"
proof -
  from assms obtain r st1 where chk: "checkUnBondArguments v args st = (Inr r, st1)"
    by (auto simp: unBond_def split: if_splits prod.splits sum.splits dest: checkUnBondArguments_Inl)
  obtain ks st2 where nodes: "unBondNodesFromStakingSC v (Arguments args) st1 = (ks, st2)"
    by (cases "unBondNodesFromStakingSC v (Arguments args) st1")
  from assms chk nodes obtain total r' st3 where
    tok: "unBondTokensFromRegistrationData v r
            (NodePrice (getConfig v (CurrentEpoch v)) * int (length ks)) st2 = (Inr total, r', st3)"
    by (auto simp: unBond_def Let_def split: if_splits prod.splits sum.splits
          dest: unBondTokensFromRegistrationData_Inl)
  obtain rc st4 where upd: "updateRegistrationDataAfterUnBond v r' ks (CallerAddr args) st3 = (rc, st4)"
    by (cases "updateRegistrationDataAfterUnBond v r' ks (CallerAddr args) st3")
  from assms chk nodes tok upd have rc: "rc = Ok"
    and res: "storage (snd (unBond v args st)) = storage st4"
    by (auto simp: unBond_def Let_def Transfer_def split: if_splits)
  from updateRegistrationDataAfterUnBond_Ok [OF upd] rc
  have "absentOr (\<lambda>r. TotalStakeValue r \<noteq> 0) st4 (CallerAddr args)" by simp
  with res show ?thesis by (simp add: absentOr_def)
qed

lemma unBondNodes_Ok:
  assumes "fst (unBondNodes v args st) = Ok"
  shows "absentOr (\<lambda>r. TotalStakeValue r \<noteq> 0) (snd (unBondNodes v args st)) (CallerAddr args)"
proof -
  from assms obtain r st1 where chk: "checkUnBondArguments v args st = (Inr r, st1)"
    by (auto simp: unBondNodes_def split: if_splits prod.splits sum.splits
          dest: checkUnBondArguments_Inl)
  obtain ks st2 where nodes: "unBondNodesFromStakingSC v (Arguments args) st1 = (ks, st2)"
    by (cases "unBondNodesFromStakingSC v (Arguments args) st1")
  obtain rc st3 where upd: "updateRegistrationDataAfterUnBond v r ks (CallerAddr args) st2 = (rc, st3)"
    by (cases "updateRegistrationDataAfterUnBond v r ks (CallerAddr args) st2")
  from assms chk nodes upd have rc: "rc = Ok" and res: "snd (unBondNodes v args st) = st3"
    by (auto simp: unBondNodes_def split: if_splits)
  from updateRegistrationDataAfterUnBond_Ok [OF upd] rc res show ?thesis by simp
qed

lemma absentOr_mono:
  "absentOr P st key \<Longrightarrow> (\<And>r. P r \<Longrightarrow> Q r) \<Longrightarrow> absentOr Q st key"
  by (auto simp: absentOr_def split: option.splits storage_val.splits)

lemma absentOr_not_storedDrained:
  "absentOr (\<lambda>r. \<not> drained r) st key \<Longrightarrow> \<not> storedDrained st key"
  by (auto simp: absentOr_def storedDrained_def split: option.splits storage_val.splits)

lemma unBond_Ok_not_drained:
  assumes "fst (unBond v args st) = Ok"
  shows "absentOr (\<lambda>r. \<not> drained r) (snd (unBond v args st)) (CallerAddr args)"
proof (cases "flagEnableTopUp v")
  case True
  from True assms
  have "absentOr (\<lambda>r. TotalStakeValue r \<noteq> 0) (snd (unBond v args st)) (CallerAddr args)"
    by (rule unBond_topUp_Ok)
  then show ?thesis by (rule absentOr_mono) (simp add: drained_def)
next
  case False
  with assms have "fst (unBondV1 v args st) = Ok" by (simp add: unBond_def)
  then have "absentOr (\<lambda>r. \<not> (LockedStake r = 0 \<and> TotalStakeValue r = 0)) (snd (unBondV1 v args st))
       (CallerAddr args)" by (rule unBondV1_Ok)
  then have "absentOr (\<lambda>r. \<not> drained r) (snd (unBondV1 v args st)) (CallerAddr args)"
    by (rule absentOr_mono) (auto simp: drained_def)
  with False show ?thesis by (simp add: unBond_def)
qed

lemma unBondNodes_Ok_not_drained:
  assumes "fst (unBondNodes v args st) = Ok"
  shows "absentOr (\<lambda>r. \<not> drained r) (snd (unBondNodes v args st)) (CallerAddr args)"
proof -
  from assms have "absentOr (\<lambda>r. TotalStakeValue r \<noteq> 0) (snd (unBondNodes v args st)) (CallerAddr args)"
    by (rule unBondNodes_Ok)
  then show ?thesis by (rule absentOr_mono) (simp add: drained_def)
qed

text \<open>
  C1, amended. For every \<open>unBond\<close> call (in both eras) and every \<open>unBondNodes\<close> call that
  returns \<open>Ok\<close>: if the caller's record ends with \<open>TotalStakeValue\<close>, \<open>LockedStake\<close> and
  \<open>TotalUnstaked\<close> all zero, the record is deleted from contract storage. After the call the
  caller's key holds no record, or a record in which the three amounts are not all zero.
\<close>

theorem unBond_deletes_drained:
  "(fst (unBond v args st) = Ok \<longrightarrow>
      absentOr (\<lambda>r. \<not> drained r) (snd (unBond v args st)) (CallerAddr args)
      \<and> \<not> storedDrained (snd (unBond v args st)) (CallerAddr args))
   \<and> (fst (unBondNodes v args st) = Ok \<longrightarrow>
      absentOr (\<lambda>r. \<not> drained r) (snd (unBondNodes v args st)) (CallerAddr args)
      \<and> \<not> storedDrained (snd (unBondNodes v args st)) (CallerAddr args))"
  using unBond_Ok_not_drained [of v args st] unBondNodes_Ok_not_drained [of v args st]
  by (blast dest: absentOr_not_storedDrained)

lemmas unBond_defs = unBond_def checkUnBondArguments_def unBondNodesFromStakingSC_def
  unBondTokensFromRegistrationData_def updateRegistrationDataAfterUnBond_def
  isUnStakeUnBondPaused_def unStakeUnBondPauseKey_def

text \<open>
  C1, as stated, fails for \<open>unBondTokens\<close>. A caller with no stake and no locked stake whose
  only pending entry, of 3000, has matured gets \<open>Ok\<close> and the 3000 transferred, and the
  record, now with all three amounts zero, is still stored under the caller's key.
\<close>

theorem unBondTokens_keeps_drained_record_counterexample:
  "fst (unBondTokens scenarioSC (aliceCall ''unBondTokens'' 0 []) (hostWith maturedPendingRecord)) = Ok
   \<and> storage (snd (unBondTokens scenarioSC (aliceCall ''unBondTokens'' 0 [])
        (hostWith maturedPendingRecord))) ''alice''
       = Some (Marshalled (maturedPendingRecord\<lparr>UnstakedInfo := [], TotalUnstaked := 0\<rparr>))
   \<and> drained (maturedPendingRecord\<lparr>UnstakedInfo := [], TotalUnstaked := 0\<rparr>)
   \<and> transfers (snd (unBondTokens scenarioSC (aliceCall ''unBondTokens'' 0 [])
        (hostWith maturedPendingRecord))) = [(''alice'', ''validator'', 3000)]"
  by (simp add: unBondTokens_def basicCheckForUnStakeUnBond_def unBondTokensFromRegistrationData_def
        isUnStakeUnBondPaused_def unStakeUnBondPauseKey_def drained_def maturedPendingRecord_def
        host_defs scenario_defs)

text \<open>The owner's last node, unstaked before, is unbonded together with the matured pending
  2500: the 2500 are transferred and the record, whose three amounts are now zero, is deleted.
  An owner with stake left keeps the record after \<open>unBondNodes\<close>.\<close>

theorem unBond_deletes_drained_witness:
  "fst (unBond scenarioSC (aliceCall ''unBond'' 0 [''bls1'']) (hostWith lastNodeRecord)) = Ok
   \<and> transfers (snd (unBond scenarioSC (aliceCall ''unBond'' 0 [''bls1'']) (hostWith lastNodeRecord)))
       = [(''alice'', ''validator'', 2500)]
   \<and> storage (snd (unBond scenarioSC (aliceCall ''unBond'' 0 [''bls1'']) (hostWith lastNodeRecord)))
        ''alice'' = None
   \<and> absentOr (\<lambda>r. \<not> drained r)
        (snd (unBond scenarioSC (aliceCall ''unBond'' 0 [''bls1'']) (hostWith lastNodeRecord))) ''alice''
   \<and> \<not> storedDrained
        (snd (unBond scenarioSC (aliceCall ''unBond'' 0 [''bls1'']) (hostWith lastNodeRecord))) ''alice''
   \<and> fst (unBondNodes scenarioSC (aliceCall ''unBondNodes'' 0 [''bls1'']) (hostWith aliceRecord)) = Ok
   \<and> absentOr (\<lambda>r. \<not> drained r)
        (snd (unBondNodes scenarioSC (aliceCall ''unBondNodes'' 0 [''bls1'']) (hostWith aliceRecord)))
        ''alice''
   \<and> \<not> storedDrained
        (snd (unBondNodes scenarioSC (aliceCall ''unBondNodes'' 0 [''bls1'']) (hostWith aliceRecord)))
        ''alice''"
proof -
  have ok: "fst (unBond scenarioSC (aliceCall ''unBond'' 0 [''bls1'']) (hostWith lastNodeRecord)) = Ok"
    by (simp add: unBond_defs lastNodeRecord_def host_defs scenario_defs)
  have paid: "transfers (snd (unBond scenarioSC (aliceCall ''unBond'' 0 [''bls1''])
        (hostWith lastNodeRecord))) = [(''alice'', ''validator'', 2500)]"
    by (simp add: unBond_defs lastNodeRecord_def host_defs scenario_defs)
  have gone: "storage (snd (unBond scenarioSC (aliceCall ''unBond'' 0 [''bls1''])
        (hostWith lastNodeRecord))) ''alice'' = None"
    by (simp add: unBond_defs lastNodeRecord_def host_defs scenario_defs)
  have ok2: "fst (unBondNodes scenarioSC (aliceCall ''unBondNodes'' 0 [''bls1''])
        (hostWith aliceRecord)) = Ok"
    by (simp add: unBondNodes_def unBond_defs host_defs scenario_defs)
  have caller: "CallerAddr (aliceCall ''unBond'' 0 [''bls1'']) = ''alice''"
    "CallerAddr (aliceCall ''unBondNodes'' 0 [''bls1'']) = ''alice''"
    by (simp_all add: aliceCall_def)
  from unBond_deletes_drained [of scenarioSC "aliceCall ''unBond'' 0 [''bls1'']"
        "hostWith lastNodeRecord"] ok caller
  have a: "absentOr (\<lambda>r. \<not> drained r)
        (snd (unBond scenarioSC (aliceCall ''unBond'' 0 [''bls1'']) (hostWith lastNodeRecord))) ''alice''
     \<and> \<not> storedDrained
        (snd (unBond scenarioSC (aliceCall ''unBond'' 0 [''bls1'']) (hostWith lastNodeRecord))) ''alice''"
    by simp
  from unBond_deletes_drained [of scenarioSC "aliceCall ''unBondNodes'' 0 [''bls1'']"
        "hostWith aliceRecord"] ok2 caller
  have b: "absentOr (\<lambda>r. \<not> drained r)
        (snd (unBondNodes scenarioSC (aliceCall ''unBondNodes'' 0 [''bls1'']) (hostWith aliceRecord)))
        ''alice''
     \<and> \<not> storedDrained
        (snd (unBondNodes scenarioSC (aliceCall ''unBondNodes'' 0 [''bls1'']) (hostWith aliceRecord)))
        ''alice''"
    by simp
  from ok paid gone a ok2 b show ?thesis by blast
qed

subsection \<open>stake with insufficient funds\<close>

lemma issuedOnly_iff: "issuedOnly P st st' \<longleftrightarrow> (\<exists>cs. calls st' = calls st @ cs \<and> list_all P cs)"
proof
  assume "issuedOnly P st st'"
  then have "calls st' = calls st @ drop (length (calls st)) (calls st')"
    and "list_all P (drop (length (calls st)) (calls st'))"
    by (auto simp: issuedOnly_def) (metis append_take_drop_id)
  then show "\<exists>cs. calls st' = calls st @ cs \<and> list_all P cs" by blast
next
  assume "\<exists>cs. calls st' = calls st @ cs \<and> list_all P cs"
  then show "issuedOnly P st st'" by (auto simp: issuedOnly_def)
qed

lemma issuedOnly_refl: "calls st' = calls st \<Longrightarrow> issuedOnly P st st'"
  by (simp add: issuedOnly_def)

lemma issuedOnly_trans: "issuedOnly P a b \<Longrightarrow> issuedOnly P b c \<Longrightarrow> issuedOnly P a c"
  by (auto simp: issuedOnly_iff)

lemma issuedOnly_step:
  "executeOnStakingSC v cmd st = (res, st') \<Longrightarrow> P cmd \<Longrightarrow> issuedOnly P st st'"
  by (auto simp: issuedOnly_iff executeOnStakingSC_def)

lemma issuedOnly_calls_eq: "issuedOnly P st st' \<Longrightarrow> calls st'' = calls st' \<Longrightarrow> issuedOnly P st st''"
  by (simp add: issuedOnly_def)

lemma transfers_executeOnStakingSC:
  "executeOnStakingSC v c st = (res, st') \<Longrightarrow> transfers st' = transfers st"
  by (auto simp: executeOnStakingSC_def)

lemma getVerifiedBLSKeysFromArgs_loop_frame:
  "getVerifiedBLSKeysFromArgs_loop v pk args bound i ks bad st = Some (ks', bad', st') \<Longrightarrow>
     storage st' = storage st \<and> calls st' = calls st \<and> transfers st' = transfers st"
proof (induction v pk args bound i ks bad st rule: getVerifiedBLSKeysFromArgs_loop.induct)
  case (1 v pk args bound i ks bad st)
  show ?case
  proof (cases "i < bound")
    case False
    with "1.prems" show ?thesis by (simp add: getVerifiedBLSKeysFromArgs_loop.simps)
  next
    case True
    note lt = this
    show ?thesis
    proof (cases "i + 1 < length args")
      case False
      with lt "1.prems" show ?thesis
        by (subst (asm) getVerifiedBLSKeysFromArgs_loop.simps) simp
    next
      case True
      note inr = this
      show ?thesis
      proof (cases "sigVerifier v pk (args ! (i + 1)) (args ! i)")
        case True
        with lt inr "1.prems"
        have "getVerifiedBLSKeysFromArgs_loop v pk args bound (i + 2) (ks @ [args ! i]) bad st
                = Some (ks', bad', st')"
          by (subst (asm) getVerifiedBLSKeysFromArgs_loop.simps) (simp add: Let_def)
        from "1.IH"(2) [OF lt inr refl refl _ this] True show ?thesis by simp
      next
        case False
        with lt inr "1.prems"
        have "getVerifiedBLSKeysFromArgs_loop v pk args bound (i + 2) ks
                (bad @ [EncodeToString (args ! i)]) (Finish invalidKey (Finish (args ! i) st))
                = Some (ks', bad', st')"
          by (subst (asm) getVerifiedBLSKeysFromArgs_loop.simps) (simp add: Let_def)
        from "1.IH"(1) [OF lt inr refl refl _ this] False show ?thesis by simp
      qed
    qed
  qed
qed

lemma getVerifiedBLSKeysFromArgs_frame:
  "getVerifiedBLSKeysFromArgs v pk args st = Some (ks, st') \<Longrightarrow>
     storage st' = storage st \<and> calls st' = calls st \<and> transfers st' = transfers st"
  by (auto simp: getVerifiedBLSKeysFromArgs_def Let_def split: option.splits if_splits
        dest!: getVerifiedBLSKeysFromArgs_loop_frame)

lemma getNewValidKeys_loop_frame:
  "getNewValidKeys_loop v ks st = (res, st') \<Longrightarrow>
     storage st' = storage st \<and> transfers st' = transfers st \<and> issuedOnly probeOrRegister st st'"
proof (induction ks arbitrary: st)
  case Nil
  then show ?case by (simp add: issuedOnly_refl)
next
  case (Cons k ks)
  obtain r st1 where ex: "executeOnStakingSC v (SC_get k) st = (r, st1)"
    by (cases "executeOnStakingSC v (SC_get k) st")
  have s1: "storage st1 = storage st" "transfers st1 = transfers st"
    "issuedOnly probeOrRegister st st1"
    using ex by (auto dest: storage_executeOnStakingSC transfers_executeOnStakingSC
        intro: issuedOnly_step)
  show ?case
  proof (cases "st' = st1")
    case True
    with s1 show ?thesis by simp
  next
    case False
    with Cons.prems ex have "getNewValidKeys_loop v ks st1 = (res, st')"
      by (auto simp: getBLSRegisteredData_def split: sum.splits if_splits)
    from Cons.IH [OF this] s1 show ?thesis by (auto intro: issuedOnly_trans)
  qed
qed

lemma getNewValidKeys_frame:
  "getNewValidKeys v registered ks st = (res, st') \<Longrightarrow>
     storage st' = storage st \<and> transfers st' = transfers st \<and> issuedOnly probeOrRegister st st'"
  by (auto simp: getNewValidKeys_def Let_def split: prod.splits option.splits
        dest!: getNewValidKeys_loop_frame)

lemma registerBLSKeys_loop_frame:
  "registerBLSKeys_loop v owner ks r st = (ex, r', st') \<Longrightarrow>
     storage st' = storage st \<and> transfers st' = transfers st \<and> issuedOnly probeOrRegister st st'
     \<and> TotalStakeValue r' = TotalStakeValue r \<and> TotalUnstaked r' = TotalUnstaked r
     \<and> UnstakedInfo r' = UnstakedInfo r"
proof (induction ks arbitrary: r st)
  case Nil
  then show ?case by (simp add: issuedOnly_refl)
next
  case (Cons k ks)
  obtain res st1 where ex: "executeOnStakingSC v (SC_register k (RewardAddress r) owner) st = (res, st1)"
    by (cases "executeOnStakingSC v (SC_register k (RewardAddress r) owner) st")
  have s1: "storage st1 = storage st" "transfers st1 = transfers st"
    "issuedOnly probeOrRegister st st1"
    using ex by (auto dest: storage_executeOnStakingSC transfers_executeOnStakingSC
        intro: issuedOnly_step)
  show ?case
  proof (cases "subCallFailed res")
    case True
    with Cons.prems ex s1 show ?thesis
      by (cases res) (auto split: if_splits intro: issuedOnly_calls_eq)
  next
    case False
    with Cons.prems ex
    have "registerBLSKeys_loop v owner ks (r\<lparr>BlsPubKeys := BlsPubKeys r @ [k]\<rparr>) st1 = (ex, r', st')"
      by (cases res) (auto split: if_splits)
    from Cons.IH [OF this] s1 show ?thesis by (auto intro: issuedOnly_trans)
  qed
qed

lemma registerBLSKeys_frame:
  "registerBLSKeys v r pk owner args st = Some (res, r', st') \<Longrightarrow>
     storage st' = storage st \<and> transfers st' = transfers st \<and> issuedOnly probeOrRegister st st'
     \<and> TotalStakeValue r' = TotalStakeValue r \<and> TotalUnstaked r' = TotalUnstaked r
     \<and> UnstakedInfo r' = UnstakedInfo r"
proof -
  assume a: "registerBLSKeys v r pk owner args st = Some (res, r', st')"
  show ?thesis
  proof (cases "of_nat (length args) < Uint64 (SetBytes (args ! 0)) + 1")
    case True
    with a show ?thesis by (auto simp: registerBLSKeys_def Let_def issuedOnly_refl)
  next
    case False
    with a obtain ks st1 where ver: "getVerifiedBLSKeysFromArgs v pk args st = Some (ks, st1)"
      by (auto simp: registerBLSKeys_def Let_def split: option.splits)
    obtain nres st2 where new: "getNewValidKeys v (BlsPubKeys r) ks st1 = (nres, st2)"
      by (cases "getNewValidKeys v (BlsPubKeys r) ks st1")
    from getVerifiedBLSKeysFromArgs_frame [OF ver] getNewValidKeys_frame [OF new]
    have s2: "storage st2 = storage st" "transfers st2 = transfers st"
      "issuedOnly probeOrRegister st st2"
      by (auto simp: issuedOnly_def)
    show ?thesis
    proof (cases nres)
      case (Inl e)
      with a False ver new s2 show ?thesis by (auto simp: registerBLSKeys_def Let_def)
    next
      case (Inr newKeys)
      obtain ex r3 st3 where lp: "registerBLSKeys_loop v owner newKeys r st2 = (ex, r3, st3)"
        by (cases "registerBLSKeys_loop v owner newKeys r st2") auto
      from a False ver new Inr lp have "r' = r3" "st' = st3"
        by (auto simp: registerBLSKeys_def Let_def split: registerExit.splits)
      with registerBLSKeys_loop_frame [OF lp] s2 show ?thesis
        by (auto intro: issuedOnly_trans)
    qed
  qed
qed

text \<open>
  C4, amended. For every \<open>stake\<close> call with node arguments that reaches the funds check (gas
  is charged, the arguments are valid, the new valid keys are registered without error
  and, in the double-key era, no verified key occurs twice) where the length of the owner's
  \<open>BlsPubKeys\<close> exceeds \<open>TotalStakeValue / NodePrice\<close> after adding the call value, the handler
  returns \<open>OutOfFunds\<close>; up to then it has written nothing to contract storage, made no
  transfer, and issued to the Staking Registry only \<open>get\<close> probes and \<open>register\<close> commands
  (no \<open>stake\<close> command).
\<close>

theorem stake_under_funded:
  assumes "Stake (gasCost v) \<le> gasRemaining st"
    and "CurrentNonce v = 0 \<or> flagEnableStaking v"
    and "getOrCreateRegistrationData v (CallerAddr args) st = Inr r0"
    and "NodePrice (epochConfig v) \<le> TotalStakeValue r0 + CallValue args
           \<or> IsSmartContractAddress v (CallerAddr args)"
    and "Arguments args \<noteq> []" and "isNumArgsCorrectToStake (Arguments args)"
    and "Uint64 (SetBytes (Arguments args ! 0)) \<noteq> 0"
    and "(Uint64 (SetBytes (Arguments args ! 0)) - 1) * Stake (gasCost v)
           \<le> gasRemaining st - Stake (gasCost v)"
    and "registerBLSKeys v
           (r0\<lparr>TotalStakeValue := TotalStakeValue r0 + CallValue args,
               RewardAddress := (if RewardAddress r0 = [] then CallerAddr args else RewardAddress r0),
               MaxStakePerNode := TotalStakeValue r0 + CallValue args,
               Epoch := CurrentEpoch v\<rparr>)
           (CallerAddr args) (CallerAddr args) (Arguments args)
           (st\<lparr>gasRemaining := gasRemaining st - Stake (gasCost v)
                  - (Uint64 (SetBytes (Arguments args ! 0)) - 1) * Stake (gasCost v)\<rparr>)
         = Some (Inr blsKeys, r2, st3)"
    and "\<not> (flagDoubleKey v \<and> checkDoubleBLSKeys blsKeys)"
    and "NodePrice (epochConfig v) \<noteq> 0"
    and "of_nat (length (BlsPubKeys r2))
           > Uint64 (Div (TotalStakeValue r2) (NodePrice (epochConfig v)))"
  shows "stake v args st = Some (OutOfFunds, AddReturnMessage ''insufficient funds'' st3)
       \<and> TotalStakeValue r2 = TotalStakeValue r0 + CallValue args
       \<and> storage st3 = storage st \<and> transfers st3 = transfers st
       \<and> issuedOnly probeOrRegister st st3"
proof -
  let ?st1 = "st\<lparr>gasRemaining := gasRemaining st - Stake (gasCost v)\<rparr>"
  let ?st2 = "st\<lparr>gasRemaining := gasRemaining st - Stake (gasCost v)
                  - (Uint64 (SetBytes (Arguments args ! 0)) - 1) * Stake (gasCost v)\<rparr>"
  have g1: "UseGas (Stake (gasCost v)) st = Some ?st1"
    using assms(1) by (rule UseGas_enough)
  have g2: "UseGas ((Uint64 (SetBytes (Arguments args ! 0)) - 1) * Stake (gasCost v)) ?st1 = Some ?st2"
    using assms(8) UseGas_enough [of "(Uint64 (SetBytes (Arguments args ! 0)) - 1) * Stake (gasCost v)" ?st1]
    by simp
  have load1: "getOrCreateRegistrationData v (CallerAddr args) ?st1 = Inr r0"
    using assms(3) by (simp add: getOrCreateRegistrationData_def GetStorage_def)
  have res: "stake v args st = Some (OutOfFunds, AddReturnMessage ''insufficient funds'' st3)"
    using assms(2,4-7,10-12) g1 g2 load1 assms(9)
    by (simp add: stake_def getConfig_def Let_def not_less split: if_splits)
  from registerBLSKeys_frame [OF assms(9)]
  have "storage st3 = storage st" "transfers st3 = transfers st"
    "issuedOnly probeOrRegister ?st2 st3" "TotalStakeValue r2 = TotalStakeValue r0 + CallValue args"
    by simp_all
  moreover from this(3) have "issuedOnly probeOrRegister st st3"
    by (simp add: issuedOnly_def)
  ultimately show ?thesis using res by simp
qed

lemmas stake_defs = stake_def registerBLSKeys_def getVerifiedBLSKeysFromArgs_def
  getVerifiedBLSKeysFromArgs_loop.simps getNewValidKeys_def getBLSRegisteredData_def
  isNumArgsCorrectToStake_def checkDoubleBLSKeys_def Uint64_def SetBytes_def Div_def
  emptyRegistrationData_def

text \<open>
  C4, as stated, fails: in the under-funded scenario (value 4000, two keys, node price 2500)
  \<open>stake\<close> returns \<open>OutOfFunds\<close> after it has issued a \<open>register\<close> command for each new key,
  which changes the Staking Registry. And in the double-key era a call whose keys exceed
  the funds (the same new key twice for 2500) is answered with \<open>UserError\<close>, because the
  duplicate check comes before the funds check.
\<close>

theorem stake_under_funded_counterexample:
  "map_option fst (stake scenarioSC underFundedCall emptyHost) = Some OutOfFunds
   \<and> map_option (calls \<circ> snd) (stake scenarioSC underFundedCall emptyHost)
       = Some [SC_get ''bls1'', SC_get ''bls2'', SC_register ''bls1'' ''alice'' ''alice'',
               SC_register ''bls2'' ''alice'' ''alice'']
   \<and> mutatingCommand (SC_register ''bls1'' ''alice'' ''alice'')
   \<and> flagDoubleKey scenarioSC
   \<and> map_option fst (stake scenarioSC sameKeyTwiceCall emptyHost) = Some UserError
   \<and> map_option (calls \<circ> snd) (stake scenarioSC sameKeyTwiceCall emptyHost)
       = Some [SC_get ''bls1'', SC_get ''bls1'', SC_register ''bls1'' ''alice'' ''alice'',
               SC_register ''bls1'' ''alice'' ''alice'']
   \<and> (2::nat) > nat (Div 2500 (NodePrice (epochConfig scenarioSC)))"
  by (simp add: underFundedCall_def sameKeyTwiceCall_def stake_defs host_defs scenario_defs)

theorem stake_under_funded_witness:
  "map_option fst (stake scenarioSC underFundedCall emptyHost) = Some OutOfFunds
   \<and> map_option (storage \<circ> snd) (stake scenarioSC underFundedCall emptyHost) = Some (storage emptyHost)
   \<and> map_option (issuedOnly probeOrRegister emptyHost \<circ> snd)
        (stake scenarioSC underFundedCall emptyHost) = Some True"
proof -
  let ?args = "[[CHR 0x02], ''bls1'', ''sig1'', ''bls2'', ''sig2'']"
  let ?r2 = "\<lparr>RegisterNonce = 0, Epoch = 1, RewardAddress = ''alice'', TotalStakeValue = 4000,
      LockedStake = 0, MaxStakePerNode = 4000, BlsPubKeys = [''bls1'', ''bls2''],
      NumRegistered = 0, UnstakedInfo = [], TotalUnstaked = 0\<rparr>"
  let ?st3 = "emptyHost\<lparr>gasRemaining := 998,
      calls := [SC_get ''bls1'', SC_get ''bls2'', SC_register ''bls1'' ''alice'' ''alice'',
                SC_register ''bls2'' ''alice'' ''alice'']\<rparr>"
  have call: "CallerAddr underFundedCall = ''alice''" "CallValue underFundedCall = 4000"
    "Arguments underFundedCall = ?args"
    by (simp_all add: underFundedCall_def aliceCall_def)
  have n: "Uint64 (SetBytes (?args ! 0)) = 2" by (simp add: Uint64_def SetBytes_def)
  have v: "Stake (gasCost scenarioSC) = 1" "NodePrice (epochConfig scenarioSC) = 2500"
    "flagEnableStaking scenarioSC" "CurrentEpoch scenarioSC = 1"
    by (simp_all add: scenario_defs)
  have h1: "Stake (gasCost scenarioSC) \<le> gasRemaining emptyHost" by (simp add: scenario_defs)
  have h2: "CurrentNonce scenarioSC = 0 \<or> flagEnableStaking scenarioSC" by (simp add: v)
  have h3: "getOrCreateRegistrationData scenarioSC (CallerAddr underFundedCall) emptyHost
              = Inr emptyRegistrationData"
    by (simp add: host_defs emptyHost_def)
  have h4: "NodePrice (epochConfig scenarioSC)
              \<le> TotalStakeValue emptyRegistrationData + CallValue underFundedCall
            \<or> IsSmartContractAddress scenarioSC (CallerAddr underFundedCall)"
    by (simp add: v call emptyRegistrationData_def)
  have h5: "Arguments underFundedCall \<noteq> []" by (simp add: call)
  have h6: "isNumArgsCorrectToStake (Arguments underFundedCall)"
    by (simp add: call isNumArgsCorrectToStake_def Uint64_def SetBytes_def)
  have h7: "Uint64 (SetBytes (Arguments underFundedCall ! 0)) \<noteq> 0"
    unfolding call n by simp
  have h8: "(Uint64 (SetBytes (Arguments underFundedCall ! 0)) - 1) * Stake (gasCost scenarioSC)
              \<le> gasRemaining emptyHost - Stake (gasCost scenarioSC)"
    unfolding call n by (simp add: v emptyHost_def)
  have h9: "registerBLSKeys scenarioSC
           (emptyRegistrationData\<lparr>TotalStakeValue := TotalStakeValue emptyRegistrationData
                 + CallValue underFundedCall,
               RewardAddress := (if RewardAddress emptyRegistrationData = []
                                 then CallerAddr underFundedCall
                                 else RewardAddress emptyRegistrationData),
               MaxStakePerNode := TotalStakeValue emptyRegistrationData + CallValue underFundedCall,
               Epoch := CurrentEpoch scenarioSC\<rparr>)
           (CallerAddr underFundedCall) (CallerAddr underFundedCall) (Arguments underFundedCall)
           (emptyHost\<lparr>gasRemaining := gasRemaining emptyHost - Stake (gasCost scenarioSC)
                  - (Uint64 (SetBytes (Arguments underFundedCall ! 0)) - 1)
                      * Stake (gasCost scenarioSC)\<rparr>)
         = Some (Inr [''bls1'', ''bls2''], ?r2, ?st3)"
    by (simp add: call stake_defs host_defs scenario_defs)
  have h10: "\<not> (flagDoubleKey scenarioSC \<and> checkDoubleBLSKeys [''bls1'', ''bls2''])"
    by (simp add: checkDoubleBLSKeys_def)
  have h11: "NodePrice (epochConfig scenarioSC) \<noteq> 0" by (simp add: v)
  have h12: "of_nat (length (BlsPubKeys ?r2))
               > Uint64 (Div (TotalStakeValue ?r2) (NodePrice (epochConfig scenarioSC)))"
    by (simp add: v Uint64_def Div_def)
  from stake_under_funded [OF h1 h2 h3 h4 h5 h6 h7 h8 h9 h10 h11 h12]
  show ?thesis by (simp add: emptyHost_def issuedOnly_def AddReturnMessage_def)
qed

subsection \<open>The maturity algorithm\<close>

lemma matured_antitone:
  assumes "UnstakedNonce a \<le> UnstakedNonce b" and "UnstakedNonce b \<le> CurrentNonce v"
    and "matured v b"
  shows "matured v a"
proof -
  have a: "UnstakedNonce a \<le> CurrentNonce v" using assms(1,2) by simp
  have "unat (CurrentNonce v - UnstakedNonce b) \<le> unat (CurrentNonce v - UnstakedNonce a)"
    using assms(1,2) a by (simp add: unat_sub word_le_nat_alt)
  then have "CurrentNonce v - UnstakedNonce b \<le> CurrentNonce v - UnstakedNonce a"
    by (simp add: word_le_nat_alt)
  with assms(3) show ?thesis by (simp add: matured_def)
qed

lemma filter_matured_takeWhile:
  assumes "noncesNonDecreasing info" and "noncesNotAfter (CurrentNonce v) info"
  shows "filter (matured v) info = takeWhile (matured v) info"
  using assms
proof (induction info)
  case Nil
  then show ?case by simp
next
  case (Cons x xs)
  from Cons.prems have sorted: "noncesNonDecreasing xs" and le: "noncesNotAfter (CurrentNonce v) xs"
    and first: "\<forall>y \<in> set xs. UnstakedNonce x \<le> UnstakedNonce y"
    and notafter: "\<forall>y \<in> set xs. UnstakedNonce y \<le> CurrentNonce v"
    by (auto simp: noncesNonDecreasing_def noncesNotAfter_def list_all_iff)
  show ?case
  proof (cases "matured v x")
    case True
    with Cons.IH [OF sorted le] show ?thesis by simp
  next
    case False
    have "\<forall>y \<in> set xs. \<not> matured v y"
      using False first notafter matured_antitone by blast
    then have "filter (matured v) xs = []" by (simp add: filter_empty_conv)
    with False show ?thesis by simp
  qed
qed

lemma upt_1_Suc_Suc: "[1 ..< Suc (Suc n)] = 1 # map Suc [1 ..< Suc n]"
  by (simp add: upt_conv_Cons map_Suc_upt del: upt_Suc)

lemma reachingFrom_Nil [simp]: "reachingFrom c t [] = []"
  by (simp add: reachingFrom_def)

lemma reachingFrom_Cons:
  "reachingFrom c t (x # xs) =
     (if c \<le> t + UnstakedValue x then [1] else []) @ map Suc (reachingFrom c (t + UnstakedValue x) xs)"
proof -
  have "filter (\<lambda>k. c \<le> t + sum_list (map UnstakedValue (take k (x # xs)))) (map Suc [1 ..< Suc (length xs)])
      = map Suc (filter (\<lambda>k. c \<le> t + UnstakedValue x + sum_list (map UnstakedValue (take k xs)))
                  [1 ..< Suc (length xs)])"
    by (simp add: filter_map comp_def add.assoc)
  then show ?thesis
    unfolding reachingFrom_def length_Cons upt_1_Suc_Suc by simp
qed

lemma unBondTokens_loop_spec:
  "unBondTokens_loop v stop c xs t i sp =
     (let entries = takeWhile (matured v) xs; reaching = reachingFrom c t entries
      in if stop \<and> reaching \<noteq> [] then
           (c, i + hd reaching,
            \<lparr>UnstakedNonce = UnstakedNonce (entries ! (hd reaching - 1)),
             UnstakedValue = t + sum_list (map UnstakedValue (take (hd reaching) entries)) - c\<rparr>)
         else (t + sum_list (map UnstakedValue entries), i + length entries, sp))"
proof (induction xs arbitrary: t i)
  case Nil
  then show ?case by simp
next
  case (Cons x xs)
  show ?case
  proof (cases "matured v x")
    case False
    then show ?thesis by (simp add: matured_def Let_def)
  next
    case True
    note m = this
    show ?thesis
    proof (cases "stop \<and> c \<le> t + UnstakedValue x")
      case True
      with m show ?thesis
        by (simp add: matured_def [symmetric] Let_def reachingFrom_Cons)
    next
      case False
      have step: "unBondTokens_loop v stop c (x # xs) t i sp
                    = unBondTokens_loop v stop c xs (t + UnstakedValue x) (i + 1) sp"
        using m False by (auto simp: matured_def [symmetric] Let_def)
      show ?thesis
      proof (cases stop)
        case False
        with m step Cons.IH [of "t + UnstakedValue x" "i + 1"] show ?thesis
          by (simp add: Let_def)
      next
        case True
        with False have nr: "\<not> c \<le> t + UnstakedValue x" by simp
        let ?R = "reachingFrom c (t + UnstakedValue x) (takeWhile (matured v) xs)"
        have r: "reachingFrom c t (takeWhile (matured v) (x # xs)) = map Suc ?R"
          using m nr by (simp add: reachingFrom_Cons)
        have pos: "?R \<noteq> [] \<Longrightarrow> 0 < hd ?R"
        proof -
          assume "?R \<noteq> []"
          then have "hd ?R \<in> set ?R" by simp
          then show ?thesis by (auto simp: reachingFrom_def simp del: upt_Suc)
        qed
        show ?thesis
        proof (cases "?R = []")
          case True
          with m step r Cons.IH [of "t + UnstakedValue x" "i + 1"] show ?thesis
            by (simp add: Let_def)
        next
          case False
          from pos [OF False] obtain k where k: "hd ?R = Suc k" by (cases "hd ?R") auto
          with False m step r Cons.IH [of "t + UnstakedValue x" "i + 1"] \<open>stop\<close> show ?thesis
            by (simp add: Let_def hd_map add.assoc)
        qed
      qed
    qed
  qed
qed

lemma reaching_bound:
  "reachingFrom c t entries \<noteq> [] \<Longrightarrow>
     0 < hd (reachingFrom c t entries) \<and> hd (reachingFrom c t entries) \<le> length entries"
proof -
  assume "reachingFrom c t entries \<noteq> []"
  then have "hd (reachingFrom c t entries) \<in> set (reachingFrom c t entries)" by simp
  then show ?thesis by (auto simp: reachingFrom_def simp del: upt_Suc)
qed

lemma drop_update_split:
  "0 < k \<Longrightarrow> k \<le> length xs \<Longrightarrow> drop (k - Suc 0) (xs[k - Suc 0 := y]) = y # drop k xs"
proof -
  assume a: "0 < k" "k \<le> length xs"
  then obtain j where j: "k = Suc j" by (cases k) auto
  with a have lt: "j < length (xs[j := y])" by simp
  have "drop j (xs[j := y]) = (xs[j := y]) ! j # drop (Suc j) (xs[j := y])"
    using lt by (rule Cons_nth_drop_Suc [symmetric])
  also have "\<dots> = y # drop (Suc j) xs"
    using lt by simp
  finally show ?thesis using j by simp
qed

text \<open>
  C2, amended. For every registration record whose \<open>UnstakedInfo\<close> nonces are non-decreasing
  and not after the current nonce, and every ceiling, \<open>unBondTokensFromRegistrationData\<close>
  returns what the maturity algorithm of the specification describes: it accumulates in
  order exactly the entries with \<open>currentNonce - entry.nonce \<ge> unBondPeriod\<close>; with a positive
  ceiling that the accumulator reaches, the last consumed entry is replaced by
  (accumulated - ceiling, same nonce) if that remainder is positive and the result is the
  ceiling; the consumed prefix is removed, \<open>TotalUnstaked\<close> is decreased by the returned total,
  and a negative \<open>TotalUnstaked\<close> yields \<open>UserError\<close>.
\<close>

theorem unBondTokensFromRegistrationData_amended:
  assumes "noncesNonDecreasing (UnstakedInfo r)"
    and "noncesNotAfter (CurrentNonce v) (UnstakedInfo r)"
  shows "(case unBondTokensFromRegistrationData v r ceiling st of (res, r', st') \<Rightarrow> (res, r'))
           = spec_unBondTokensFromRegistrationData v r ceiling"
proof -
  let ?info = "UnstakedInfo r"
  let ?P = "takeWhile (matured v) ?info"
  let ?R = "reachingFrom ceiling 0 ?P"
  have P: "filter (matured v) ?info = ?P"
    using assms by (rule filter_matured_takeWhile)
  have lenP: "length ?P \<le> length ?info" by (simp add: length_takeWhile_le)
  show ?thesis
  proof (cases "0 < ceiling \<and> ?R \<noteq> []")
    case True
    from reaching_bound [of ceiling 0 ?P] True
    have k: "0 < hd ?R" "hd ?R \<le> length ?info" using lenP by auto
    have R': "filter (\<lambda>k. ceiling \<le> sum_list (map UnstakedValue (take k ?P))) [1 ..< Suc (length ?P)] = ?R"
      by (simp add: reachingFrom_def)
    from True k show ?thesis
      unfolding unBondTokensFromRegistrationData_def spec_unBondTokensFromRegistrationData_def
        spec_maturity_def unBondTokens_loop_spec P Let_def R'
      by (simp add: drop_update_split)
  next
    case False
    have R': "filter (\<lambda>k. ceiling \<le> sum_list (map UnstakedValue (take k ?P))) [1 ..< Suc (length ?P)] = ?R"
      by (simp add: reachingFrom_def)
    from False show ?thesis
      unfolding unBondTokensFromRegistrationData_def spec_unBondTokensFromRegistrationData_def
        spec_maturity_def unBondTokens_loop_spec P Let_def R'
      by auto
  qed
qed

text \<open>
  C2, as stated, fails for records with an entry stamped after the current nonce, because
  the subtraction of the nonces is the wrapping subtraction of \<open>uint64\<close>. At nonce 100 with
  period 50 and entries at nonces 60 and 200 (non-decreasing), the entry at 200 satisfies
  \<open>currentNonce - entry.nonce \<ge> unBondPeriod\<close> as the code computes it, but the scan stops at
  the unmatured first entry and accumulates nothing. And read over the integers, an entry
  at nonce 200 alone does not satisfy the condition at nonce 100, but the code consumes it.
\<close>

theorem unBondTokensFromRegistrationData_counterexample:
  "CurrentNonce scenarioSC = 100 \<and> unBondPeriod scenarioSC = 50
   \<and> noncesNonDecreasing (UnstakedInfo pastAndFutureRecord)
   \<and> filter (matured scenarioSC) (UnstakedInfo pastAndFutureRecord)
        = [\<lparr>UnstakedNonce = 200, UnstakedValue = 1\<rparr>]
   \<and> fst (unBondTokensFromRegistrationData scenarioSC pastAndFutureRecord 0 emptyHost) = Inr 0
   \<and> fst (spec_unBondTokensFromRegistrationData scenarioSC pastAndFutureRecord 0) = Inr 1
   \<and> noncesNonDecreasing (UnstakedInfo futureRecord)
   \<and> \<not> (int (unat (CurrentNonce scenarioSC)) - int (unat (200 :: 64 word))
            \<ge> int (unat (unBondPeriod scenarioSC)))
   \<and> fst (unBondTokensFromRegistrationData scenarioSC futureRecord 0 emptyHost) = Inr 1"
  by (simp add: pastAndFutureRecord_def futureRecord_def noncesNonDecreasing_def matured_def
        unBondTokensFromRegistrationData_def spec_unBondTokensFromRegistrationData_def
        spec_maturity_def scenario_defs)

theorem unBondTokensFromRegistrationData_amended_witness:
  "noncesNonDecreasing (UnstakedInfo twoUnstakesRecord)
   \<and> noncesNotAfter (CurrentNonce (scenarioSC\<lparr>CurrentNonce := 260\<rparr>)) (UnstakedInfo twoUnstakesRecord)
   \<and> (case unBondTokensFromRegistrationData (scenarioSC\<lparr>CurrentNonce := 260\<rparr>) twoUnstakesRecord
              3000 emptyHost of (res, r', st') \<Rightarrow> (res, r'))
       = (Inr 3000, twoUnstakesRecord\<lparr>
            UnstakedInfo := [\<lparr>UnstakedNonce = 200, UnstakedValue = 1000\<rparr>], TotalUnstaked := 1000\<rparr>)"
proof -
  let ?v = "scenarioSC\<lparr>CurrentNonce := 260\<rparr>"
  have h1: "noncesNonDecreasing (UnstakedInfo twoUnstakesRecord)"
    by (simp add: noncesNonDecreasing_def twoUnstakesRecord_def)
  have h2: "noncesNotAfter (CurrentNonce ?v) (UnstakedInfo twoUnstakesRecord)"
    by (simp add: noncesNotAfter_def twoUnstakesRecord_def)
  have spec: "spec_unBondTokensFromRegistrationData ?v twoUnstakesRecord 3000
      = (Inr 3000, twoUnstakesRecord\<lparr>
            UnstakedInfo := [\<lparr>UnstakedNonce = 200, UnstakedValue = 1000\<rparr>], TotalUnstaked := 1000\<rparr>)"
    by (simp add: spec_unBondTokensFromRegistrationData_def spec_maturity_def matured_def
          twoUnstakesRecord_def scenario_defs)
  from unBondTokensFromRegistrationData_amended [OF h1 h2, of 3000 emptyHost] spec h1 h2
  show ?thesis by simp
qed

text \<open>Scenario 5 on the handlers: two \<open>unStakeTokens\<close> calls of 2000 at nonces 100 and 200,
  then \<open>unBondTokens(3000)\<close> at nonce 260 transfers exactly 3000 and leaves the single entry
  (nonce 200, value 1000).\<close>

lemma split_unbond_scenario:
  "fst (unStakeTokens scenarioSC (aliceCall ''unStakeTokens'' 0 [[CHR 0x07, CHR 0xD0]])
          (hostWith aliceRecord)) = Ok
   \<and> fst (unStakeTokens (scenarioSC\<lparr>CurrentNonce := 200\<rparr>)
            (aliceCall ''unStakeTokens'' 0 [[CHR 0x07, CHR 0xD0]])
            (snd (unStakeTokens scenarioSC (aliceCall ''unStakeTokens'' 0 [[CHR 0x07, CHR 0xD0]])
                    (hostWith aliceRecord)))) = Ok
   \<and> storage (snd (unStakeTokens (scenarioSC\<lparr>CurrentNonce := 200\<rparr>)
            (aliceCall ''unStakeTokens'' 0 [[CHR 0x07, CHR 0xD0]])
            (snd (unStakeTokens scenarioSC (aliceCall ''unStakeTokens'' 0 [[CHR 0x07, CHR 0xD0]])
                    (hostWith aliceRecord))))) = storage (hostWith twoUnstakesRecord)
   \<and> fst (unBondTokens (scenarioSC\<lparr>CurrentNonce := 260\<rparr>)
            (aliceCall ''unBondTokens'' 0 [[CHR 0x0B, CHR 0xB8]]) (hostWith twoUnstakesRecord)) = Ok
   \<and> transfers (snd (unBondTokens (scenarioSC\<lparr>CurrentNonce := 260\<rparr>)
            (aliceCall ''unBondTokens'' 0 [[CHR 0x0B, CHR 0xB8]]) (hostWith twoUnstakesRecord)))
        = [(''alice'', ''validator'', 3000)]
   \<and> storage (snd (unBondTokens (scenarioSC\<lparr>CurrentNonce := 260\<rparr>)
            (aliceCall ''unBondTokens'' 0 [[CHR 0x0B, CHR 0xB8]]) (hostWith twoUnstakesRecord)))
          ''alice''
        = Some (Marshalled (twoUnstakesRecord\<lparr>
            UnstakedInfo := [\<lparr>UnstakedNonce = 200, UnstakedValue = 1000\<rparr>], TotalUnstaked := 1000\<rparr>))"
  by (simp add: unStakeTokens_def unBondTokens_def basicCheckForUnStakeUnBond_def
        processUnStakeValue_def unBondTokensFromRegistrationData_def isUnStakeUnBondPaused_def
        unStakeUnBondPauseKey_def SetBytes_def twoUnstakesRecord_def host_defs scenario_defs)

subsection \<open>The unstaked sum\<close>

lemma wr_same: "storage st' = storage st \<Longrightarrow> writesRecordOK v c st st'"
  by (simp add: writesRecordOK_def)

lemma wr_delete: "storage st' = (storage st)(c := None) \<Longrightarrow> writesRecordOK v c st st'"
  by (simp add: writesRecordOK_def)

lemma wr_raw: "storage st' = (storage st)(key := Some (RawBytes b)) \<Longrightarrow> writesRecordOK v c st st'"
  by (auto simp: writesRecordOK_def)

lemma wr_save:
  "getOrCreateRegistrationData v c st = Inr r \<Longrightarrow> (unstakedSumOK r \<longrightarrow> unstakedSumOK r') \<Longrightarrow>
     storage st' = (storage st)(c := Some (Marshalled r')) \<Longrightarrow> writesRecordOK v c st st'"
  by (auto simp: writesRecordOK_def)

lemma getOrCreateRegistrationData_storage:
  "storage st' = storage st \<Longrightarrow>
     getOrCreateRegistrationData v key st' = getOrCreateRegistrationData v key st"
  by (simp add: getOrCreateRegistrationData_def GetStorage_def)

lemma unstakedSumOK_empty [simp]: "unstakedSumOK emptyRegistrationData"
  by (simp add: unstakedSumOK_def emptyRegistrationData_def)

lemma loaded_unstakedSumOK:
  "getOrCreateRegistrationData v key st = Inr r \<Longrightarrow> storedUnstakedSumOK st key \<Longrightarrow> unstakedSumOK r"
  by (auto simp: getOrCreateRegistrationData_def GetStorage_def storedUnstakedSumOK_def
        split: option.splits storage_val.splits if_splits)

lemma writesRecordOK_keeps:
  assumes "writesRecordOK v c st st'" and "storedUnstakedSumOK st k"
  shows "storedUnstakedSumOK st' k"
proof -
  from assms(1) consider
      (same) "storage st' = storage st"
    | (del) "storage st' = (storage st)(c := None)"
    | (raw) key b where "storage st' = (storage st)(key := Some (RawBytes b))"
    | (save) r r' where "getOrCreateRegistrationData v c st = Inr r"
        "unstakedSumOK r \<longrightarrow> unstakedSumOK r'"
        "storage st' = (storage st)(c := Some (Marshalled r'))"
    by (auto simp: writesRecordOK_def)
  then show ?thesis
  proof cases
    case same
    with assms(2) show ?thesis by (simp add: storedUnstakedSumOK_def)
  next
    case del
    with assms(2) show ?thesis by (simp add: storedUnstakedSumOK_def)
  next
    case raw
    with assms(2) show ?thesis by (simp add: storedUnstakedSumOK_def)
  next
    case save
    show ?thesis
    proof (cases "k = c")
      case True
      with save(1) assms(2) have "unstakedSumOK r" by (auto dest: loaded_unstakedSumOK)
      with save(2,3) True show ?thesis by (simp add: storedUnstakedSumOK_def)
    next
      case False
      with save(3) assms(2) show ?thesis by (simp add: storedUnstakedSumOK_def)
    qed
  qed
qed

subsubsection \<open>Loops that only talk to the Staking Registry\<close>

lemma unJailV1_loop_storage: "storage (unJailV1_loop v ks st) = storage st"
proof (induction ks arbitrary: st)
  case Nil
  then show ?case by simp
next
  case (Cons k ks)
  then show ?case
    by (auto split: prod.splits sum.splits dest: storage_executeOnStakingSC)
qed

lemma getBlsKeysStatus_loop_storage: "storage (getBlsKeysStatus_loop v ks st) = storage st"
proof (induction ks arbitrary: st)
  case Nil
  then show ?case by simp
next
  case (Cons k ks)
  then show ?case
    by (auto split: prod.splits sum.splits dest: storage_executeOnStakingSC)
qed

lemma setOwnerOfBlsKey_storage:
  "setOwnerOfBlsKey v k owner st = (b, st') \<Longrightarrow> storage st' = storage st"
  by (auto simp: setOwnerOfBlsKey_def split: prod.splits sum.splits if_splits
        dest: storage_executeOnStakingSC)

lemma updateStakingV2_loop_storage:
  "updateStakingV2_loop v owner ks st = (rc, st') \<Longrightarrow> storage st' = storage st"
proof (induction ks arbitrary: st)
  case Nil
  then show ?case by simp
next
  case (Cons k ks)
  then show ?case
    by (auto split: prod.splits if_splits dest: setOwnerOfBlsKey_storage)
qed

lemma unBondNodes_loop_storage:
  "unBondNodesFromStakingSC_loop v ks acc st = (ks', st') \<Longrightarrow> storage st' = storage st"
proof (induction ks arbitrary: acc st)
  case Nil
  then show ?case by simp
next
  case (Cons k ks)
  then show ?case
    by (auto split: prod.splits sum.splits if_splits dest: storage_executeOnStakingSC)
qed

lemma getStakedData_storage: "getStakedData v k st = (res, st') \<Longrightarrow> storage st' = storage st"
  by (auto simp: getStakedData_def getBLSRegisteredData_def
        split: prod.splits sum.splits if_splits option.splits dest: storage_executeOnStakingSC)

lemma activateStakingFor_loop_storage:
  "activateStakingFor_loop v q reward owner ks n st = (n', st') \<Longrightarrow> storage st' = storage st"
proof (induction ks arbitrary: n st)
  case Nil
  then show ?case by simp
next
  case (Cons k ks)
  show ?case
  proof (cases "n < q")
    case False
    with Cons.prems show ?thesis by simp
  next
    case True
    obtain res st1 where g: "getStakedData v k st = (res, st1)" by (cases "getStakedData v k st")
    then have s1: "storage st1 = storage st" by (rule getStakedData_storage)
    show ?thesis
    proof (cases res)
      case (Inl e)
      with True g Cons.prems have "activateStakingFor_loop v q reward owner ks n st1 = (n', st')"
        by simp
      from Cons.IH [OF this] s1 show ?thesis by simp
    next
      case (Inr d)
      show ?thesis
      proof (cases "Staked d \<or> Waiting d")
        case True
        with \<open>n < q\<close> g Inr Cons.prems
        have "activateStakingFor_loop v q reward owner ks n st1 = (n', st')" by auto
        from Cons.IH [OF this] s1 show ?thesis by simp
      next
        case False
        obtain out st2 where e: "executeOnStakingSC v (SC_stake k reward owner) st1 = (out, st2)"
          by (cases "executeOnStakingSC v (SC_stake k reward owner) st1")
        then have s2: "storage st2 = storage st" using s1 by (auto dest: storage_executeOnStakingSC)
        from \<open>n < q\<close> g Inr False e Cons.prems
        obtain n2 st3 where rec: "activateStakingFor_loop v q reward owner ks n2 st3 = (n', st')"
          and s3: "storage st3 = storage st2"
          by (cases out) (auto simp: Let_def split: if_splits)
        from Cons.IH [OF rec] s3 s2 show ?thesis by simp
      qed
    qed
  qed
qed

lemma activateStakingFor_frame:
  "activateStakingFor v ks q r price reward owner st = (r', st') \<Longrightarrow>
     storage st' = storage st \<and> UnstakedInfo r' = UnstakedInfo r \<and> TotalUnstaked r' = TotalUnstaked r"
  by (auto simp: activateStakingFor_def split: prod.splits dest: activateStakingFor_loop_storage)

lemma stakeOptionals_frame:
  "stakeOptionals v reg as r st = (r', st') \<Longrightarrow>
     storage st' = storage st \<and> UnstakedInfo r' = UnstakedInfo r \<and> TotalUnstaked r' = TotalUnstaked r"
proof (induction as arbitrary: r st)
  case Nil
  then show ?case by simp
next
  case (Cons a as)
  then show ?case by (fastforce split: if_splits)
qed

subsubsection \<open>What the record operations do to the invariant\<close>

lemma processUnStakeValue_inv:
  "processUnStakeValue v r x st = (rc, r', st') \<Longrightarrow>
     storage st' = storage st \<and> (unstakedSumOK r \<longrightarrow> unstakedSumOK r')"
  by (auto simp: processUnStakeValue_def unstakedSumOK_def Let_def split: if_splits)

lemma sum_take_takeWhile:
  "k \<le> length (takeWhile P xs) \<Longrightarrow> take k (takeWhile P xs) = take k xs"
  by (metis append_eq_conv_conj takeWhile_dropWhile_id take_all take_append 
      diff_is_0_eq' append_Nil2 take_0 append_take_drop_id take_take min.absorb1 length_takeWhile_le)

lemma sum_drop: "sum_list (map f (drop k xs)) = sum_list (map f xs) - sum_list (map f (take k xs))" for f :: "'a \<Rightarrow> int"
proof -
  have "sum_list (map f xs) = sum_list (map f (take k xs @ drop k xs))" by simp
  also have "\<dots> = sum_list (map f (take k xs)) + sum_list (map f (drop k xs))"
    by (simp only: map_append sum_list_append)
  finally show ?thesis by simp
qed

lemma reaching_hd:
  "reachingFrom c t entries \<noteq> [] \<Longrightarrow>
     c \<le> t + sum_list (map UnstakedValue (take (hd (reachingFrom c t entries)) entries))"
proof -
  assume "reachingFrom c t entries \<noteq> []"
  then have "hd (reachingFrom c t entries) \<in> set (reachingFrom c t entries)" by simp
  then show ?thesis by (auto simp: reachingFrom_def simp del: upt_Suc)
qed

lemma unBondTokensFromRegistrationData_inv:
  assumes "unBondTokensFromRegistrationData v r c st = (res, r', st')"
  shows "storage st' = storage st \<and> (unstakedSumOK r \<longrightarrow> unstakedSumOK r')"
proof -
  let ?info = "UnstakedInfo r"
  let ?P = "takeWhile (matured v) ?info"
  let ?R = "reachingFrom c 0 ?P"
  have sto: "storage st' = storage st"
    using assms by (auto simp: unBondTokensFromRegistrationData_def Let_def split: prod.splits if_splits)
  have lenP: "length ?P \<le> length ?info" by (simp add: length_takeWhile_le)
  have inv: "unstakedSumOK r' " if ok: "unstakedSumOK r"
  proof (cases "0 < c \<and> ?R \<noteq> []")
    case True
    from reaching_bound [of c 0 ?P] True
    have k: "0 < hd ?R" "hd ?R \<le> length ?P" by auto
    with lenP have k': "hd ?R \<le> length ?info" by simp
    have tk: "take (hd ?R) ?P = take (hd ?R) ?info" using k(2) by (rule sum_take_takeWhile)
    have reach: "c \<le> sum_list (map UnstakedValue (take (hd ?R) ?info))"
      using reaching_hd [of c 0 ?P] True tk by simp
    from assms True k k' have r': "r' = r\<lparr>UnstakedInfo :=
          (if 0 < sum_list (map UnstakedValue (take (hd ?R) ?P)) - c
           then \<lparr>UnstakedNonce = UnstakedNonce (?P ! (hd ?R - 1)),
                 UnstakedValue = sum_list (map UnstakedValue (take (hd ?R) ?P)) - c\<rparr> # drop (hd ?R) ?info
           else drop (hd ?R) ?info),
          TotalUnstaked := TotalUnstaked r - c\<rparr>"
      unfolding unBondTokensFromRegistrationData_def unBondTokens_loop_spec Let_def
      by (auto simp: drop_update_split split: if_splits)
    show ?thesis
      unfolding r' using ok tk reach by (simp add: unstakedSumOK_def sum_drop [of _ "hd ?R" ?info])
  next
    case False
    have tk: "take (length ?P) ?info = ?P"
      using sum_take_takeWhile [of "length ?P" "matured v" ?info] by simp
    from assms False have r': "r' = r\<lparr>UnstakedInfo := drop (length ?P) ?info,
          TotalUnstaked := TotalUnstaked r - sum_list (map UnstakedValue ?P)\<rparr>"
      unfolding unBondTokensFromRegistrationData_def unBondTokens_loop_spec Let_def
      by (auto split: if_splits)
    show ?thesis
      unfolding r' using ok tk by (simp add: unstakedSumOK_def sum_drop [of _ "length ?P" ?info])
  qed
  from sto inv show ?thesis by blast
qed

lemma basicCheckForUnStakeUnBond_Inl:
  "basicCheckForUnStakeUnBond v args st = (Inl rc, st') \<Longrightarrow> rc \<noteq> Ok \<and> storage st' = storage st"
  by (auto simp: basicCheckForUnStakeUnBond_def split: if_splits sum.splits)

lemma basicCheckForUnStakeUnBond_Inr:
  "basicCheckForUnStakeUnBond v args st = (Inr r, st') \<Longrightarrow>
     st' = st \<and> getOrCreateRegistrationData v (CallerAddr args) st = Inr r"
  by (auto simp: basicCheckForUnStakeUnBond_def split: if_splits sum.splits)

lemma basicChecksForUnStakeNodes_Inl:
  "basicChecksForUnStakeNodes v args st = (Inl rc, st') \<Longrightarrow> rc \<noteq> Ok \<and> storage st' = storage st"
  by (auto simp: basicChecksForUnStakeNodes_def split: if_splits sum.splits option.splits
        dest: storage_UseGas)

lemma basicChecksForUnStakeNodes_Inr:
  "basicChecksForUnStakeNodes v args st = (Inr r, st') \<Longrightarrow>
     storage st' = storage st \<and> getOrCreateRegistrationData v (CallerAddr args) st = Inr r"
  by (auto simp: basicChecksForUnStakeNodes_def split: if_splits sum.splits option.splits
        dest: storage_UseGas)

lemma init_writes: "writesRecordOK v c st (snd (init v args st))"
  by (auto simp: init_def Let_def SetStorage_def intro: wr_same wr_raw)

lemma pause_writes: "writesRecordOK v c st (snd (pauseUnStakeUnBond v args st))"
  by (auto simp: pauseUnStakeUnBond_def SetStorage_def intro: wr_same wr_raw)

lemma unpause_writes: "writesRecordOK v c st (snd (unPauseStakeUnBond v args st))"
  by (auto simp: unPauseStakeUnBond_def SetStorage_def intro: wr_same wr_raw)

lemma get_writes: "writesRecordOK v c st (snd (get v args st))"
  by (auto simp: get_def Let_def split: option.splits intro!: wr_same dest: storage_UseGas)

lemma getTotalStaked_writes: "writesRecordOK v c st (snd (getTotalStaked v args st))"
  by (auto simp: getTotalStaked_def split: option.splits sum.splits intro!: wr_same
        dest: storage_UseGas)

lemma foldl_Finish_storage: "storage (foldl (\<lambda>s blsKey. Finish blsKey s) st ks) = storage st"
  by (induction ks arbitrary: st) auto

lemma getTotalStakedTopUpBlsKeys_writes:
  "writesRecordOK v c st (snd (getTotalStakedTopUpBlsKeys v args st))"
  by (auto simp: getTotalStakedTopUpBlsKeys_def Let_def foldl_Finish_storage
        split: option.splits sum.splits intro!: wr_same dest: storage_UseGas)

lemma getBlsKeysStatus_writes: "writesRecordOK v c st (snd (getBlsKeysStatus v args st))"
  by (auto simp: getBlsKeysStatus_def getBlsKeysStatus_loop_storage split: sum.splits
        intro!: wr_same)

lemma updateStakingV2_writes: "writesRecordOK v c st (snd (updateStakingV2 v args st))"
proof (rule wr_same)
  show "storage (snd (updateStakingV2 v args st)) = storage st"
    by (cases "updateStakingV2_loop v (Arguments args ! 0)
                 (BlsPubKeys (projr (getOrCreateRegistrationData v (Arguments args ! 0) st))) st")
       (auto simp: updateStakingV2_def split: sum.splits dest: updateStakingV2_loop_storage)
qed

lemma unJailV1_writes: "writesRecordOK v c st (snd (unJailV1 v args st))"
  by (auto simp: unJailV1_def Let_def unJailV1_loop_storage
        split: option.splits sum.splits intro!: wr_same dest: storage_UseGas)

lemma unJail_writes: "writesRecordOK v c st (snd (unJail v args st))"
proof (cases "flagEnableStaking v")
  case False
  then show ?thesis using unJailV1_writes [of v c st args] by (simp add: unJail_def)
next
  case True
  show ?thesis
  proof (cases "fst (unJail v args st) = Ok")
    case False
    with True have "storage (snd (unJail v args st)) = storage st"
      by (auto simp: unJail_def Let_def Transfer_def
            split: option.splits sum.splits prod.splits if_splits dest: storage_UseGas)
    then show ?thesis by (rule wr_same)
  next
    case ok: True
    from True ok obtain st1 tb st2 where
      g: "UseGas (UnJail (gasCost v) * of_nat (length (Arguments args))) st = Some st1"
      and lp: "unJail_loop v (getConfig v (CurrentEpoch v)) (Arguments args) 0 st1 = (tb, st2)"
      by (auto simp: unJail_def Let_def split: option.splits sum.splits prod.splits if_splits)
    from unJail_loop_spec [OF lp] storage_UseGas [OF g] have s2: "storage st2 = storage st" by simp
    from True ok g lp s2 have "\<exists>b. storage (snd (unJail v args st))
          = (storage st)(unJailedFunds := Some (RawBytes b))"
      by (auto simp: unJail_def Let_def Transfer_def addToUnJailFunds_def SetStorage_def
            split: option.splits sum.splits if_splits)
    then show ?thesis by (auto intro: wr_raw)
  qed
qed

lemma claim_writes: "writesRecordOK v (CallerAddr args) st (snd (claim v args st))"
proof (cases "fst (claim v args st) = Ok \<and> storage (snd (claim v args st)) \<noteq> storage st")
  case False
  then have "storage (snd (claim v args st)) = storage st"
    by (auto simp: claim_def Let_def Transfer_def saveRegistrationData_def
          split: option.splits sum.splits if_splits dest: storage_UseGas)
  then show ?thesis by (rule wr_same)
next
  case True
  then obtain r where ld: "getOrCreateRegistrationData v (CallerAddr args) st = Inr r"
    by (auto simp: claim_def split: if_splits sum.splits)
  from True ld have eq: "storage (snd (claim v args st))
      = (storage st)(CallerAddr args := Some (Marshalled (r\<lparr>TotalStakeValue := LockedStake r\<rparr>)))"
    by (auto simp: claim_def Let_def Transfer_def saveRegistrationData_def SetStorage_def
          split: option.splits if_splits dest: storage_UseGas)
  show ?thesis by (rule wr_save [OF ld _ eq]) (simp add: unstakedSumOK_def)
qed

lemma changeRewardAddress_writes:
  "writesRecordOK v (CallerAddr args) st (snd (changeRewardAddress v args st))"
proof (cases "storage (snd (changeRewardAddress v args st)) = storage st")
  case True
  then show ?thesis by (rule wr_same)
next
  case False
  then obtain r where ld: "getOrCreateRegistrationData v (CallerAddr args) st = Inr r"
    by (auto simp: changeRewardAddress_def split: if_splits sum.splits)
  from False ld have eq: "storage (snd (changeRewardAddress v args st))
      = (storage st)(CallerAddr args := Some (Marshalled (r\<lparr>RewardAddress := Arguments args ! 0\<rparr>)))"
    by (auto simp: changeRewardAddress_def Let_def saveRegistrationData_def SetStorage_def
          executeOnStakingSC_def split: option.splits if_splits sum.splits dest: storage_UseGas)
  show ?thesis by (rule wr_save [OF ld _ eq]) (simp add: unstakedSumOK_def)
qed

lemma cleanRegisteredData_writes:
  "writesRecordOK v (CallerAddr args) st (snd (cleanRegisteredData v args st))"
proof -
  from cleanRegisteredData_storage_any [of v args st] consider
      (same) "storage (snd (cleanRegisteredData v args st)) = storage st"
    | (saved) r where "getOrCreateRegistrationData v (CallerAddr args) st = Inr r"
        "storage (snd (cleanRegisteredData v args st)) =
           (storage st)(CallerAddr args :=
              Some (Marshalled (r\<lparr>BlsPubKeys := firstOccurrences (BlsPubKeys r)\<rparr>)))"
    by blast
  then show ?thesis
  proof cases
    case same
    then show ?thesis by (rule wr_same)
  next
    case saved
    show ?thesis by (rule wr_save [OF saved(1) _ saved(2)]) (simp add: unstakedSumOK_def)
  qed
qed

lemma unStakeNodes_writes: "writesRecordOK v c st (snd (unStakeNodes v args st))"
proof (rule wr_same)
  show "storage (snd (unStakeNodes v args st)) = storage st"
    by (auto simp: unStakeNodes_def unStakeNodesFromStakingSC_def
          split: prod.splits sum.splits
          dest!: unStakeNodes_loop_frame basicChecksForUnStakeNodes_Inl basicChecksForUnStakeNodes_Inr)
qed

lemma unStake_writes: "writesRecordOK v (CallerAddr args) st (snd (unStake v args st))"
proof (cases "isUnStakeUnBondPaused v st")
  case True
  then show ?thesis by (simp add: unStake_def wr_same)
next
  case np: False
  obtain res st1 where chk: "basicChecksForUnStakeNodes v args st = (res, st1)"
    by (cases "basicChecksForUnStakeNodes v args st")
  show ?thesis
  proof (cases res)
    case (Inl rc)
    with np chk show ?thesis
      by (auto simp: unStake_def intro!: wr_same dest: basicChecksForUnStakeNodes_Inl)
  next
    case (Inr r)
    with chk have s1: "storage st1 = storage st"
      and ld: "getOrCreateRegistrationData v (CallerAddr args) st = Inr r"
      by (auto dest: basicChecksForUnStakeNodes_Inr)
    obtain n st2 where lp: "unStakeNodesFromStakingSC_loop v r (Arguments args) 0 st1 = (n, st2)"
      by (cases "unStakeNodesFromStakingSC_loop v r (Arguments args) 0 st1")
    with s1 have s2: "storage st2 = storage st" by (auto dest: unStakeNodes_loop_frame)
    show ?thesis
    proof (cases "flagEnableTopUp v")
      case False
      with np chk Inr lp s2 show ?thesis
        by (auto simp: unStake_def unStakeNodesFromStakingSC_def intro!: wr_same)
    next
      case True
      let ?x = "if NodePrice (getConfig v (CurrentEpoch v)) * uint n > TotalStakeValue r
                then TotalStakeValue r else NodePrice (getConfig v (CurrentEpoch v)) * uint n"
      obtain rc r' st3 where pr: "processUnStakeValue v r ?x st2 = (rc, r', st3)"
        by (cases "processUnStakeValue v r ?x st2") auto
      from processUnStakeValue_inv [OF pr] s2
      have s3: "storage st3 = storage st" and inv: "unstakedSumOK r \<longrightarrow> unstakedSumOK r'" by auto
      show ?thesis
      proof (cases "rc = Ok")
        case False
        with np chk Inr lp True pr s3 show ?thesis
          by (auto simp: unStake_def unStakeNodesFromStakingSC_def Let_def intro!: wr_same)
      next
        case ok: True
        with np chk Inr lp True pr s3
        have "storage (snd (unStake v args st)) = (storage st)(CallerAddr args := Some (Marshalled r'))"
          by (auto simp: unStake_def unStakeNodesFromStakingSC_def Let_def saveRegistrationData_def
                SetStorage_def)
        then show ?thesis by (rule wr_save [OF ld inv])
      qed
    qed
  qed
qed

lemma unStakeTokens_writes: "writesRecordOK v (CallerAddr args) st (snd (unStakeTokens v args st))"
proof -
  obtain res st1 where chk: "basicCheckForUnStakeUnBond v args st = (res, st1)"
    by (cases "basicCheckForUnStakeUnBond v args st")
  show ?thesis
  proof (cases res)
    case (Inl rc)
    with chk show ?thesis
      by (auto simp: unStakeTokens_def intro!: wr_same dest: basicCheckForUnStakeUnBond_Inl)
  next
    case (Inr r)
    with chk have st1: "st1 = st"
      and ld: "getOrCreateRegistrationData v (CallerAddr args) st = Inr r"
      by (auto dest: basicCheckForUnStakeUnBond_Inr)
    show ?thesis
    proof (cases "fst (unStakeTokens v args st) = Ok")
      case False
      have "storage (snd (unStakeTokens v args st)) = storage st"
      proof (cases "UseGas (UnStakeTokens (gasCost v)) st")
        case None
        with chk Inr st1 show ?thesis by (auto simp: unStakeTokens_def)
      next
        case (Some st2)
        obtain rc r' st3 where
          pr: "processUnStakeValue v r (SetBytes (Arguments args ! 0)) st2 = (rc, r', st3)"
          by (cases "processUnStakeValue v r (SetBytes (Arguments args ! 0)) st2") auto
        from processUnStakeValue_inv [OF pr] storage_UseGas [OF Some]
        have "storage st3 = storage st" "storage st2 = storage st" by auto
        with False chk Inr st1 Some pr show ?thesis
          by (auto simp: unStakeTokens_def Let_def saveRegistrationData_def split: if_splits)
      qed
      then show ?thesis by (rule wr_same)
    next
      case True
      with chk Inr st1 obtain st2 r' st3 where
        g: "UseGas (UnStakeTokens (gasCost v)) st = Some st2"
        and pr: "processUnStakeValue v r (SetBytes (Arguments args ! 0)) st2 = (Ok, r', st3)"
        by (auto simp: unStakeTokens_def Let_def split: option.splits if_splits prod.splits)
      from processUnStakeValue_inv [OF pr] storage_UseGas [OF g]
      have s3: "storage st3 = storage st" and inv: "unstakedSumOK r \<longrightarrow> unstakedSumOK r'" by auto
      from True chk Inr st1 g pr s3
      have "storage (snd (unStakeTokens v args st)) = (storage st)(CallerAddr args := Some (Marshalled r'))"
        by (auto simp: unStakeTokens_def Let_def saveRegistrationData_def SetStorage_def
              split: if_splits)
      then show ?thesis by (rule wr_save [OF ld inv])
    qed
  qed
qed

lemma unBondTokens_writes: "writesRecordOK v (CallerAddr args) st (snd (unBondTokens v args st))"
proof -
  obtain res st1 where chk: "basicCheckForUnStakeUnBond v args st = (res, st1)"
    by (cases "basicCheckForUnStakeUnBond v args st")
  show ?thesis
  proof (cases res)
    case (Inl rc)
    with chk show ?thesis
      by (auto simp: unBondTokens_def intro!: wr_same dest: basicCheckForUnStakeUnBond_Inl)
  next
    case (Inr r)
    with chk have st1: "st1 = st"
      and ld: "getOrCreateRegistrationData v (CallerAddr args) st = Inr r"
      by (auto dest: basicCheckForUnStakeUnBond_Inr)
    show ?thesis
    proof (cases "UseGas (UnBondTokens (gasCost v)) st")
      case None
      with chk Inr st1 show ?thesis by (auto simp: unBondTokens_def intro!: wr_same)
    next
      case (Some st2)
      let ?c = "if length (Arguments args) = 1 then SetBytes (Arguments args ! 0) else 0"
      obtain res2 r' st3 where tk: "unBondTokensFromRegistrationData v r ?c st2 = (res2, r', st3)"
        by (cases "unBondTokensFromRegistrationData v r ?c st2") auto
      from unBondTokensFromRegistrationData_inv [OF tk] storage_UseGas [OF Some]
      have s3: "storage st3 = storage st" and s2: "storage st2 = storage st"
        and inv: "unstakedSumOK r \<longrightarrow> unstakedSumOK r'" by auto
      from chk Inr st1 Some tk s3 s2
      have "storage (snd (unBondTokens v args st)) = storage st
          \<or> storage (snd (unBondTokens v args st)) = (storage st)(CallerAddr args := Some (Marshalled r'))"
        by (auto simp: unBondTokens_def Let_def Transfer_def saveRegistrationData_def SetStorage_def
              split: if_splits sum.splits)
      then show ?thesis
      proof
        assume "storage (snd (unBondTokens v args st)) = storage st"
        then show ?thesis by (rule wr_same)
      next
        assume "storage (snd (unBondTokens v args st))
                  = (storage st)(CallerAddr args := Some (Marshalled r'))"
        then show ?thesis by (rule wr_save [OF ld inv])
      qed
    qed
  qed
qed

lemma unBondNodesFromStakingSC_storage:
  "unBondNodesFromStakingSC v ks st = (ks', st') \<Longrightarrow> storage st' = storage st"
  by (auto simp: unBondNodesFromStakingSC_def dest: unBondNodes_loop_storage)

lemma updateRegistrationDataAfterUnBond_storage:
  assumes "updateRegistrationDataAfterUnBond v r ks c st = (rc, st')"
  shows "storage st' = storage st \<or> storage st' = (storage st)(c := None)
       \<or> storage st' = (storage st)(c := Some (Marshalled (deleteUnBondedKeys
             (r\<lparr>NumRegistered := NumRegistered r - of_nat (length ks),
                LockedStake := NodePrice (getConfig v (CurrentEpoch v))
                  * uint (NumRegistered r - of_nat (length ks))\<rparr>) ks)))"
  using assms
  by (auto simp: updateRegistrationDataAfterUnBond_def Let_def saveRegistrationData_def SetStorage_def
        split: if_splits)

lemma updateRegistrationDataAfterUnBond_writes:
  assumes "updateRegistrationDataAfterUnBond v r ks c st = (rc, st')"
  shows "storage st' = storage st \<or> storage st' = (storage st)(c := None)
       \<or> (\<exists>r'. UnstakedInfo r' = UnstakedInfo r \<and> TotalUnstaked r' = TotalUnstaked r
              \<and> storage st' = (storage st)(c := Some (Marshalled r')))"
proof -
  let ?r' = "deleteUnBondedKeys
             (r\<lparr>NumRegistered := NumRegistered r - of_nat (length ks),
                LockedStake := NodePrice (getConfig v (CurrentEpoch v))
                  * uint (NumRegistered r - of_nat (length ks))\<rparr>) ks"
  have "UnstakedInfo ?r' = UnstakedInfo r \<and> TotalUnstaked ?r' = TotalUnstaked r" by simp
  with updateRegistrationDataAfterUnBond_storage [OF assms] show ?thesis by blast
qed

lemma unBondV1_writes: "writesRecordOK v (CallerAddr args) st (snd (unBondV1 v args st))"
proof -
  obtain res st1 where chk: "checkUnBondArguments v args st = (res, st1)"
    by (cases "checkUnBondArguments v args st")
  show ?thesis
  proof (cases res)
    case (Inl rc)
    with chk show ?thesis
      by (auto simp: unBondV1_def intro!: wr_same dest: checkUnBondArguments_Inl)
  next
    case (Inr r)
    with chk have s1: "storage st1 = storage st"
      and ld: "getOrCreateRegistrationData v (CallerAddr args) st = Inr r"
      by (auto dest: checkUnBondArguments_Inr)
    obtain ks st2 where nodes: "unBondNodesFromStakingSC v (Arguments args) st1 = (ks, st2)"
      by (cases "unBondNodesFromStakingSC v (Arguments args) st1")
    with s1 have s2: "storage st2 = storage st" by (auto dest: unBondNodesFromStakingSC_storage)
    let ?total = "NodePrice (getConfig v (CurrentEpoch v)) * int (length ks)"
    let ?r' = "deleteUnBondedKeys (r\<lparr>NumRegistered := NumRegistered r - of_nat (length ks),
                  LockedStake := LockedStake r - ?total,
                  TotalStakeValue := TotalStakeValue r - ?total\<rparr>) ks"
    from chk Inr nodes s2
    have "storage (snd (unBondV1 v args st)) = storage st
        \<or> storage (snd (unBondV1 v args st)) = (storage st)(CallerAddr args := None)
        \<or> storage (snd (unBondV1 v args st)) = (storage st)(CallerAddr args := Some (Marshalled ?r'))"
      by (auto simp: unBondV1_def Let_def Transfer_def saveRegistrationData_def SetStorage_def
            split: if_splits)
    then consider (same) "storage (snd (unBondV1 v args st)) = storage st"
      | (del) "storage (snd (unBondV1 v args st)) = (storage st)(CallerAddr args := None)"
      | (save) "storage (snd (unBondV1 v args st))
                  = (storage st)(CallerAddr args := Some (Marshalled ?r'))"
      by blast
    then show ?thesis
    proof cases
      case same
      then show ?thesis by (rule wr_same)
    next
      case del
      then show ?thesis by (rule wr_delete)
    next
      case save
      show ?thesis by (rule wr_save [OF ld _ save]) (simp add: unstakedSumOK_def)
    qed
  qed
qed

lemma unBond_writes: "writesRecordOK v (CallerAddr args) st (snd (unBond v args st))"
proof (cases "flagEnableTopUp v")
  case False
  then show ?thesis using unBondV1_writes [of v args st] by (simp add: unBond_def)
next
  case True
  show ?thesis
  proof (cases "isUnStakeUnBondPaused v st")
    case True
    with \<open>flagEnableTopUp v\<close> show ?thesis by (simp add: unBond_def wr_same)
  next
    case np: False
    obtain res st1 where chk: "checkUnBondArguments v args st = (res, st1)"
      by (cases "checkUnBondArguments v args st")
    show ?thesis
    proof (cases res)
      case (Inl rc)
      with True np chk show ?thesis
        by (auto simp: unBond_def intro!: wr_same dest: checkUnBondArguments_Inl)
    next
      case (Inr r)
      with chk have s1: "storage st1 = storage st"
        and ld: "getOrCreateRegistrationData v (CallerAddr args) st = Inr r"
        by (auto dest: checkUnBondArguments_Inr)
      obtain ks st2 where nodes: "unBondNodesFromStakingSC v (Arguments args) st1 = (ks, st2)"
        by (cases "unBondNodesFromStakingSC v (Arguments args) st1")
      with s1 have s2: "storage st2 = storage st" by (auto dest: unBondNodesFromStakingSC_storage)
      let ?c = "NodePrice (getConfig v (CurrentEpoch v)) * int (length ks)"
      obtain res2 r2 st3 where tk: "unBondTokensFromRegistrationData v r ?c st2 = (res2, r2, st3)"
        by (cases "unBondTokensFromRegistrationData v r ?c st2") auto
      from unBondTokensFromRegistrationData_inv [OF tk] s2
      have s3: "storage st3 = storage st" and inv: "unstakedSumOK r \<longrightarrow> unstakedSumOK r2" by auto
      show ?thesis
      proof (cases res2)
        case (Inl rc)
        with True np chk Inr nodes tk s3 show ?thesis
          by (auto simp: unBond_def Let_def intro!: wr_same)
      next
        case (Inr totalUnBond)
        obtain rc st4 where
          upd: "updateRegistrationDataAfterUnBond v r2 ks (CallerAddr args) st3 = (rc, st4)"
          by (cases "updateRegistrationDataAfterUnBond v r2 ks (CallerAddr args) st3")
        from True np chk \<open>res = Inr r\<close> nodes tk Inr upd
        have fin: "storage (snd (unBond v args st)) = storage st4"
          by (auto simp: unBond_def Let_def Transfer_def split: if_splits)
        from updateRegistrationDataAfterUnBond_writes [OF upd] s3 consider
            (same) "storage st4 = storage st"
          | (del) "storage st4 = (storage st)(CallerAddr args := None)"
          | (save) r' where "UnstakedInfo r' = UnstakedInfo r2" "TotalUnstaked r' = TotalUnstaked r2"
              "storage st4 = (storage st)(CallerAddr args := Some (Marshalled r'))"
          by auto
        then show ?thesis
        proof cases
          case same
          with fin show ?thesis by (auto intro: wr_same)
        next
          case del
          with fin show ?thesis by (auto intro: wr_delete)
        next
          case save
          from save(3) fin have eq: "storage (snd (unBond v args st))
              = (storage st)(CallerAddr args := Some (Marshalled r'))" by simp
          from inv save(1,2) have "unstakedSumOK r \<longrightarrow> unstakedSumOK r'"
            by (simp add: unstakedSumOK_def)
          then show ?thesis by (rule wr_save [OF ld _ eq])
        qed
      qed
    qed
  qed
qed

lemma unBondNodes_writes: "writesRecordOK v (CallerAddr args) st (snd (unBondNodes v args st))"
proof (cases "flagEnableTopUp v \<and> \<not> isUnStakeUnBondPaused v st")
  case False
  then show ?thesis by (auto simp: unBondNodes_def intro!: wr_same)
next
  case True
  obtain res st1 where chk: "checkUnBondArguments v args st = (res, st1)"
    by (cases "checkUnBondArguments v args st")
  show ?thesis
  proof (cases res)
    case (Inl rc)
    with True chk show ?thesis
      by (auto simp: unBondNodes_def intro!: wr_same dest: checkUnBondArguments_Inl)
  next
    case (Inr r)
    with chk have s1: "storage st1 = storage st"
      and ld: "getOrCreateRegistrationData v (CallerAddr args) st = Inr r"
      by (auto dest: checkUnBondArguments_Inr)
    obtain ks st2 where nodes: "unBondNodesFromStakingSC v (Arguments args) st1 = (ks, st2)"
      by (cases "unBondNodesFromStakingSC v (Arguments args) st1")
    with s1 have s2: "storage st2 = storage st" by (auto dest: unBondNodesFromStakingSC_storage)
    obtain rc st3 where
      upd: "updateRegistrationDataAfterUnBond v r ks (CallerAddr args) st2 = (rc, st3)"
      by (cases "updateRegistrationDataAfterUnBond v r ks (CallerAddr args) st2")
    from True chk Inr nodes upd have fin: "storage (snd (unBondNodes v args st)) = storage st3"
      by (auto simp: unBondNodes_def split: if_splits)
    from updateRegistrationDataAfterUnBond_writes [OF upd] s2 consider
        (same) "storage st3 = storage st"
      | (del) "storage st3 = (storage st)(CallerAddr args := None)"
      | (save) r' where "UnstakedInfo r' = UnstakedInfo r" "TotalUnstaked r' = TotalUnstaked r"
          "storage st3 = (storage st)(CallerAddr args := Some (Marshalled r'))"
      by auto
    then show ?thesis
    proof cases
      case same
      with fin show ?thesis by (auto intro: wr_same)
    next
      case del
      with fin show ?thesis by (auto intro: wr_delete)
    next
      case save
      from save(3) fin have eq: "storage (snd (unBondNodes v args st))
          = (storage st)(CallerAddr args := Some (Marshalled r'))" by simp
      from save(1,2) have "unstakedSumOK r \<longrightarrow> unstakedSumOK r'"
        by (simp add: unstakedSumOK_def)
      then show ?thesis by (rule wr_save [OF ld _ eq])
    qed
  qed
qed

lemma updateStakeValue_storage:
  assumes "updateStakeValue v r c st = (rc, st')"
  shows "storage st' = storage st
       \<or> storage st' = (storage st)(c := Some (Marshalled
             (if length (RewardAddress r) = 0 then r\<lparr>RewardAddress := c\<rparr> else r)))"
  using assms
  by (auto simp: updateStakeValue_def Let_def saveRegistrationData_def SetStorage_def
        split: if_splits)

lemma updateStakeValue_writes:
  assumes "updateStakeValue v r c st = (rc, st')"
  shows "storage st' = storage st
       \<or> (\<exists>r'. UnstakedInfo r' = UnstakedInfo r \<and> TotalUnstaked r' = TotalUnstaked r
              \<and> storage st' = (storage st)(c := Some (Marshalled r')))"
proof -
  let ?r' = "if length (RewardAddress r) = 0 then r\<lparr>RewardAddress := c\<rparr> else r"
  have "UnstakedInfo ?r' = UnstakedInfo r \<and> TotalUnstaked ?r' = TotalUnstaked r" by simp
  with updateStakeValue_storage [OF assms] show ?thesis by blast
qed

lemma stake_writes:
  assumes "stake v args st = Some (rc, st')"
  shows "writesRecordOK v (CallerAddr args) st st'"
proof (cases "storage st' = storage st")
  case True
  then show ?thesis by (rule wr_same)
next
  case changed: False
  from assms changed obtain st1 where g1: "UseGas (Stake (gasCost v)) st = Some st1"
    by (auto simp: stake_def split: option.splits)
  then have s1: "storage st1 = storage st" by (rule storage_UseGas)
  from assms changed g1 s1 obtain r0 where ld1: "getOrCreateRegistrationData v (CallerAddr args) st1 = Inr r0"
    by (auto simp: stake_def Let_def split: if_splits sum.splits)
  with s1 have ld: "getOrCreateRegistrationData v (CallerAddr args) st = Inr r0"
    by (simp add: getOrCreateRegistrationData_storage [OF s1])
  let ?r1 = "r0\<lparr>TotalStakeValue := TotalStakeValue r0 + CallValue args\<rparr>"
  have "\<exists>r'. UnstakedInfo r' = UnstakedInfo r0 \<and> TotalUnstaked r' = TotalUnstaked r0
          \<and> storage st' = (storage st)(CallerAddr args := Some (Marshalled r'))"
  proof (cases "Arguments args = []")
    case True
    with assms changed g1 s1 ld1 have "updateStakeValue v ?r1 (CallerAddr args) st1 = (rc, st')"
      by (auto simp: stake_def Let_def split: if_splits)
    from updateStakeValue_writes [OF this] changed s1 show ?thesis by auto
  next
    case False
    let ?n = "Uint64 (SetBytes (Arguments args ! 0))"
    from assms changed g1 s1 ld1 False obtain st2 where
      g2: "UseGas ((?n - 1) * Stake (gasCost v)) st1 = Some st2"
      by (auto simp: stake_def Let_def split: if_splits option.splits)
    with s1 have s2: "storage st2 = storage st" by (auto dest: storage_UseGas)
    let ?r2 = "(if \<not> length (RewardAddress ?r1) > 0 then ?r1\<lparr>RewardAddress := CallerAddr args\<rparr> else ?r1)
               \<lparr>MaxStakePerNode := TotalStakeValue ?r1, Epoch := CurrentEpoch v\<rparr>"
    from assms changed g1 s1 ld1 False g2 s2 obtain blsKeys r3 st3 where
      reg: "registerBLSKeys v ?r2 (CallerAddr args) (CallerAddr args) (Arguments args) st2
              = Some (Inr blsKeys, r3, st3)"
      by (auto simp: stake_def Let_def split: if_splits option.splits sum.splits
            dest!: registerBLSKeys_frame)
    from registerBLSKeys_frame [OF reg] s2
    have s3: "storage st3 = storage st" and f3: "UnstakedInfo r3 = UnstakedInfo r0"
      "TotalUnstaked r3 = TotalUnstaked r0"
      by (auto split: if_splits)
    let ?q = "Uint64 (Div (TotalStakeValue r3) (NodePrice (getConfig v (CurrentEpoch v))))"
    obtain r4 st4 where opt:
      "(if of_nat (length (Arguments args)) > ?n * 2 + 1
        then stakeOptionals v (length (RewardAddress ?r1) > 0)
               (drop (unat (?n * 2 + 1)) (Arguments args)) r3 st3
        else (r3, st3)) = (r4, st4)"
      by (cases "(if of_nat (length (Arguments args)) > ?n * 2 + 1
        then stakeOptionals v (length (RewardAddress ?r1) > 0)
               (drop (unat (?n * 2 + 1)) (Arguments args)) r3 st3
        else (r3, st3))")
    then have s4: "storage st4 = storage st" and f4: "UnstakedInfo r4 = UnstakedInfo r0"
      "TotalUnstaked r4 = TotalUnstaked r0"
      using s3 f3 by (auto split: if_splits dest: stakeOptionals_frame)
    obtain r5 st5 where act:
      "activateStakingFor v blsKeys ?q r4 (NodePrice (getConfig v (CurrentEpoch v)))
         (RewardAddress r4) (CallerAddr args) st4 = (r5, st5)"
      by (cases "activateStakingFor v blsKeys ?q r4 (NodePrice (getConfig v (CurrentEpoch v)))
         (RewardAddress r4) (CallerAddr args) st4")
    from activateStakingFor_frame [OF act] s4 f4
    have s5: "storage st5 = storage st" and f5: "UnstakedInfo r5 = UnstakedInfo r0"
      "TotalUnstaked r5 = TotalUnstaked r0"
      by auto
    from assms changed g1 s1 ld1 False g2 reg s3 opt act s5
    have "storage st' = (storage st)(CallerAddr args := Some (Marshalled r5))"
      by (auto simp: stake_def Let_def saveRegistrationData_def SetStorage_def
            split: if_splits)
    with f5 show ?thesis by blast
  qed
  then obtain r' where f: "UnstakedInfo r' = UnstakedInfo r0" "TotalUnstaked r' = TotalUnstaked r0"
    and eq: "storage st' = (storage st)(CallerAddr args := Some (Marshalled r'))"
    by blast
  from f have "unstakedSumOK r0 \<longrightarrow> unstakedSumOK r'" by (simp add: unstakedSumOK_def)
  then show ?thesis by (rule wr_save [OF ld _ eq])
qed

lemma Execute_writes:
  assumes "Execute v (Some args) st = Some (rc, st')" and "Function args \<noteq> ''setConfig''"
  shows "writesRecordOK v (CallerAddr args) st st'"
proof -
  from assms show ?thesis
    unfolding Execute_def option.case
    apply (simp only: split: if_splits)
    subgoal by (metis init_writes snd_conv option.inject)
    subgoal by (auto intro: stake_writes)
    subgoal by (metis unStake_writes snd_conv option.inject)
    subgoal by (metis unStakeNodes_writes snd_conv option.inject)
    subgoal by (metis unStakeTokens_writes snd_conv option.inject)
    subgoal by (metis unBond_writes snd_conv option.inject)
    subgoal by (metis unBondNodes_writes snd_conv option.inject)
    subgoal by (metis unBondTokens_writes snd_conv option.inject)
    subgoal by (metis claim_writes snd_conv option.inject)
    subgoal by (metis get_writes snd_conv option.inject)
    subgoal by (metis changeRewardAddress_writes snd_conv option.inject)
    subgoal by (metis unJail_writes snd_conv option.inject)
    subgoal by (metis getTotalStaked_writes snd_conv option.inject)
    subgoal by (metis getTotalStakedTopUpBlsKeys_writes snd_conv option.inject)
    subgoal by (metis getBlsKeysStatus_writes snd_conv option.inject)
    subgoal by (metis updateStakingV2_writes snd_conv option.inject)
    subgoal by (metis cleanRegisteredData_writes snd_conv option.inject)
    subgoal by (metis pause_writes snd_conv option.inject)
    subgoal by (metis unpause_writes snd_conv option.inject)
    subgoal by (auto intro: wr_same)
    done
qed

lemma storesNoRecord_keeps:
  assumes "storesNoRecord handler" and "storedUnstakedSumOK st key"
  shows "storedUnstakedSumOK (snd (handler args st)) key"
proof (cases "storage (snd (handler args st)) key")
  case None
  then show ?thesis by (simp add: storedUnstakedSumOK_def)
next
  case (Some val)
  show ?thesis
  proof (cases val)
    case (RawBytes b)
    with Some show ?thesis by (simp add: storedUnstakedSumOK_def)
  next
    case (Marshalled r)
    with Some have "storage (snd (handler args st)) key = Some (Marshalled r)" by simp
    with assms(1) have "storage st key = Some (Marshalled r)"
      unfolding storesNoRecord_def by blast
    with assms(2) Some Marshalled show ?thesis by (simp add: storedUnstakedSumOK_def)
  qed
qed

lemma Execute_setConfig:
  "Function args = ''setConfig'' \<Longrightarrow> Execute v (Some args) st = Some (setConfig v args st)"
  by (simp add: Execute_def SCDeployInitFunctionName_def)

lemma Execute_keeps:
  assumes "Execute v input st = Some (rc, st')" and "storesNoRecord (setConfig v)"
    and "storedUnstakedSumOK st key"
  shows "storedUnstakedSumOK st' key"
proof (cases input)
  case None
  with assms(1,3) show ?thesis by (auto simp: Execute_def storedUnstakedSumOK_def)
next
  case (Some args)
  with assms(1) have exec: "Execute v (Some args) st = Some (rc, st')" by simp
  show ?thesis
  proof (cases "Function args = ''setConfig''")
    case True
    then have "Execute v (Some args) st = Some (setConfig v args st)" by (rule Execute_setConfig)
    with exec have "st' = snd (setConfig v args st)" by simp
    moreover from assms(2,3) have "storedUnstakedSumOK (snd (setConfig v args st)) key"
      by (rule storesNoRecord_keeps)
    ultimately show ?thesis by simp
  next
    case False
    with exec have "writesRecordOK v (CallerAddr args) st st'" by (rule Execute_writes)
    then show ?thesis using assms(3) by (rule writesRecordOK_keeps)
  qed
qed

text \<open>Hence the invariant holds under every key in every state reachable from an empty
  contract storage.\<close>

lemma reachable_unstakedSumOK: "reachable st \<Longrightarrow> storedUnstakedSumOK st key"
proof (induction rule: reachable.induct)
  case (start st)
  then show ?case by (simp add: storedUnstakedSumOK_def)
next
  case (call st v input st')
  from call.hyps(3,2) call.IH show ?case by (rule Execute_keeps)
next
  case (host st st')
  then show ?case by (simp add: storedUnstakedSumOK_def)
qed

text \<open>
  C6. After every handler that returns \<open>Ok\<close>, the caller's \<open>TotalUnstaked\<close> equals the sum of
  the values of the entries of the caller's \<open>UnstakedInfo\<close> list: every call dispatched by
  \<open>Execute\<close> that returns \<open>Ok\<close> keeps this invariant of the record stored under the caller's
  key. The two fields change only in \<open>processUnStakeValue\<close>, which adds the same amount to
  both, and in \<open>unBondTokensFromRegistrationData\<close>, which removes the same amount from both;
  every other handler of the source file saves the two fields as it loaded them. For a call
  of the handler \<open>setConfig\<close>, whose body is outside the source file, the theorem assumes that
  the handler stores no registration record of its own.
\<close>

theorem Execute_keeps_unstaked_sum:
  assumes "Execute v (Some args) st = Some (Ok, st')"
    and "storedUnstakedSumOK st (CallerAddr args)"
    and "Function args = ''setConfig'' \<longrightarrow> storesNoRecord (setConfig v)"
  shows "storedUnstakedSumOK st' (CallerAddr args)"
proof (cases "Function args = ''setConfig''")
  case True
  with assms(3) have "storesNoRecord (setConfig v)" by simp
  with assms(1) show ?thesis using assms(2) by (rule Execute_keeps)
next
  case False
  with assms(1) have "writesRecordOK v (CallerAddr args) st st'" by (rule Execute_writes)
  then show ?thesis using assms(2) by (rule writesRecordOK_keeps)
qed

text \<open>The invariant at work. \<open>unStakeTokens(2000)\<close> by an owner with \<open>TotalStakeValue\<close> 6000
  and nothing pending leaves \<open>TotalUnstaked\<close> 2000 and the single entry (nonce 100, value
  2000). A \<open>setConfig\<close> call is dispatched like every other: with the handler of the scenarios
  it returns \<open>Ok\<close>, puts the configuration bytes under the epoch's key and leaves the caller's
  record as it was.\<close>

theorem Execute_keeps_unstaked_sum_witness:
  "storedUnstakedSumOK (hostWith aliceRecord) (CallerAddr (aliceCall ''unStakeTokens'' 0 [[CHR 0x07, CHR 0xD0]]))
   \<and> Execute scenarioSC (Some (aliceCall ''unStakeTokens'' 0 [[CHR 0x07, CHR 0xD0]])) (hostWith aliceRecord)
       = Some (Ok, snd (unStakeTokens scenarioSC (aliceCall ''unStakeTokens'' 0 [[CHR 0x07, CHR 0xD0]])
                          (hostWith aliceRecord)))
   \<and> storage (snd (unStakeTokens scenarioSC (aliceCall ''unStakeTokens'' 0 [[CHR 0x07, CHR 0xD0]])
                     (hostWith aliceRecord))) ''alice''
       = Some (Marshalled (aliceRecord\<lparr>TotalStakeValue := 4000, TotalUnstaked := 2000,
            UnstakedInfo := [\<lparr>UnstakedNonce = 100, UnstakedValue = 2000\<rparr>]\<rparr>))
   \<and> storedUnstakedSumOK (snd (unStakeTokens scenarioSC (aliceCall ''unStakeTokens'' 0 [[CHR 0x07, CHR 0xD0]])
                     (hostWith aliceRecord))) ''alice''
   \<and> storedUnstakedSumOK (hostWith aliceRecord)
         (CallerAddr (aliceCall ''setConfig'' 0 [''epoch1'', ''config'']))
   \<and> Function (aliceCall ''setConfig'' 0 [''epoch1'', ''config'']) = ''setConfig''
   \<and> storesNoRecord (setConfig scenarioSC)
   \<and> Execute scenarioSC (Some (aliceCall ''setConfig'' 0 [''epoch1'', ''config''])) (hostWith aliceRecord)
       = Some (Ok, SetStorage ''epoch1'' (Some (RawBytes ''config'')) (hostWith aliceRecord))
   \<and> storage (SetStorage ''epoch1'' (Some (RawBytes ''config'')) (hostWith aliceRecord)) ''alice''
       = Some (Marshalled aliceRecord)
   \<and> storedUnstakedSumOK (SetStorage ''epoch1'' (Some (RawBytes ''config'')) (hostWith aliceRecord))
         ''alice''"
proof -
  let ?call = "aliceCall ''unStakeTokens'' 0 [[CHR 0x07, CHR 0xD0]]"
  let ?cfg = "aliceCall ''setConfig'' 0 [''epoch1'', ''config'']"
  let ?st = "hostWith aliceRecord"
  let ?st' = "SetStorage ''epoch1'' (Some (RawBytes ''config'')) (hostWith aliceRecord)"
  have caller: "CallerAddr ?call = ''alice''" "CallerAddr ?cfg = ''alice''"
    by (simp_all add: aliceCall_def)
  have before: "storedUnstakedSumOK ?st ''alice''"
    by (simp add: storedUnstakedSumOK_def unstakedSumOK_def hostWith_def aliceRecord_def)
  have amount: "SetBytes [CHR 0x07, CHR 0xD0] = 2000" by (simp add: SetBytes_def)
  have run: "unStakeTokens scenarioSC ?call ?st
      = (Ok, snd (unStakeTokens scenarioSC ?call ?st))
    \<and> storage (snd (unStakeTokens scenarioSC ?call ?st)) ''alice''
       = Some (Marshalled (aliceRecord\<lparr>TotalStakeValue := 4000, TotalUnstaked := 2000,
            UnstakedInfo := [\<lparr>UnstakedNonce = 100, UnstakedValue = 2000\<rparr>]\<rparr>))"
    by (simp add: unStakeTokens_def basicCheckForUnStakeUnBond_def processUnStakeValue_def
          isUnStakeUnBondPaused_def unStakeUnBondPauseKey_def amount Let_def host_defs scenario_defs)
  have exec: "Execute scenarioSC (Some ?call) ?st = Some (unStakeTokens scenarioSC ?call ?st)"
    by (simp add: Execute_def aliceCall_def SCDeployInitFunctionName_def)
  with run have exec_ok: "Execute scenarioSC (Some ?call) ?st
      = Some (Ok, snd (unStakeTokens scenarioSC ?call ?st))" by simp
  have other: "Function ?call = ''setConfig'' \<longrightarrow> storesNoRecord (setConfig scenarioSC)"
    by (simp add: aliceCall_def)
  from before caller have before': "storedUnstakedSumOK ?st (CallerAddr ?call)" by simp
  from Execute_keeps_unstaked_sum [OF exec_ok before' other] caller
  have after: "storedUnstakedSumOK (snd (unStakeTokens scenarioSC ?call ?st)) ''alice''" by simp
  have name: "Function ?cfg = ''setConfig''" by (simp add: aliceCall_def)
  have config: "storesNoRecord (setConfig scenarioSC)"
    by (auto simp: storesNoRecord_def scenarioSC_def scenarioSetConfig_def SetStorage_def
          AddReturnMessage_def split: list.splits if_splits)
  then have config': "Function ?cfg = ''setConfig'' \<longrightarrow> storesNoRecord (setConfig scenarioSC)"
    by simp
  have cfg_ok: "Execute scenarioSC (Some ?cfg) ?st = Some (Ok, ?st')"
    by (simp add: Execute_def SCDeployInitFunctionName_def scenarioSetConfig_def scenarioSC_def
          aliceCall_def)
  have kept: "storage ?st' ''alice'' = Some (Marshalled aliceRecord)"
    by (simp add: SetStorage_def hostWith_def emptyHost_def)
  from before caller have before_cfg: "storedUnstakedSumOK ?st (CallerAddr ?cfg)" by simp
  from Execute_keeps_unstaked_sum [OF cfg_ok before_cfg config'] caller
  have after_cfg: "storedUnstakedSumOK ?st' ''alice''" by simp
  from before' exec_ok run after before_cfg name config cfg_ok kept after_cfg
  show ?thesis by blast
qed

end
